(* ===== verification/Prelude.thy ===== *)
theory Prelude
  imports Main "HOL-Library.Word"
begin

text \<open>
  Shared material of the development: the machine integer types of \<open>Common/Types.h\<close>
  and \<open>Common/Protocol.h\<close>, the C string routines the server and the client call
  (\<open>strncpy_s\<close>, \<open>strcpy_s\<close>, \<open>strncmp\<close>, of the Microsoft C runtime the project is
  built with), the ways a handler can bring the process down, and a few facts on words and
  lists that the component theories share.
\<close>

named_theorems frame \<open>which fields an operation leaves unchanged\<close>

subsection \<open>Machine integers\<close>

text \<open>Signed types are words read through \<open>sint\<close>; arithmetic wraps as on the target.\<close>

type_synonym u8 = "8 word"
type_synonym u16 = "16 word"
type_synonym u32 = "32 word"
type_synonym u64 = "64 word"
type_synonym i8 = "8 word"
type_synonym i16 = "16 word"
type_synonym i32 = "32 word"
type_synonym i64 = "64 word"
type_synonym SessionId = u32

definition INVALID_SESSION :: SessionId where
  "INVALID_SESSION = 0"

subsection \<open>Ways the process can go down\<close>

text \<open>
  \<open>DivideByZero\<close>: an integer division or remainder by zero. \<open>InvalidParameter\<close>: a
  secure string routine whose destination is too small (the runtime's invalid parameter
  handler ends the process). \<open>Unterminated\<close>: a routine that looks for a NUL and leaves
  its array. \<open>OutOfRange\<close>: \<open>std::out_of_range\<close> that nothing catches. \<open>OutOfBounds\<close>: an
  access outside an array or a vector, which the language leaves undefined, as it does
  \<open>SignedOverflow\<close>, a sum that does not fit \<open>int\<close>.
\<close>

datatype crash = DivideByZero | InvalidParameter | Unterminated | OutOfRange | OutOfBounds
  | SignedOverflow

type_synonym 'a result = "crash + 'a"

fun bind_result :: "'a result \<Rightarrow> ('a \<Rightarrow> 'b result) \<Rightarrow> 'b result" where
  "bind_result (Inl c) f = Inl c"
| "bind_result (Inr a) f = f a"

lemma bind_result_Inr: "bind_result r f = Inr b \<longleftrightarrow> (\<exists>a. r = Inr a \<and> f a = Inr b)"
  by (cases r) auto

lemma bind_result_Inl:
  "bind_result r f = Inl c \<longleftrightarrow> r = Inl c \<or> (\<exists>a. r = Inr a \<and> f a = Inl c)"
  by (cases r) auto

text \<open>
  A fold of steps that can fail: the first crash ends it.
\<close>

fun fold_result :: "('a \<Rightarrow> 's \<Rightarrow> 's result) \<Rightarrow> 'a list \<Rightarrow> 's \<Rightarrow> 's result" where
  "fold_result f [] s = Inr s"
| "fold_result f (x # xs) s = bind_result (f x s) (fold_result f xs)"

subsection \<open>Arrays and vectors\<close>

text \<open>
  \<open>xs[i]\<close> read and written: \<open>std::vector::operator[]\<close> and the subscript of an array
  check nothing, so an index outside is \<open>OutOfBounds\<close>.
\<close>

definition array_at :: "'a list \<Rightarrow> nat \<Rightarrow> 'a result" where
  "array_at xs i = (if i < length xs then Inr (xs ! i) else Inl OutOfBounds)"

definition array_put :: "'a list \<Rightarrow> nat \<Rightarrow> 'a \<Rightarrow> 'a list result" where
  "array_put xs i x = (if i < length xs then Inr (xs[i := x]) else Inl OutOfBounds)"

lemma array_at_in: "i < length xs \<Longrightarrow> array_at xs i = Inr (xs ! i)"
  by (simp add: array_at_def)

subsection \<open>C strings\<close>

text \<open>
  A char array is the list of its bytes; what a C routine reads of it ends at the first
  NUL. \<open>strncpy_s cap src n\<close> is the destination's string, or nothing when it does not
  fit \<open>cap\<close> bytes with its terminator.
\<close>

definition cstr :: "string \<Rightarrow> string" where
  "cstr s = takeWhile (\<lambda>c. c \<noteq> CHR 0x00) s"

definition strncpy_s :: "nat \<Rightarrow> string \<Rightarrow> nat \<Rightarrow> string option" where
  "strncpy_s cap src n = (let s = take n (cstr src) in if length s < cap then Some s else None)"

definition strcpy_s :: "nat \<Rightarrow> string \<Rightarrow> string option" where
  "strcpy_s cap src = (let s = cstr src in if length s < cap then Some s else None)"

definition strncmp_eq :: "string \<Rightarrow> string \<Rightarrow> nat \<Rightarrow> bool" where
  "strncmp_eq a b n \<longleftrightarrow> take n (cstr a) = take n (cstr b)"

text \<open>
  \<open>ncopy n src\<close> is the destination after a call whose count is smaller than the
  destination's size, which never fails.
\<close>

definition ncopy :: "nat \<Rightarrow> string \<Rightarrow> string" where
  "ncopy n src = take n (cstr src)"

lemma strncpy_s_ncopy: "n < cap \<Longrightarrow> strncpy_s cap src n = Some (ncopy n src)"
  by (simp add: strncpy_s_def ncopy_def Let_def)

lemma cstr_no_nul: "CHR 0x00 \<notin> set (cstr s)"
  unfolding cstr_def by (auto dest: set_takeWhileD)

lemma cstr_id: "CHR 0x00 \<notin> set s \<Longrightarrow> cstr s = s"
  by (auto simp: cstr_def takeWhile_eq_all_conv)

lemma cstr_ncopy [simp]: "cstr (ncopy n s) = ncopy n s"
  unfolding ncopy_def by (rule cstr_id) (use cstr_no_nul in \<open>blast dest: in_set_takeD\<close>)

lemma cstr_idem [simp]: "cstr (cstr s) = cstr s"
  by (rule cstr_id) (rule cstr_no_nul)

lemma ncopy_no_nul: "CHR 0x00 \<notin> set (ncopy n s)"
  unfolding ncopy_def using cstr_no_nul by (blast dest: in_set_takeD)

lemma length_ncopy: "length (ncopy n s) \<le> n"
  by (simp add: ncopy_def)

lemma ncopy_ncopy [simp]: "ncopy m (ncopy n s) = take m (ncopy n s)"
  by (simp add: ncopy_def [of m])

lemma strcpy_s_fits: "length (cstr s) < cap \<Longrightarrow> strcpy_s cap s = Some (cstr s)"
  by (simp add: strcpy_s_def)

lemma cstr_append_nul [simp]: "cstr (cstr s @ CHR 0x00 # t) = cstr s"
proof -
  have "\<And>c. c \<in> set (cstr s) \<Longrightarrow> c \<noteq> CHR 0x00" using cstr_no_nul [of s] by auto
  then show ?thesis unfolding cstr_def [of "cstr s @ _"]
    by (subst takeWhile_append2) auto
qed

text \<open>Printing char arrays: each is read up to its NUL, and left by the reader when it has none.\<close>

definition terminated :: "string \<Rightarrow> bool" where
  "terminated s \<longleftrightarrow> CHR 0x00 \<in> set s"

definition c_print :: "string list \<Rightarrow> 'a \<Rightarrow> 'a result" where
  "c_print texts a = (if list_all terminated texts then Inr a else Inl Unterminated)"

lemma c_print_iff [simp]:
  "c_print texts a = Inr b \<longleftrightarrow> list_all terminated texts \<and> b = a"
  "c_print texts a = Inl c \<longleftrightarrow> \<not> list_all terminated texts \<and> c = Unterminated"
  by (auto simp: c_print_def)

subsection \<open>Lists\<close>

lemma set_list_update_subset: "set (xs[i := x]) \<subseteq> insert x (set xs)"
  by (rule set_update_subset_insert)

lemma list_all_update: "list_all P xs \<Longrightarrow> P x \<Longrightarrow> list_all P (xs[i := x])"
  using set_update_subset_insert [of xs i x] by (auto simp: list_all_iff)

subsection \<open>Words\<close>

lemma word_min_le: "min a b \<le> (b :: 'a::len word)"
  by simp

lemma unat_sub_le: "b \<le> a \<Longrightarrow> unat (a - b) = unat a - unat (b :: 'a::len word)"
  by (simp add: unat_sub)

lemma unat_add_no_wrap: "unat a + unat b < 2 ^ LENGTH('a) \<Longrightarrow>
    unat (a + b) = unat a + unat (b :: 'a::len word)"
  by (simp add: unat_word_ariths(1))

lemma word_less_succ: "a \<noteq> - 1 \<Longrightarrow> a < a + (1 :: 'a::len word)"
proof -
  assume "a \<noteq> - 1"
  then have "1 + a \<noteq> 0" by (simp add: add.commute eq_neg_iff_add_eq_0)
  then show "a < a + 1" using unatSuc [of a] by (simp add: word_less_nat_alt add.commute)
qed

lemma unat_ucast_up:
  "LENGTH('a) \<le> LENGTH('b) \<Longrightarrow> unat (ucast (x :: 'a::len word) :: 'b::len word) = unat x"
proof -
  assume le: "LENGTH('a) \<le> LENGTH('b)"
  have "unat x < 2 ^ LENGTH('a)" by (rule unsigned_less)
  also have "\<dots> \<le> 2 ^ LENGTH('b)" using le by (rule power_increasing) simp
  finally show ?thesis by (simp add: unsigned_ucast_eq take_bit_nat_eq_self_iff)
qed

subsection \<open>Loops over a state\<close>

lemma fold_keeps: "(\<And>x w. g (f x w) = g w) \<Longrightarrow> g (fold f xs w) = g w"
  by (induction xs arbitrary: w) simp_all

lemma fold_invariant: "(\<And>x w. P w \<Longrightarrow> P (f x w)) \<Longrightarrow> P w \<Longrightarrow> P (fold f xs w)"
  by (induction xs arbitrary: w) simp_all

end
