(* ===== verification/Protocol.thy ===== *)
theory Protocol
  imports Prelude
begin

text \<open>
  \<open>Common/Protocol.h\<close>: the size limits, the packet types and the payload structs.
  Every struct is a record with the source's fields (prefixed, since Isabelle selectors
  share one name space). A char array of a client-to-server struct is the whole array, as
  the server receives it; of a server-to-client struct it is the C string the server put
  there. An array of structs is the list of all its elements, used or not.
\<close>

subsection \<open>Limits\<close>

definition HEADER_SIZE :: nat where
  "HEADER_SIZE = 4"

definition MAX_PACKET_SIZE :: nat where
  "MAX_PACKET_SIZE = 4096"

definition MAX_RECV_BUFFER_SIZE :: nat where
  "MAX_RECV_BUFFER_SIZE = 8192"

definition MAX_INVENTORY :: nat where
  "MAX_INVENTORY = 20"

definition MAX_QUEST_LIST :: nat where
  "MAX_QUEST_LIST = 10"

definition MAX_PARTY :: nat where
  "MAX_PARTY = 4"

subsection \<open>Packet types\<close>

datatype (plugins only: code) PacketType =
  CS_LOGIN
  | SC_LOGIN_RESULT
  | CS_LOGOUT
  | SC_LOGOUT_RESULT
  | CS_CHAR_LIST
  | SC_CHAR_LIST
  | CS_CHAR_CREATE
  | SC_CHAR_CREATE_RESULT
  | CS_CHAR_SELECT
  | SC_CHAR_INFO
  | SC_CHAR_LEAVE
  | CS_ATTENDANCE_CHECK
  | SC_ATTENDANCE_INFO
  | SC_ATTENDANCE_RESULT
  | CS_MOVE
  | SC_MOVE_RESULT
  | CS_ATTACK
  | SC_ATTACK_RESULT
  | SC_NPC_SPAWN
  | SC_NPC_DEATH
  | SC_EXP_UPDATE
  | SC_LEVEL_UP
  | CS_CHAT
  | SC_CHAT
  | SC_ITEM_DROP
  | CS_ITEM_USE
  | SC_ITEM_USE_RESULT
  | CS_ITEM_EQUIP
  | SC_EQUIP_RESULT
  | SC_INVENTORY_UPDATE
  | SC_INVENTORY_LIST
  | CS_SHOP_OPEN
  | SC_SHOP_LIST
  | CS_SHOP_BUY
  | SC_SHOP_RESULT
  | CS_SHOP_SELL
  | CS_QUEST_LIST
  | SC_QUEST_LIST
  | CS_QUEST_ACCEPT
  | SC_QUEST_ACCEPT_RESULT
  | SC_QUEST_PROGRESS
  | CS_QUEST_COMPLETE
  | SC_QUEST_REWARD
  | CS_PARTY_INVITE
  | SC_PARTY_INVITE
  | CS_PARTY_ACCEPT
  | SC_PARTY_UPDATE
  | CS_PARTY_LEAVE
  | SC_PARTY_LEAVE
  | CS_HEARTBEAT
  | SC_HEARTBEAT
  | SC_ERROR

fun packet_code :: "PacketType \<Rightarrow> u16" where
  "packet_code CS_LOGIN = 0x0101"
| "packet_code SC_LOGIN_RESULT = 0x0102"
| "packet_code CS_LOGOUT = 0x0103"
| "packet_code SC_LOGOUT_RESULT = 0x0104"
| "packet_code CS_CHAR_LIST = 0x0201"
| "packet_code SC_CHAR_LIST = 0x0202"
| "packet_code CS_CHAR_CREATE = 0x0203"
| "packet_code SC_CHAR_CREATE_RESULT = 0x0204"
| "packet_code CS_CHAR_SELECT = 0x0205"
| "packet_code SC_CHAR_INFO = 0x0206"
| "packet_code SC_CHAR_LEAVE = 0x0207"
| "packet_code CS_ATTENDANCE_CHECK = 0x0301"
| "packet_code SC_ATTENDANCE_INFO = 0x0302"
| "packet_code SC_ATTENDANCE_RESULT = 0x0303"
| "packet_code CS_MOVE = 0x0401"
| "packet_code SC_MOVE_RESULT = 0x0402"
| "packet_code CS_ATTACK = 0x0501"
| "packet_code SC_ATTACK_RESULT = 0x0502"
| "packet_code SC_NPC_SPAWN = 0x0503"
| "packet_code SC_NPC_DEATH = 0x0504"
| "packet_code SC_EXP_UPDATE = 0x0505"
| "packet_code SC_LEVEL_UP = 0x0506"
| "packet_code CS_CHAT = 0x0601"
| "packet_code SC_CHAT = 0x0602"
| "packet_code SC_ITEM_DROP = 0x0701"
| "packet_code CS_ITEM_USE = 0x0702"
| "packet_code SC_ITEM_USE_RESULT = 0x0703"
| "packet_code CS_ITEM_EQUIP = 0x0704"
| "packet_code SC_EQUIP_RESULT = 0x0705"
| "packet_code SC_INVENTORY_UPDATE = 0x0706"
| "packet_code SC_INVENTORY_LIST = 0x0707"
| "packet_code CS_SHOP_OPEN = 0x0801"
| "packet_code SC_SHOP_LIST = 0x0802"
| "packet_code CS_SHOP_BUY = 0x0803"
| "packet_code SC_SHOP_RESULT = 0x0804"
| "packet_code CS_SHOP_SELL = 0x0805"
| "packet_code CS_QUEST_LIST = 0x0A01"
| "packet_code SC_QUEST_LIST = 0x0A02"
| "packet_code CS_QUEST_ACCEPT = 0x0A03"
| "packet_code SC_QUEST_ACCEPT_RESULT = 0x0A04"
| "packet_code SC_QUEST_PROGRESS = 0x0A05"
| "packet_code CS_QUEST_COMPLETE = 0x0A06"
| "packet_code SC_QUEST_REWARD = 0x0A07"
| "packet_code CS_PARTY_INVITE = 0x0B01"
| "packet_code SC_PARTY_INVITE = 0x0B02"
| "packet_code CS_PARTY_ACCEPT = 0x0B03"
| "packet_code SC_PARTY_UPDATE = 0x0B04"
| "packet_code CS_PARTY_LEAVE = 0x0B05"
| "packet_code SC_PARTY_LEAVE = 0x0B06"
| "packet_code CS_HEARTBEAT = 0xFF01"
| "packet_code SC_HEARTBEAT = 0xFF02"
| "packet_code SC_ERROR = 0xFF03"

record PacketHeader =
  ph_length :: u16
  ph_type :: u16

subsection \<open>Payloads\<close>

record CS_Login =
  lg_accountId :: string
  lg_password :: string

record SC_LoginResult =
  lr_success :: u8
  lr_accountUid :: u64
  lr_message :: string

record SC_CharListEntry =
  cle_charUid :: u64
  cle_name :: string
  cle_charType :: u8
  cle_level :: u16

record SC_CharList =
  cl_count :: u8
  cl_chars :: "SC_CharListEntry list"

record CS_CharCreate =
  cc_name :: string
  cc_charType :: u8

record SC_CharCreateResult =
  ccr_success :: u8
  ccr_charUid :: u64
  ccr_message :: string

record CS_CharSelect =
  cs_charUid :: u64

record SC_CharInfo =
  ci_charUid :: u64
  ci_name :: string
  ci_level :: u16
  ci_exp :: u32
  ci_posX :: i16
  ci_posY :: i16
  ci_hp :: u16
  ci_maxHp :: u16
  ci_gold :: u64

record SC_CharLeave =
  clv_charUid :: u64

record CS_Move =
  mv_dirX :: i8
  mv_dirY :: i8

record SC_MoveResult =
  mr_success :: u8
  mr_posX :: i16
  mr_posY :: i16

record CS_Attack =
  at_targetUid :: u64

record SC_AttackResult =
  ar_success :: u8
  ar_targetUid :: u64
  ar_damage :: u16
  ar_targetHp :: u16

record SC_Error =
  er_errorCode :: u16
  er_message :: string

record SC_NpcSpawn =
  ns_npcUid :: u64
  ns_posX :: i16
  ns_posY :: i16
  ns_hp :: u16
  ns_maxHp :: u16

record SC_NpcDeath =
  nd_npcUid :: u64
  nd_expReward :: u32
  nd_goldReward :: u32

record SC_ExpUpdate =
  eu_exp :: u32
  eu_maxExp :: u32

record SC_LevelUp =
  lu_level :: u16
  lu_hp :: u16
  lu_maxHp :: u16
  lu_atk :: u16
  lu_def :: u16

record CS_Chat =
  cch_channel :: u8
  cch_targetName :: string
  cch_message :: string

record SC_Chat =
  sch_channel :: u8
  sch_senderName :: string
  sch_message :: string

record SC_ItemDrop =
  idr_slot :: u8
  idr_itemId :: u16
  idr_itemName :: string

record CS_ItemUse =
  ciu_slot :: u8

record SC_ItemUseResult =
  iur_charUid :: u64
  iur_charName :: string
  iur_itemName :: string
  iur_effectType :: u8
  iur_effectValue :: u16

record CS_ItemEquip =
  cie_slot :: u8

record SC_EquipResult =
  eqr_success :: u8
  eqr_slot :: u8
  eqr_atk :: u16
  eqr_def :: u16
  eqr_weaponName :: string
  eqr_armorName :: string
  eqr_message :: string

record SC_InventoryUpdate =
  iu_slot :: u8
  iu_itemId :: u16
  iu_itemName :: string

record SC_InventoryList =
  il_count :: u8
  il_items :: "SC_InventoryUpdate list"

record SC_AttendanceInfo =
  ai_todayAttended :: u8
  ai_rewardGold :: u32

record SC_AttendanceResult =
  atr_success :: u8
  atr_rewardGold :: u32

record SC_ShopEntry =
  she_itemId :: u16
  she_itemName :: string
  she_price :: u32

record SC_ShopList =
  shl_count :: u8
  shl_items :: "SC_ShopEntry list"

record CS_ShopBuy =
  sb_itemId :: u16

record SC_ShopResult =
  shr_success :: u8
  shr_itemId :: u16
  shr_remainGold :: u64
  shr_message :: string

record CS_ShopSell =
  ss_slot :: u8

record CS_QuestList =
  cql_npcUid :: u64

record SC_QuestEntry =
  qe_questId :: u16
  qe_name :: string
  qe_status :: u8
  qe_progress :: u16
  qe_target :: u16

record SC_QuestList =
  ql_count :: u8
  ql_quests :: "SC_QuestEntry list"

record CS_QuestAccept =
  qa_questId :: u16

record SC_QuestAcceptResult =
  qar_success :: u8
  qar_questId :: u16
  qar_message :: string

record SC_QuestProgress =
  qpr_questId :: u16
  qpr_progress :: u16
  qpr_target :: u16

record CS_QuestComplete =
  qc_questId :: u16

record SC_QuestReward =
  qr_success :: u8
  qr_questId :: u16
  qr_rewardGold :: u32
  qr_rewardExp :: u32
  qr_rewardItemId :: u16
  qr_message :: string

record CS_PartyInvite =
  cpi_targetName :: string

record SC_PartyInvite =
  spi_inviterName :: string

record CS_PartyAccept =
  pa_accept :: u8

record SC_PartyMember =
  pm_charUid :: u64
  pm_name :: string
  pm_hp :: u16
  pm_maxHp :: u16
  pm_posX :: i16
  pm_posY :: i16

record SC_PartyUpdate =
  pu_memberCount :: u8
  pu_members :: "SC_PartyMember list"

record SC_PartyLeave =
  pl_charUid :: u64

text \<open>Zero-initialised elements of the fixed arrays.\<close>

definition zero_SC_CharListEntry :: SC_CharListEntry where
  "zero_SC_CharListEntry = \<lparr>cle_charUid = 0, cle_name = [], cle_charType = 0, cle_level = 0\<rparr>"

definition zero_SC_InventoryUpdate :: SC_InventoryUpdate where
  "zero_SC_InventoryUpdate = \<lparr>iu_slot = 0, iu_itemId = 0, iu_itemName = []\<rparr>"

definition zero_SC_ShopEntry :: SC_ShopEntry where
  "zero_SC_ShopEntry = \<lparr>she_itemId = 0, she_itemName = [], she_price = 0\<rparr>"

definition zero_SC_QuestEntry :: SC_QuestEntry where
  "zero_SC_QuestEntry = \<lparr>qe_questId = 0, qe_name = [], qe_status = 0, qe_progress = 0, qe_target = 0\<rparr>"

definition zero_SC_PartyMember :: SC_PartyMember where
  "zero_SC_PartyMember = \<lparr>pm_charUid = 0, pm_name = [], pm_hp = 0, pm_maxHp = 0, pm_posX = 0, pm_posY = 0\<rparr>"

subsection \<open>What the server sends\<close>

datatype sc_packet =
    P_LoginResult SC_LoginResult
  | P_CharList SC_CharList
  | P_CharCreateResult SC_CharCreateResult
  | P_CharInfo SC_CharInfo
  | P_CharLeave SC_CharLeave
  | P_AttendanceInfo SC_AttendanceInfo
  | P_AttendanceResult SC_AttendanceResult
  | P_MoveResult SC_MoveResult
  | P_AttackResult SC_AttackResult
  | P_NpcSpawn SC_NpcSpawn
  | P_NpcDeath SC_NpcDeath
  | P_ExpUpdate SC_ExpUpdate
  | P_LevelUp SC_LevelUp
  | P_Chat SC_Chat
  | P_ItemDrop SC_ItemDrop
  | P_ItemUseResult SC_ItemUseResult
  | P_EquipResult SC_EquipResult
  | P_InventoryUpdate SC_InventoryUpdate
  | P_InventoryList SC_InventoryList
  | P_ShopList SC_ShopList
  | P_ShopResult SC_ShopResult
  | P_QuestList SC_QuestList
  | P_QuestAcceptResult SC_QuestAcceptResult
  | P_QuestProgress SC_QuestProgress
  | P_QuestReward SC_QuestReward
  | P_PartyInvite SC_PartyInvite
  | P_PartyUpdate SC_PartyUpdate
  | P_PartyLeave SC_PartyLeave
  | P_Error SC_Error
  | P_Heartbeat

fun sc_type :: "sc_packet \<Rightarrow> PacketType" where
  "sc_type (P_LoginResult x) = SC_LOGIN_RESULT"
| "sc_type (P_CharList x) = SC_CHAR_LIST"
| "sc_type (P_CharCreateResult x) = SC_CHAR_CREATE_RESULT"
| "sc_type (P_CharInfo x) = SC_CHAR_INFO"
| "sc_type (P_CharLeave x) = SC_CHAR_LEAVE"
| "sc_type (P_AttendanceInfo x) = SC_ATTENDANCE_INFO"
| "sc_type (P_AttendanceResult x) = SC_ATTENDANCE_RESULT"
| "sc_type (P_MoveResult x) = SC_MOVE_RESULT"
| "sc_type (P_AttackResult x) = SC_ATTACK_RESULT"
| "sc_type (P_NpcSpawn x) = SC_NPC_SPAWN"
| "sc_type (P_NpcDeath x) = SC_NPC_DEATH"
| "sc_type (P_ExpUpdate x) = SC_EXP_UPDATE"
| "sc_type (P_LevelUp x) = SC_LEVEL_UP"
| "sc_type (P_Chat x) = SC_CHAT"
| "sc_type (P_ItemDrop x) = SC_ITEM_DROP"
| "sc_type (P_ItemUseResult x) = SC_ITEM_USE_RESULT"
| "sc_type (P_EquipResult x) = SC_EQUIP_RESULT"
| "sc_type (P_InventoryUpdate x) = SC_INVENTORY_UPDATE"
| "sc_type (P_InventoryList x) = SC_INVENTORY_LIST"
| "sc_type (P_ShopList x) = SC_SHOP_LIST"
| "sc_type (P_ShopResult x) = SC_SHOP_RESULT"
| "sc_type (P_QuestList x) = SC_QUEST_LIST"
| "sc_type (P_QuestAcceptResult x) = SC_QUEST_ACCEPT_RESULT"
| "sc_type (P_QuestProgress x) = SC_QUEST_PROGRESS"
| "sc_type (P_QuestReward x) = SC_QUEST_REWARD"
| "sc_type (P_PartyInvite x) = SC_PARTY_INVITE"
| "sc_type (P_PartyUpdate x) = SC_PARTY_UPDATE"
| "sc_type (P_PartyLeave x) = SC_PARTY_LEAVE"
| "sc_type (P_Error x) = SC_ERROR"
| "sc_type P_Heartbeat = SC_HEARTBEAT"

subsection \<open>What a client sends\<close>

datatype cs_packet =
    C_Login CS_Login
  | C_CharList
  | C_CharCreate CS_CharCreate
  | C_CharSelect CS_CharSelect
  | C_AttendanceCheck
  | C_Heartbeat
  | C_Move CS_Move
  | C_Attack CS_Attack
  | C_Chat CS_Chat
  | C_ItemUse CS_ItemUse
  | C_ItemEquip CS_ItemEquip
  | C_ShopOpen
  | C_ShopBuy CS_ShopBuy
  | C_ShopSell CS_ShopSell
  | C_QuestList CS_QuestList
  | C_QuestAccept CS_QuestAccept
  | C_QuestComplete CS_QuestComplete
  | C_PartyInvite CS_PartyInvite
  | C_PartyAccept CS_PartyAccept
  | C_PartyLeave

fun cs_type :: "cs_packet \<Rightarrow> PacketType" where
  "cs_type (C_Login x) = CS_LOGIN"
| "cs_type C_CharList = CS_CHAR_LIST"
| "cs_type (C_CharCreate x) = CS_CHAR_CREATE"
| "cs_type (C_CharSelect x) = CS_CHAR_SELECT"
| "cs_type C_AttendanceCheck = CS_ATTENDANCE_CHECK"
| "cs_type C_Heartbeat = CS_HEARTBEAT"
| "cs_type (C_Move x) = CS_MOVE"
| "cs_type (C_Attack x) = CS_ATTACK"
| "cs_type (C_Chat x) = CS_CHAT"
| "cs_type (C_ItemUse x) = CS_ITEM_USE"
| "cs_type (C_ItemEquip x) = CS_ITEM_EQUIP"
| "cs_type C_ShopOpen = CS_SHOP_OPEN"
| "cs_type (C_ShopBuy x) = CS_SHOP_BUY"
| "cs_type (C_ShopSell x) = CS_SHOP_SELL"
| "cs_type (C_QuestList x) = CS_QUEST_LIST"
| "cs_type (C_QuestAccept x) = CS_QUEST_ACCEPT"
| "cs_type (C_QuestComplete x) = CS_QUEST_COMPLETE"
| "cs_type (C_PartyInvite x) = CS_PARTY_INVITE"
| "cs_type (C_PartyAccept x) = CS_PARTY_ACCEPT"
| "cs_type C_PartyLeave = CS_PARTY_LEAVE"

subsection \<open>Packet types are told apart by their codes\<close>

lemma packet_code_inject [simp]: "packet_code a = packet_code b \<longleftrightarrow> a = b"
  by (cases a; cases b; simp)

end
