(* ===== verification/Ordered_Map.thy ===== *)
theory Ordered_Map
  imports Prelude
begin

text \<open>
  \<open>std::map\<close> as the program uses it: an association list in strictly increasing key
  order. \<open>om_put\<close> is \<open>m[k] = v\<close>, \<open>om_erase\<close> is \<open>erase(k)\<close>, the library's
  \<open>map_of\<close> is \<open>find\<close>, and iteration is the list itself. The interface the clients rely
  on is the locale \<open>ordered_store\<close>, interpreted on these operations.
\<close>

type_synonym ('k, 'v) omap = "('k \<times> 'v) list"

fun om_put :: "'k::linorder \<Rightarrow> 'v \<Rightarrow> ('k, 'v) omap \<Rightarrow> ('k, 'v) omap" where
  "om_put k v [] = [(k, v)]"
| "om_put k v ((k', v') # m) =
     (if k < k' then (k, v) # (k', v') # m
      else if k = k' then (k, v) # m
      else (k', v') # om_put k v m)"

definition om_erase :: "'k \<Rightarrow> ('k, 'v) omap \<Rightarrow> ('k, 'v) omap" where
  "om_erase k m = filter (\<lambda>(k', v). k' \<noteq> k) m"

text \<open>\<open>operator[]\<close> creates a missing entry with the default value.\<close>

definition om_ensure :: "'v \<Rightarrow> 'k::linorder \<Rightarrow> ('k, 'v) omap \<Rightarrow> ('k, 'v) omap" where
  "om_ensure d k m = (case map_of m k of None \<Rightarrow> om_put k d m | Some _ \<Rightarrow> m)"

definition om_get :: "'v \<Rightarrow> 'k \<Rightarrow> ('k, 'v) omap \<Rightarrow> 'v" where
  "om_get d k m = (case map_of m k of None \<Rightarrow> d | Some v \<Rightarrow> v)"

definition om_wf :: "('k::linorder, 'v) omap \<Rightarrow> bool" where
  "om_wf m \<longleftrightarrow> sorted_wrt (<) (map fst m)"

lemma map_of_om_put [simp]: "map_of (om_put k v m) = (map_of m)(k \<mapsto> v)"
  by (induction k v m rule: om_put.induct) (auto simp: fun_eq_iff)

lemma map_of_om_erase [simp]: "map_of (om_erase k m) = (map_of m)(k := None)"
  by (induction m) (auto simp: om_erase_def fun_eq_iff)

lemma map_of_om_ensure [simp]:
  "map_of (om_ensure d k m) = (map_of m)(k \<mapsto> om_get d k m)"
  by (auto simp: om_ensure_def om_get_def fun_eq_iff split: option.splits)

lemma set_keys_om_put [simp]: "fst ` set (om_put k v m) = insert k (fst ` set m)"
  by (induction k v m rule: om_put.induct) auto

lemma set_om_put_subset: "set (om_put k v m) \<subseteq> insert (k, v) (set m)"
  by (induction k v m rule: om_put.induct) auto

lemma set_om_erase: "set (om_erase k m) = {p \<in> set m. fst p \<noteq> k}"
  by (auto simp: om_erase_def)

lemma om_wf_Nil [simp]: "om_wf []"
  by (simp add: om_wf_def)

lemma om_wf_put [simp]: "om_wf m \<Longrightarrow> om_wf (om_put k v m)"
proof (induction k v m rule: om_put.induct)
  case (2 k v k' v' m)
  have keys: "(\<forall>x \<in> set (map fst (om_put k v m)). P x) \<longleftrightarrow> P k \<and> (\<forall>x \<in> fst ` set m. P x)" for P
    by simp
  have le: "k' < fst p" if "p \<in> set m" for p
    using 2(2) that by (auto simp: om_wf_def)
  show ?case
  proof (cases "k' < k")
    case True
    then show ?thesis using 2 le by (auto simp: om_wf_def keys simp del: set_map)
  next
    case False
    then show ?thesis using le 2(2) by (auto simp: om_wf_def dest!: le)
  qed
qed (simp add: om_wf_def)

lemma om_wf_erase [simp]: "om_wf m \<Longrightarrow> om_wf (om_erase k m)"
  unfolding om_wf_def om_erase_def
  by (induction m) (auto simp: sorted_wrt_filter)

lemma om_wf_ensure [simp]: "om_wf m \<Longrightarrow> om_wf (om_ensure d k m)"
  by (simp add: om_ensure_def split: option.split)

lemma om_wf_distinct: "om_wf m \<Longrightarrow> distinct (map fst m)"
  unfolding om_wf_def by (induction m) auto

lemma om_wf_lookup: "om_wf m \<Longrightarrow> (k, v) \<in> set m \<longleftrightarrow> map_of m k = Some v"
  by (simp add: om_wf_distinct)

lemma om_get_Some [simp]: "map_of m k = Some v \<Longrightarrow> om_get d k m = v"
  by (simp add: om_get_def)

lemma om_get_None [simp]: "map_of m k = None \<Longrightarrow> om_get d k m = d"
  by (simp add: om_get_def)

lemma om_get_put: "om_get d k (om_put k' v m) = (if k = k' then v else om_get d k m)"
  by (auto simp: om_get_def)

lemma om_get_ensure [simp]: "om_get d k (om_ensure d k' m) = om_get d k m"
  by (auto simp: om_get_def om_ensure_def split: option.splits)

subsection \<open>The interface\<close>

locale ordered_store =
  fixes look :: "'m \<Rightarrow> 'k::linorder \<Rightarrow> 'v option"
    and put :: "'k \<Rightarrow> 'v \<Rightarrow> 'm \<Rightarrow> 'm"
    and del :: "'k \<Rightarrow> 'm \<Rightarrow> 'm"
    and entries :: "'m \<Rightarrow> ('k \<times> 'v) list"
    and wf :: "'m \<Rightarrow> bool"
  assumes look_put: "look (put k v m) = (look m)(k \<mapsto> v)"
    and look_del: "look (del k m) = (look m)(k := None)"
    and wf_put: "wf m \<Longrightarrow> wf (put k v m)"
    and wf_del: "wf m \<Longrightarrow> wf (del k m)"
    and entries_look: "wf m \<Longrightarrow> (k, v) \<in> set (entries m) \<longleftrightarrow> look m k = Some v"
    and entries_sorted: "wf m \<Longrightarrow> sorted_wrt (<) (map fst (entries m))"
begin

lemma look_put_other: "k \<noteq> k' \<Longrightarrow> look (put k v m) k' = look m k'"
  by (simp add: look_put)

lemma look_del_put: "look (del k (put k v m)) = look (del k m)"
  by (simp add: look_put look_del)

lemma entries_key_once: "wf m \<Longrightarrow> (k, v) \<in> set (entries m) \<Longrightarrow> (k, v') \<in> set (entries m) \<Longrightarrow> v = v'"
  by (simp add: entries_look)

lemma entries_put:
  "wf m \<Longrightarrow> set (entries (put k v m)) = insert (k, v) {p \<in> set (entries m). fst p \<noteq> k}"
  by (auto simp: entries_look wf_put look_put split: if_splits)

lemma entries_del:
  "wf m \<Longrightarrow> set (entries (del k m)) = {p \<in> set (entries m). fst p \<noteq> k}"
  by (auto simp: entries_look wf_del look_del split: if_splits)

lemma entries_once_each: "wf m \<Longrightarrow> distinct (map fst (entries m))"
proof -
  have "sorted_wrt (<) xs \<Longrightarrow> distinct xs" for xs :: "'k list" by (induction xs) auto
  then show "wf m \<Longrightarrow> distinct (map fst (entries m))" using entries_sorted by blast
qed

end

interpretation om: ordered_store map_of om_put om_erase "\<lambda>m. m" om_wf
  by unfold_locales (simp_all add: om_wf_lookup, simp add: om_wf_def)

end
