(* ===== verification/Game_Data.thy ===== *)
theory Game_Data
  imports Protocol Ordered_Map
begin

text \<open>
  The static game data of \<open>GameServer/main.cpp\<close> (items, drop table, quests, loaded once
  before the server accepts anyone and never written again), the look-ups on it, and what the
  server gets from outside the repository: the values of \<open>rand()\<close> in the order they are
  drawn, the standard library's string hash, and the result of each database call. They are
  the fields of \<open>env\<close>, an argument of every definition that uses them. A database call maps
  the state of the database to its rows (\<open>None\<close>: \<open>ExecuteProc\<close> did not return 0, and the
  rows were not read) and the new state of the database.
\<close>

definition MAP_SIZE :: nat where
  "MAP_SIZE = 20"

definition MAX_NPC :: nat where
  "MAX_NPC = 5"

definition QUEST_NPC_X :: i16 where
  "QUEST_NPC_X = 2"

definition QUEST_NPC_Y :: i16 where
  "QUEST_NPC_Y = 2"

record ItemData =
  it_id :: u16
  it_name :: string
  it_type :: string
  it_atk :: u16
  it_def :: u16
  it_hp :: u16
  it_price :: u32

record DropEntry =
  de_itemId :: u16
  de_weight :: int

record QuestData =
  qd_id :: u16
  qd_name :: string
  qd_target :: u16
  qd_rewardGold :: u32
  qd_rewardExp :: u32
  qd_rewardItemId :: u16

record 'd db_api =
  spAccountLogin :: "u8 \<Rightarrow> i64 \<Rightarrow> 'd \<Rightarrow> (i64 \<times> i64) list option \<times> 'd"
  spCharacterList :: "u64 \<Rightarrow> 'd \<Rightarrow> (i64 \<times> string \<times> u8 \<times> i32 \<times> i64) list option \<times> 'd"
  spCharacterCreate :: "u64 \<Rightarrow> string \<Rightarrow> u8 \<Rightarrow> 'd \<Rightarrow> i64 list option \<times> 'd"
  spCharacterLogin :: "u64 \<Rightarrow> u64 \<Rightarrow> 'd \<Rightarrow> (i32 \<times> i64 \<times> i64) list option \<times> 'd"
  selectCharName :: "u64 \<Rightarrow> 'd \<Rightarrow> string list option \<times> 'd"
  spAttendanceInfo :: "u64 \<Rightarrow> 'd \<Rightarrow> (u8 \<times> i32) list option \<times> 'd"
  spAttendanceCheck :: "u64 \<Rightarrow> 'd \<Rightarrow> (u8 \<times> i32) list option \<times> 'd"
  spInventoryLoad :: "u64 \<Rightarrow> 'd \<Rightarrow> ((i64 \<times> i64) list \<times> (i16 \<times> i64 \<times> i64) list option) option \<times> 'd"
  spInventoryAdd :: "u64 \<Rightarrow> u16 \<Rightarrow> 'd \<Rightarrow> i64 list option \<times> 'd"
  spInventoryRemove :: "u64 \<Rightarrow> 'd \<Rightarrow> 'd"
  spEquipItem :: "u64 \<Rightarrow> i32 \<Rightarrow> u64 \<Rightarrow> 'd \<Rightarrow> 'd"
  spUnequipItem :: "u64 \<Rightarrow> i32 \<Rightarrow> 'd \<Rightarrow> 'd"
  spQuestLoad :: "u64 \<Rightarrow> 'd \<Rightarrow> (i32 \<times> u8 \<times> i32) list option \<times> 'd"
  spQuestSave :: "u64 \<Rightarrow> u16 \<Rightarrow> u8 \<Rightarrow> u16 \<Rightarrow> 'd \<Rightarrow> 'd"

record 'd env =
  g_items :: "ItemData list"
  g_dropTable :: "DropEntry list"
  g_totalWeight :: int
  g_quests :: "QuestData list"
  rand_value :: "nat \<Rightarrow> nat"
  hash_string :: "string \<Rightarrow> u64"
  dbConn :: "'d db_api"

subsection \<open>Look-ups\<close>

definition FindItem :: "'d env \<Rightarrow> u16 \<Rightarrow> ItemData option" where
  "FindItem E tid = find (\<lambda>item. it_id item = tid) (g_items E)"

definition FindQuest :: "'d env \<Rightarrow> u16 \<Rightarrow> QuestData option" where
  "FindQuest E tid = find (\<lambda>q. qd_id q = tid) (g_quests E)"

lemma FindItem_Some:
  "FindItem E tid = Some item \<Longrightarrow> item \<in> set (g_items E) \<and> it_id item = tid"
  by (auto simp: FindItem_def find_Some_iff)

lemma FindQuest_Some: "FindQuest E tid = Some q \<Longrightarrow> q \<in> set (g_quests E) \<and> qd_id q = tid"
  by (auto simp: FindQuest_def find_Some_iff)

lemma FindItem_None: "FindItem E tid = None \<longleftrightarrow> (\<forall>item \<in> set (g_items E). it_id item \<noteq> tid)"
  by (auto simp: FindItem_def find_None_iff)

subsection \<open>The drop roll\<close>

text \<open>The accumulation loop of \<open>RollDrop\<close>, from the weight accumulated so far.\<close>

fun roll_from :: "int \<Rightarrow> int \<Rightarrow> DropEntry list \<Rightarrow> u16" where
  "roll_from roll acc [] = 0"
| "roll_from roll acc (de # des) =
     (if roll < acc + de_weight de then de_itemId de else roll_from roll (acc + de_weight de) des)"

text \<open>
  \<open>rand() % g_totalWeight\<close> truncates towards zero; a zero weight divides by zero. The
  number of values drawn is returned with the item.
\<close>

definition RollDrop :: "'d env \<Rightarrow> nat \<Rightarrow> (u16 \<times> nat) result" where
  "RollDrop E ix =
     (if g_dropTable E = [] then Inr (0, ix)
      else if g_totalWeight E = 0 then Inl DivideByZero
      else Inr (roll_from (int (rand_value E ix) mod \<bar>g_totalWeight E\<bar>) 0 (g_dropTable E), Suc ix))"

definition total_weight :: "DropEntry list \<Rightarrow> int" where
  "total_weight des = sum_list (map de_weight des)"

text \<open>The data as \<open>LoadItems\<close> leaves it, with positive weights.\<close>

definition drop_table_ok :: "'d env \<Rightarrow> bool" where
  "drop_table_ok E \<longleftrightarrow> g_totalWeight E = total_weight (g_dropTable E) \<and>
     (\<forall>de \<in> set (g_dropTable E). 0 < de_weight de)"

lemma total_weight_pos:
  "\<forall>de \<in> set des. 0 < de_weight de \<Longrightarrow> des \<noteq> [] \<Longrightarrow> 0 < total_weight des"
  unfolding total_weight_def by (induction des) (fastforce simp: neq_Nil_conv)+

lemma roll_from_in:
  assumes "acc \<le> roll" and "roll < acc + total_weight des"
  shows "roll_from roll acc des \<in> de_itemId ` set des"
  using assms by (induction des arbitrary: acc) (auto simp: total_weight_def)

text \<open>
  An item is chosen by the part of the weight line the roll falls in: entry \<open>i\<close> exactly when
  the roll is in the half-open segment of its weight.
\<close>

lemma roll_from_segment:
  assumes "\<forall>de \<in> set des. 0 < de_weight de" and "i < length des"
    and "acc + total_weight (take i des) \<le> roll"
    and "roll < acc + total_weight (take (Suc i) des)"
  shows "roll_from roll acc des = de_itemId (des ! i)"
  using assms
proof (induction des arbitrary: acc i)
  case (Cons de des)
  show ?case
  proof (cases i)
    case 0
    with Cons.prems show ?thesis by (simp add: total_weight_def)
  next
    case (Suc j)
    have "0 \<le> total_weight (take j des)"
      using Cons.prems(1) unfolding total_weight_def
      by (intro sum_list_nonneg) (auto dest: in_set_takeD intro: less_imp_le)
    then have "\<not> roll < acc + de_weight de"
      using Cons.prems(3) Suc by (simp add: total_weight_def)
    then show ?thesis
      using Cons.IH [of j "acc + de_weight de"] Cons.prems Suc
      by (simp add: total_weight_def add.assoc)
  qed
qed simp

lemma RollDrop_ok:
  assumes "drop_table_ok E" and "g_dropTable E \<noteq> []"
  shows "\<exists>tid. RollDrop E ix = Inr (tid, Suc ix) \<and> tid \<in> de_itemId ` set (g_dropTable E)"
proof -
  have pos: "0 < g_totalWeight E"
    using assms total_weight_pos by (auto simp: drop_table_ok_def)
  then have "int (rand_value E ix) mod g_totalWeight E < 0 + total_weight (g_dropTable E)"
    using assms(1) by (simp add: drop_table_ok_def)
  from roll_from_in [OF _ this] pos assms(2) show ?thesis by (simp add: RollDrop_def)
qed

lemma RollDrop_no_crash: "drop_table_ok E \<Longrightarrow> \<exists>tid ix'. RollDrop E ix = Inr (tid, ix')"
  using RollDrop_ok [of E ix] by (cases "g_dropTable E = []") (auto simp: RollDrop_def)

lemma RollDrop_crash_iff:
  "(\<exists>c. RollDrop E ix = Inl c) \<longleftrightarrow> g_dropTable E \<noteq> [] \<and> g_totalWeight E = 0"
  by (auto simp: RollDrop_def)

end
