(* ===== verification/Server_State.thy ===== *)
theory Server_State
  imports Game_Data
begin

text \<open>
  The state of the server process: the globals of \<open>GameServer/main.cpp\<close> and the session map
  of \<open>GameServer/SessionManager.*\<close>, the \<open>PlayerData\<close> of \<open>Session.h\<close>, and the
  operations every handler is made of: finding a session, sending to one, broadcasting, and
  writing the player record of one. What was sent is the field \<open>w_out\<close>, in order: one pair
  of a session and a packet per call of \<open>async_write\<close>.
\<close>

subsection \<open>Player and session\<close>

record PlayerData =
  p_name :: string
  p_posX :: i16
  p_posY :: i16
  p_level :: u16
  p_hp :: u16
  p_maxHp :: u16
  p_atk :: u16
  p_def :: u16
  p_exp :: u64
  p_maxExp :: u32
  p_gold :: u64
  p_accountUid :: u64
  p_charUid :: u64
  p_loggedIn :: bool

definition new_player :: PlayerData where
  "new_player = \<lparr>p_name = [], p_posX = 10, p_posY = 10, p_level = 1, p_hp = 100, p_maxHp = 100,
     p_atk = 15, p_def = 5, p_exp = 0, p_maxExp = 100, p_gold = 0, p_accountUid = 0,
     p_charUid = 0, p_loggedIn = False\<rparr>"

record Session =
  s_player :: PlayerData
  s_connected :: bool
  s_recvBuffer :: "u8 list"
  s_recvSize :: nat

definition new_session :: Session where
  "new_session = \<lparr>s_player = new_player, s_connected = True,
     s_recvBuffer = replicate MAX_RECV_BUFFER_SIZE 0, s_recvSize = 0\<rparr>"

subsection \<open>NPCs, inventories, quests, parties\<close>

record NPC =
  n_uid :: u64
  n_posX :: i16
  n_posY :: i16
  n_hp :: u16
  n_maxHp :: u16
  n_atk :: u16
  n_def :: u16
  n_expReward :: u32
  n_goldReward :: u32
  n_alive :: bool

record InvSlot =
  sl_itemUid :: u64
  sl_itemTid :: u16

definition empty_slot :: InvSlot where
  "empty_slot = \<lparr>sl_itemUid = 0, sl_itemTid = 0\<rparr>"

record Inventory =
  inv_slots :: "InvSlot list"
  inv_weaponUid :: u64
  inv_armorUid :: u64
  inv_weaponTid :: u16
  inv_armorTid :: u16

definition new_inventory :: Inventory where
  "new_inventory = \<lparr>inv_slots = replicate MAX_INVENTORY empty_slot, inv_weaponUid = 0,
     inv_armorUid = 0, inv_weaponTid = 0, inv_armorTid = 0\<rparr>"

record QuestProgress =
  qs_status :: u8
  qs_progress :: u16

definition new_progress :: QuestProgress where
  "new_progress = \<lparr>qs_status = 0, qs_progress = 0\<rparr>"

record Party =
  pt_id :: u32
  pt_members :: "SessionId list"

definition new_party :: Party where
  "new_party = \<lparr>pt_id = 0, pt_members = []\<rparr>"

subsection \<open>The world\<close>

record 'd world =
  w_sessions :: "(SessionId, Session) omap"
  w_nextSessionId :: SessionId
  w_npcs :: "NPC list"
  w_nextNpcUid :: u64
  w_questProgress :: "(SessionId, (u16, QuestProgress) omap) omap"
  w_nextPartyId :: u32
  w_parties :: "(u32, Party) omap"
  w_playerParty :: "(SessionId, u32) omap"
  w_pendingInvites :: "(SessionId, SessionId) omap"
  w_inventories :: "(SessionId, Inventory) omap"
  w_rand :: nat
  w_db :: 'd
  w_out :: "(SessionId \<times> sc_packet) list"

subsection \<open>The session manager\<close>

definition AddSession :: "SessionId \<Rightarrow> Session \<Rightarrow> 'd world \<Rightarrow> 'd world" where
  "AddSession sid s w = w\<lparr>w_sessions := om_put sid s (w_sessions w)\<rparr>"

definition RemoveSession :: "SessionId \<Rightarrow> 'd world \<Rightarrow> 'd world" where
  "RemoveSession sid w = w\<lparr>w_sessions := om_erase sid (w_sessions w)\<rparr>"

definition GetSession :: "'d world \<Rightarrow> SessionId \<Rightarrow> Session option" where
  "GetSession w sid = map_of (w_sessions w) sid"

definition GetSessionCount :: "'d world \<Rightarrow> nat" where
  "GetSessionCount w = length (w_sessions w)"

text \<open>\<open>Session::Send\<close> on a session object: nothing once the connection is down.\<close>

definition session_send :: "SessionId \<Rightarrow> Session \<Rightarrow> sc_packet \<Rightarrow> (SessionId \<times> sc_packet) list" where
  "session_send sid s p = (if s_connected s then [(sid, p)] else [])"

definition Send :: "SessionId \<Rightarrow> sc_packet \<Rightarrow> 'd world \<Rightarrow> 'd world" where
  "Send sid p w = (case GetSession w sid of
     None \<Rightarrow> w | Some s \<Rightarrow> w\<lparr>w_out := w_out w @ session_send sid s p\<rparr>)"

definition Broadcast :: "sc_packet \<Rightarrow> 'd world \<Rightarrow> 'd world" where
  "Broadcast p w = w\<lparr>w_out := w_out w @ concat (map (\<lambda>(sid, s).
     if p_loggedIn (s_player s) then session_send sid s p else []) (w_sessions w))\<rparr>"

definition BroadcastExcept :: "SessionId \<Rightarrow> sc_packet \<Rightarrow> 'd world \<Rightarrow> 'd world" where
  "BroadcastExcept exceptId p w = w\<lparr>w_out := w_out w @ concat (map (\<lambda>(sid, s).
     if sid \<noteq> exceptId \<and> p_loggedIn (s_player s) then session_send sid s p else []) (w_sessions w))\<rparr>"

definition ForEach :: "(SessionId \<Rightarrow> Session \<Rightarrow> 'd world \<Rightarrow> 'd world) \<Rightarrow> 'd world \<Rightarrow> 'd world" where
  "ForEach func w = fold (\<lambda>(sid, s). func sid s) (w_sessions w) w"

subsection \<open>The player of a session\<close>

definition live :: "'d world \<Rightarrow> SessionId \<Rightarrow> bool" where
  "live w sid \<longleftrightarrow> GetSession w sid \<noteq> None"

definition GetPlayer :: "'d world \<Rightarrow> SessionId \<Rightarrow> PlayerData" where
  "GetPlayer w sid = (case GetSession w sid of None \<Rightarrow> new_player | Some s \<Rightarrow> s_player s)"

definition upd_player :: "SessionId \<Rightarrow> (PlayerData \<Rightarrow> PlayerData) \<Rightarrow> 'd world \<Rightarrow> 'd world" where
  "upd_player sid f w = (case GetSession w sid of
     None \<Rightarrow> w
   | Some s \<Rightarrow> w\<lparr>w_sessions := om_put sid (s\<lparr>s_player := f (s_player s)\<rparr>) (w_sessions w)\<rparr>)"

text \<open>\<open>rand()\<close>: the next value.\<close>

definition draw :: "'d env \<Rightarrow> 'd world \<Rightarrow> nat \<times> 'd world" where
  "draw E w = (rand_value E (w_rand w), w\<lparr>w_rand := Suc (w_rand w)\<rparr>)"

subsection \<open>Frames\<close>

lemma Send_frame [simp, frame]:
  "w_sessions (Send sid p w) = w_sessions w" "w_nextSessionId (Send sid p w) = w_nextSessionId w"
  "w_npcs (Send sid p w) = w_npcs w" "w_nextNpcUid (Send sid p w) = w_nextNpcUid w"
  "w_questProgress (Send sid p w) = w_questProgress w"
  "w_nextPartyId (Send sid p w) = w_nextPartyId w" "w_parties (Send sid p w) = w_parties w"
  "w_playerParty (Send sid p w) = w_playerParty w"
  "w_pendingInvites (Send sid p w) = w_pendingInvites w"
  "w_inventories (Send sid p w) = w_inventories w" "w_rand (Send sid p w) = w_rand w"
  "w_db (Send sid p w) = w_db w"
  by (simp_all add: Send_def split: option.split)

lemma Broadcast_frame [simp, frame]:
  "w_sessions (Broadcast p w) = w_sessions w" "w_nextSessionId (Broadcast p w) = w_nextSessionId w"
  "w_npcs (Broadcast p w) = w_npcs w" "w_nextNpcUid (Broadcast p w) = w_nextNpcUid w"
  "w_questProgress (Broadcast p w) = w_questProgress w"
  "w_nextPartyId (Broadcast p w) = w_nextPartyId w" "w_parties (Broadcast p w) = w_parties w"
  "w_playerParty (Broadcast p w) = w_playerParty w"
  "w_pendingInvites (Broadcast p w) = w_pendingInvites w"
  "w_inventories (Broadcast p w) = w_inventories w" "w_rand (Broadcast p w) = w_rand w"
  "w_db (Broadcast p w) = w_db w"
  by (simp_all add: Broadcast_def)

lemma BroadcastExcept_frame [simp, frame]:
  "w_sessions (BroadcastExcept i p w) = w_sessions w"
  "w_nextSessionId (BroadcastExcept i p w) = w_nextSessionId w"
  "w_npcs (BroadcastExcept i p w) = w_npcs w" "w_nextNpcUid (BroadcastExcept i p w) = w_nextNpcUid w"
  "w_questProgress (BroadcastExcept i p w) = w_questProgress w"
  "w_nextPartyId (BroadcastExcept i p w) = w_nextPartyId w"
  "w_parties (BroadcastExcept i p w) = w_parties w"
  "w_playerParty (BroadcastExcept i p w) = w_playerParty w"
  "w_pendingInvites (BroadcastExcept i p w) = w_pendingInvites w"
  "w_inventories (BroadcastExcept i p w) = w_inventories w" "w_rand (BroadcastExcept i p w) = w_rand w"
  "w_db (BroadcastExcept i p w) = w_db w"
  by (simp_all add: BroadcastExcept_def)

lemma upd_player_frame [simp, frame]:
  "w_nextSessionId (upd_player sid f w) = w_nextSessionId w"
  "w_npcs (upd_player sid f w) = w_npcs w" "w_nextNpcUid (upd_player sid f w) = w_nextNpcUid w"
  "w_questProgress (upd_player sid f w) = w_questProgress w"
  "w_nextPartyId (upd_player sid f w) = w_nextPartyId w" "w_parties (upd_player sid f w) = w_parties w"
  "w_playerParty (upd_player sid f w) = w_playerParty w"
  "w_pendingInvites (upd_player sid f w) = w_pendingInvites w"
  "w_inventories (upd_player sid f w) = w_inventories w" "w_rand (upd_player sid f w) = w_rand w"
  "w_db (upd_player sid f w) = w_db w" "w_out (upd_player sid f w) = w_out w"
  by (simp_all add: upd_player_def split: option.split)

lemma GetSession_upd_player:
  "GetSession (upd_player sid f w) i =
     (if i = sid then map_option (\<lambda>s. s\<lparr>s_player := f (s_player s)\<rparr>) (GetSession w i)
      else GetSession w i)"
  by (simp add: upd_player_def GetSession_def split: option.split)

lemma live_upd_player [simp]: "live (upd_player sid f w) i \<longleftrightarrow> live w i"
  by (simp add: live_def GetSession_upd_player)

lemma GetPlayer_upd_player:
  "GetPlayer (upd_player sid f w) i =
     (if i = sid \<and> live w sid then f (GetPlayer w sid) else GetPlayer w i)"
  by (auto simp: GetPlayer_def GetSession_upd_player live_def split: option.split)

text \<open>What depends on the session map alone is the same after a send.\<close>

lemma sessions_cong:
  "w_sessions w = w_sessions w' \<Longrightarrow> GetSession w = GetSession w'"
  "w_sessions w = w_sessions w' \<Longrightarrow> GetPlayer w = GetPlayer w'"
  "w_sessions w = w_sessions w' \<Longrightarrow> live w = live w'"
  by (auto simp: GetSession_def GetPlayer_def live_def fun_eq_iff)

lemma GetPlayer_frame [simp]:
  "GetPlayer (Send sid p w) = GetPlayer w" "GetPlayer (Broadcast p w) = GetPlayer w"
  "GetPlayer (BroadcastExcept i p w) = GetPlayer w"
  "live (Send sid p w) = live w" "live (Broadcast p w) = live w"
  "live (BroadcastExcept i p w) = live w"
  "GetSession (Send sid p w) = GetSession w" "GetSession (Broadcast p w) = GetSession w"
  "GetSession (BroadcastExcept i p w) = GetSession w"
  by (rule sessions_cong, simp)+

lemma sessions_update [simp]:
  "GetPlayer (w\<lparr>w_npcs := a\<rparr>) = GetPlayer w" "live (w\<lparr>w_npcs := a\<rparr>) = live w"
  "GetPlayer (w\<lparr>w_nextNpcUid := b\<rparr>) = GetPlayer w" "live (w\<lparr>w_nextNpcUid := b\<rparr>) = live w"
  "GetPlayer (w\<lparr>w_questProgress := c\<rparr>) = GetPlayer w" "live (w\<lparr>w_questProgress := c\<rparr>) = live w"
  "GetPlayer (w\<lparr>w_nextPartyId := d\<rparr>) = GetPlayer w" "live (w\<lparr>w_nextPartyId := d\<rparr>) = live w"
  "GetPlayer (w\<lparr>w_parties := e\<rparr>) = GetPlayer w" "live (w\<lparr>w_parties := e\<rparr>) = live w"
  "GetPlayer (w\<lparr>w_playerParty := f\<rparr>) = GetPlayer w" "live (w\<lparr>w_playerParty := f\<rparr>) = live w"
  "GetPlayer (w\<lparr>w_pendingInvites := g\<rparr>) = GetPlayer w" "live (w\<lparr>w_pendingInvites := g\<rparr>) = live w"
  "GetPlayer (w\<lparr>w_inventories := h\<rparr>) = GetPlayer w" "live (w\<lparr>w_inventories := h\<rparr>) = live w"
  "GetPlayer (w\<lparr>w_rand := i\<rparr>) = GetPlayer w" "live (w\<lparr>w_rand := i\<rparr>) = live w"
  "GetPlayer (w\<lparr>w_db := j\<rparr>) = GetPlayer w" "live (w\<lparr>w_db := j\<rparr>) = live w"
  "GetPlayer (w\<lparr>w_out := l\<rparr>) = GetPlayer w" "live (w\<lparr>w_out := l\<rparr>) = live w"
  by (rule sessions_cong, simp)+

lemma w_out_Send:
  "w_out (Send sid p w) = w_out w @
     (case GetSession w sid of None \<Rightarrow> [] | Some s \<Rightarrow> session_send sid s p)"
  by (simp add: Send_def split: option.split)

text \<open>
  The session map stays well formed, and no operation on players adds or drops a session.
\<close>

lemma om_wf_upd_player [simp]: "om_wf (w_sessions w) \<Longrightarrow> om_wf (w_sessions (upd_player sid f w))"
  by (simp add: upd_player_def split: option.split)

subsection \<open>Who hears a broadcast\<close>

lemma w_out_Broadcast:
  "w_out (Broadcast p w) = w_out w @ map (\<lambda>(sid, s). (sid, p))
     (filter (\<lambda>(sid, s). p_loggedIn (s_player s) \<and> s_connected s) (w_sessions w))"
proof -
  have "concat (map (\<lambda>(sid, s). if p_loggedIn (s_player s) then session_send sid s p else []) xs) =
      map (\<lambda>(sid, s). (sid, p)) (filter (\<lambda>(sid, s). p_loggedIn (s_player s) \<and> s_connected s) xs)"
    for xs :: "(SessionId, Session) omap"
    by (induction xs) (auto simp: session_send_def split: if_splits)
  then show ?thesis by (simp add: Broadcast_def)
qed

lemma w_out_BroadcastExcept:
  "w_out (BroadcastExcept i p w) = w_out w @ map (\<lambda>(sid, s). (sid, p))
     (filter (\<lambda>(sid, s). sid \<noteq> i \<and> p_loggedIn (s_player s) \<and> s_connected s) (w_sessions w))"
proof -
  have "concat (map (\<lambda>(sid, s). if sid \<noteq> i \<and> p_loggedIn (s_player s) then session_send sid s p else []) xs) =
      map (\<lambda>(sid, s). (sid, p))
        (filter (\<lambda>(sid, s). sid \<noteq> i \<and> p_loggedIn (s_player s) \<and> s_connected s) xs)"
    for xs :: "(SessionId, Session) omap"
    by (induction xs) (auto simp: session_send_def split: if_splits)
  then show ?thesis by (simp add: BroadcastExcept_def)
qed

end
