(* ===== verification/Sample.thy ===== *)
theory Sample
  imports Server_State
begin

text \<open>
  A concrete server, for evaluating the properties at: the items, drop table and quests of
  \<open>data/items.json\<close> and \<open>data/quests.json\<close>, a database that answers every call from a
  counter, and a world with two players next to the quest NPC, five NPCs and some items.
\<close>

definition sample_db :: "nat db_api" where
  "sample_db = \<lparr>
     spAccountLogin = (\<lambda>channelType channelId n. (Some [(channelId, 0)], n)),
     spCharacterList = (\<lambda>accountUid n. (Some [(100, ''Alice'', 1, 3, 0), (101, ''Bob'', 2, 1, 0)], n)),
     spCharacterCreate = (\<lambda>accountUid name charType n. (Some [word_of_nat n], Suc n)),
     spCharacterLogin = (\<lambda>accountUid charUid n. (Some [(3, 20, 500)], n)),
     selectCharName = (\<lambda>charUid n. (Some [''Alice''], n)),
     spAttendanceInfo = (\<lambda>charUid n. (Some [(0, 100)], n)),
     spAttendanceCheck = (\<lambda>charUid n. (Some [(1, 100)], n)),
     spInventoryLoad = (\<lambda>charUid n. (Some ([(11, 1), (12, 5)], Some [(0, 13, 2)]), n)),
     spInventoryAdd = (\<lambda>charUid itemTid n. (Some [word_of_nat n], Suc n)),
     spInventoryRemove = (\<lambda>itemUid n. n),
     spEquipItem = (\<lambda>charUid slot itemUid n. n),
     spUnequipItem = (\<lambda>charUid slot n. n),
     spQuestLoad = (\<lambda>charUid n. (Some [(1, 1, 2)], n)),
     spQuestSave = (\<lambda>charUid questId status progress n. n)\<rparr>"

definition sample_item :: "u16 \<Rightarrow> string \<Rightarrow> string \<Rightarrow> u16 \<Rightarrow> u16 \<Rightarrow> u16 \<Rightarrow> u32 \<Rightarrow> ItemData" where
  "sample_item tid name type atk armor hp price = \<lparr>it_id = tid, it_name = name, it_type = type,
     it_atk = atk, it_def = armor, it_hp = hp, it_price = price\<rparr>"

definition sample_quest :: "u16 \<Rightarrow> string \<Rightarrow> u16 \<Rightarrow> u32 \<Rightarrow> u32 \<Rightarrow> u16 \<Rightarrow> QuestData" where
  "sample_quest q name target gold xp item = \<lparr>qd_id = q, qd_name = name, qd_target = target,
     qd_rewardGold = gold, qd_rewardExp = xp, qd_rewardItemId = item\<rparr>"

definition sample_env :: "nat env" where
  "sample_env = \<lparr>
     g_items = [sample_item 1 ''Rusty Sword'' ''weapon'' 5 0 0 50,
                sample_item 2 ''Steel Sword'' ''weapon'' 12 0 0 200,
                sample_item 3 ''Leather Armor'' ''armor'' 0 5 0 80,
                sample_item 4 ''Iron Armor'' ''armor'' 0 10 0 300,
                sample_item 5 ''HP Potion'' ''consumable'' 0 0 50 30],
     g_dropTable = [\<lparr>de_itemId = 1, de_weight = 20\<rparr>, \<lparr>de_itemId = 3, de_weight = 20\<rparr>,
                    \<lparr>de_itemId = 5, de_weight = 40\<rparr>],
     g_totalWeight = 80,
     g_quests = [sample_quest 1 ''Goblin Slayer'' 3 100 50 0,
                 sample_quest 2 ''Monster Hunter'' 5 200 100 5,
                 sample_quest 3 ''Champion'' 10 500 300 2],
     rand_value = (\<lambda>n. 7 * n),
     hash_string = (\<lambda>s. word_of_nat (length s)),
     dbConn = sample_db\<rparr>"

definition sample_player :: "string \<Rightarrow> u64 \<Rightarrow> PlayerData" where
  "sample_player name charUid = new_player\<lparr>p_name := name, p_posX := 3, p_posY := 3, p_hp := 40,
     p_gold := 500, p_exp := 90, p_accountUid := charUid + 1000, p_charUid := charUid, p_loggedIn := True\<rparr>"

definition sample_session :: "string \<Rightarrow> u64 \<Rightarrow> Session" where
  "sample_session name charUid = new_session\<lparr>s_player := sample_player name charUid\<rparr>"

definition sample_npc :: "u64 \<Rightarrow> i16 \<Rightarrow> u16 \<Rightarrow> NPC" where
  "sample_npc uid y hp = \<lparr>n_uid = uid, n_posX = 4, n_posY = y, n_hp = hp, n_maxHp = 30, n_atk = 5,
     n_def = 2, n_expReward = 30, n_goldReward = 10, n_alive = True\<rparr>"

definition sample_slots :: "InvSlot list" where
  "sample_slots = [\<lparr>sl_itemUid = 11, sl_itemTid = 1\<rparr>, \<lparr>sl_itemUid = 12, sl_itemTid = 5\<rparr>]
     @ replicate 18 empty_slot"

definition sample_inventory :: Inventory where
  "sample_inventory = new_inventory\<lparr>inv_slots := sample_slots, inv_weaponUid := 13, inv_weaponTid := 2\<rparr>"

definition sample_world :: "nat world" where
  "sample_world = \<lparr>
     w_sessions = [(1, sample_session ''Alice'' 100), (2, sample_session ''Bob'' 101)],
     w_nextSessionId = 3,
     w_npcs = [sample_npc 1 3 10, sample_npc 2 5 30, sample_npc 3 6 30, sample_npc 4 7 30, sample_npc 5 8 30],
     w_nextNpcUid = 6,
     w_questProgress = [(1, [(1, \<lparr>qs_status = 2, qs_progress = 3\<rparr>), (2, \<lparr>qs_status = 1, qs_progress = 4\<rparr>)])],
     w_nextPartyId = 1,
     w_parties = [],
     w_playerParty = [],
     w_pendingInvites = [(2, 1)],
     w_inventories = [(1, sample_inventory)],
     w_rand = 0,
     w_db = 50,
     w_out = []\<rparr>"

text \<open>The two players in a party.\<close>

definition sample_party :: "nat world" where
  "sample_party = sample_world\<lparr>w_nextPartyId := 2, w_parties := [(1, \<lparr>pt_id = 1, pt_members = [1, 2]\<rparr>)],
     w_playerParty := [(1, 1), (2, 1)], w_pendingInvites := []\<rparr>"

lemma sample_sessions [simp]:
  "GetSession sample_world 1 = Some (sample_session ''Alice'' 100)"
  "GetSession sample_world 2 = Some (sample_session ''Bob'' 101)"
  "GetSession sample_party = GetSession sample_world"
  by (simp_all add: GetSession_def sample_world_def sample_party_def fun_eq_iff)

lemma sample_players [simp]:
  "GetPlayer sample_world 1 = sample_player ''Alice'' 100" "GetPlayer sample_world 2 = sample_player ''Bob'' 101"
  "live sample_world 1" "live sample_world 2"
  "GetPlayer sample_party = GetPlayer sample_world" "live sample_party = live sample_world"
  by (simp_all add: GetPlayer_def live_def sample_session_def fun_eq_iff)

lemma sample_items [simp]:
  "FindItem sample_env 1 = Some (sample_item 1 ''Rusty Sword'' ''weapon'' 5 0 0 50)"
  "FindItem sample_env 2 = Some (sample_item 2 ''Steel Sword'' ''weapon'' 12 0 0 200)"
  "FindItem sample_env 3 = Some (sample_item 3 ''Leather Armor'' ''armor'' 0 5 0 80)"
  "FindItem sample_env 5 = Some (sample_item 5 ''HP Potion'' ''consumable'' 0 0 50 30)"
  by (simp_all add: FindItem_def sample_env_def sample_item_def)

lemma sample_quests [simp]:
  "FindQuest sample_env 1 = Some (sample_quest 1 ''Goblin Slayer'' 3 100 50 0)"
  "FindQuest sample_env 2 = Some (sample_quest 2 ''Monster Hunter'' 5 200 100 5)"
  by (simp_all add: FindQuest_def sample_env_def sample_quest_def)

lemma sample_drops: "drop_table_ok sample_env"
  by (simp add: drop_table_ok_def total_weight_def sample_env_def)

end
