(* ===== verification/Player.thy ===== *)
theory Player
  imports Sample
begin

text \<open>
  The player's own state in \<open>GameServer/main.cpp\<close>: what the server tells of a player
  (\<open>SendCharInfo\<close>, \<open>SendOtherPlayers\<close>), movement on the map (\<open>OnMove\<close>) and the
  level-up loop (\<open>CheckLevelUp\<close>), whose termination is proved although the 16-bit level
  can wrap to 0 and make the next threshold 0.
\<close>

subsection \<open>Character information\<close>

text \<open>\<open>SendCharInfo\<close> leaves the name empty and truncates the experience to 32 bits.\<close>

definition own_char_info :: "PlayerData \<Rightarrow> SC_CharInfo" where
  "own_char_info p = \<lparr>ci_charUid = p_accountUid p, ci_name = [], ci_level = p_level p,
     ci_exp = ucast (p_exp p), ci_posX = p_posX p, ci_posY = p_posY p, ci_hp = p_hp p,
     ci_maxHp = p_maxHp p, ci_gold = p_gold p\<rparr>"

text \<open>What the others are told: no experience, no gold.\<close>

definition public_char_info :: "PlayerData \<Rightarrow> SC_CharInfo" where
  "public_char_info p = \<lparr>ci_charUid = p_accountUid p, ci_name = ncopy 31 (p_name p),
     ci_level = p_level p, ci_exp = 0, ci_posX = p_posX p, ci_posY = p_posY p, ci_hp = p_hp p,
     ci_maxHp = p_maxHp p, ci_gold = 0\<rparr>"

definition SendCharInfo :: "SessionId \<Rightarrow> 'd world \<Rightarrow> 'd world" where
  "SendCharInfo sid w = Send sid (P_CharInfo (own_char_info (GetPlayer w sid))) w"

definition SendOtherPlayers :: "SessionId \<Rightarrow> 'd world \<Rightarrow> 'd world" where
  "SendOtherPlayers sid w =
     (let w1 = ForEach (\<lambda>oid other w.
            if oid \<noteq> sid \<and> p_loggedIn (s_player other)
            then Send sid (P_CharInfo (public_char_info (s_player other))) w else w) w
      in BroadcastExcept sid (P_CharInfo (public_char_info (GetPlayer w1 sid))) w1)"

subsection \<open>Movement\<close>

definition in_map :: "i16 \<Rightarrow> bool" where
  "in_map x \<longleftrightarrow> 0 \<le> sint x \<and> sint x < int MAP_SIZE"

definition on_map :: "PlayerData \<Rightarrow> bool" where
  "on_map p \<longleftrightarrow> in_map (p_posX p) \<and> in_map (p_posY p)"

definition OnMove :: "SessionId \<Rightarrow> CS_Move \<Rightarrow> 'd world \<Rightarrow> 'd world" where
  "OnMove sid move w =
     (let player = GetPlayer w sid;
          newX = p_posX player + scast (mv_dirX move);
          newY = p_posY player + scast (mv_dirY move);
          w1 = (if in_map newX \<and> in_map newY
                then upd_player sid (\<lambda>p. p\<lparr>p_posX := newX, p_posY := newY\<rparr>) w else w);
          player1 = GetPlayer w1 sid;
          w2 = Send sid (P_MoveResult \<lparr>mr_success = 1, mr_posX = p_posX player1,
                 mr_posY = p_posY player1\<rparr>) w1
      in BroadcastExcept sid (P_CharInfo (public_char_info player1)) w2)"

subsection \<open>Levels\<close>

text \<open>One turn of the loop of \<open>CheckLevelUp\<close>, and what is sent after it.\<close>

definition level_step :: "PlayerData \<Rightarrow> PlayerData" where
  "level_step p =
     (let newLevel = p_level p + 1; newMaxHp = p_maxHp p + 20
      in p\<lparr>p_exp := p_exp p - ucast (p_maxExp p), p_level := newLevel, p_maxHp := newMaxHp,
           p_hp := newMaxHp, p_atk := p_atk p + 3, p_def := p_def p + 2,
           p_maxExp := ucast newLevel * 100\<rparr>)"

definition level_up_packet :: "PlayerData \<Rightarrow> SC_LevelUp" where
  "level_up_packet p = \<lparr>lu_level = p_level p, lu_hp = p_hp p, lu_maxHp = p_maxHp p,
     lu_atk = p_atk p, lu_def = p_def p\<rparr>"

text \<open>
  What decreases: the experience, and where a zero threshold leaves it alone, the distance to
  the next threshold that is not zero (at most two turns away: level 65535 wraps to 0).
\<close>

definition level_rank :: "PlayerData \<Rightarrow> nat" where
  "level_rank p = 3 * unat (p_exp p) +
     (if p_maxExp p = 0 then (if p_level p = - 1 then 2 else 1) else 0)"

lemma hundred_times_zero: "ucast (l :: u16) * 100 = (0 :: u32) \<longleftrightarrow> l = 0"
proof
  assume "ucast l * 100 = (0 :: u32)"
  then have "unat (ucast l * 100 :: u32) = 0" by simp
  moreover have "unat l < 65536" using unsigned_less [of l, where 'a = nat] by simp
  ultimately have "unat l = 0" by (simp add: unat_word_ariths(2) unat_ucast_up)
  then show "l = 0" by (simp add: unat_eq_zero)
qed simp

lemma unat_threshold: "unat (ucast (l :: u16) * 100 :: u32) = unat l * 100"
proof -
  have "unat l < 65536" using unsigned_less [of l, where 'a = nat] by simp
  then show ?thesis by (simp add: unat_word_ariths(2) unat_ucast_up)
qed

lemma level_step_rank:
  assumes "ucast (p_maxExp p) \<le> p_exp p"
  shows "level_rank (level_step p) < level_rank p"
proof -
  have exp: "unat (p_exp (level_step p)) = unat (p_exp p) - unat (p_maxExp p)"
    using assms by (simp add: level_step_def Let_def unat_sub unat_ucast_up)
  have le: "unat (p_maxExp p) \<le> unat (p_exp p)"
    using assms by (simp add: word_le_nat_alt unat_ucast_up)
  have zero: "p_maxExp (level_step p) = 0 \<longleftrightarrow> p_level p = - 1"
    by (simp add: level_step_def Let_def hundred_times_zero eq_neg_iff_add_eq_0)
  have lev: "p_level (level_step p) = p_level p + 1" by (simp add: level_step_def Let_def)
  show ?thesis
  proof (cases "p_maxExp p = 0")
    case True
    with exp zero lev show ?thesis by (simp add: level_rank_def)
  next
    case False
    then have "0 < unat (p_maxExp p)" by (simp add: unat_gt_0)
    with exp le False show ?thesis by (auto simp: level_rank_def)
  qed
qed

function level_ups :: "PlayerData \<Rightarrow> PlayerData \<times> SC_LevelUp list" where
  "level_ups p =
     (if ucast (p_maxExp p) \<le> p_exp p
      then let p1 = level_step p; (p2, ups) = level_ups p1 in (p2, level_up_packet p1 # ups)
      else (p, []))"
  by pat_completeness auto
termination
  by (relation "measure level_rank") (auto simp: level_step_rank)

declare level_ups.simps [simp del]

definition CheckLevelUp :: "SessionId \<Rightarrow> 'd world \<Rightarrow> 'd world" where
  "CheckLevelUp sid w =
     (case level_ups (GetPlayer w sid) of (p, ups) \<Rightarrow>
        fold (\<lambda>up. Send sid (P_LevelUp up)) ups (upd_player sid (\<lambda>_. p) w))"

subsection \<open>Frames\<close>

lemma ForEach_keeps: "(\<And>i s w. g (func i s w) = g w) \<Longrightarrow> g (ForEach func w) = g w"
  unfolding ForEach_def by (rule fold_keeps) (simp split: prod.split)

lemma SendOtherPlayers_frame [simp, frame]:
  "w_sessions (SendOtherPlayers sid w) = w_sessions w"
  "w_nextSessionId (SendOtherPlayers sid w) = w_nextSessionId w"
  "w_npcs (SendOtherPlayers sid w) = w_npcs w" "w_nextNpcUid (SendOtherPlayers sid w) = w_nextNpcUid w"
  "w_questProgress (SendOtherPlayers sid w) = w_questProgress w"
  "w_nextPartyId (SendOtherPlayers sid w) = w_nextPartyId w"
  "w_parties (SendOtherPlayers sid w) = w_parties w"
  "w_playerParty (SendOtherPlayers sid w) = w_playerParty w"
  "w_pendingInvites (SendOtherPlayers sid w) = w_pendingInvites w"
  "w_inventories (SendOtherPlayers sid w) = w_inventories w"
  "w_rand (SendOtherPlayers sid w) = w_rand w" "w_db (SendOtherPlayers sid w) = w_db w"
  by (simp_all add: SendOtherPlayers_def Let_def ForEach_keeps)

lemma SendCharInfo_frame [simp, frame]:
  "w_sessions (SendCharInfo sid w) = w_sessions w"
  "w_nextSessionId (SendCharInfo sid w) = w_nextSessionId w"
  "w_npcs (SendCharInfo sid w) = w_npcs w" "w_nextNpcUid (SendCharInfo sid w) = w_nextNpcUid w"
  "w_questProgress (SendCharInfo sid w) = w_questProgress w"
  "w_nextPartyId (SendCharInfo sid w) = w_nextPartyId w"
  "w_parties (SendCharInfo sid w) = w_parties w"
  "w_playerParty (SendCharInfo sid w) = w_playerParty w"
  "w_pendingInvites (SendCharInfo sid w) = w_pendingInvites w"
  "w_inventories (SendCharInfo sid w) = w_inventories w"
  "w_rand (SendCharInfo sid w) = w_rand w" "w_db (SendCharInfo sid w) = w_db w"
  by (simp_all add: SendCharInfo_def)

lemma CheckLevelUp_frame [simp, frame]:
  "w_nextSessionId (CheckLevelUp sid w) = w_nextSessionId w"
  "w_npcs (CheckLevelUp sid w) = w_npcs w" "w_nextNpcUid (CheckLevelUp sid w) = w_nextNpcUid w"
  "w_questProgress (CheckLevelUp sid w) = w_questProgress w"
  "w_nextPartyId (CheckLevelUp sid w) = w_nextPartyId w"
  "w_parties (CheckLevelUp sid w) = w_parties w"
  "w_playerParty (CheckLevelUp sid w) = w_playerParty w"
  "w_pendingInvites (CheckLevelUp sid w) = w_pendingInvites w"
  "w_inventories (CheckLevelUp sid w) = w_inventories w"
  "w_rand (CheckLevelUp sid w) = w_rand w" "w_db (CheckLevelUp sid w) = w_db w"
  by (simp_all add: CheckLevelUp_def fold_keeps split: prod.split)

lemma OnMove_frame [simp, frame]:
  "w_nextSessionId (OnMove sid m w) = w_nextSessionId w"
  "w_npcs (OnMove sid m w) = w_npcs w" "w_nextNpcUid (OnMove sid m w) = w_nextNpcUid w"
  "w_questProgress (OnMove sid m w) = w_questProgress w"
  "w_nextPartyId (OnMove sid m w) = w_nextPartyId w" "w_parties (OnMove sid m w) = w_parties w"
  "w_playerParty (OnMove sid m w) = w_playerParty w"
  "w_pendingInvites (OnMove sid m w) = w_pendingInvites w"
  "w_inventories (OnMove sid m w) = w_inventories w"
  "w_rand (OnMove sid m w) = w_rand w" "w_db (OnMove sid m w) = w_db w"
  by (simp_all add: OnMove_def Let_def)

lemma live_frame [simp]:
  "live (SendCharInfo sid w) = live w" "GetPlayer (SendCharInfo sid w) = GetPlayer w"
  "live (SendOtherPlayers sid w) = live w" "GetPlayer (SendOtherPlayers sid w) = GetPlayer w"
  by (rule sessions_cong, simp)+

lemma sessions_CheckLevelUp:
  "w_sessions (CheckLevelUp sid w) =
     w_sessions (upd_player sid (\<lambda>_. fst (level_ups (GetPlayer w sid))) w)"
  by (simp add: CheckLevelUp_def fold_keeps split: prod.split)

lemma live_CheckLevelUp [simp]: "live (CheckLevelUp sid w) i \<longleftrightarrow> live w i"
  by (simp add: sessions_cong(3) [OF sessions_CheckLevelUp])

lemma GetPlayer_CheckLevelUp:
  "GetPlayer (CheckLevelUp sid w) i =
     (if i = sid \<and> live w sid then fst (level_ups (GetPlayer w sid)) else GetPlayer w i)"
  by (simp add: sessions_cong(2) [OF sessions_CheckLevelUp] GetPlayer_upd_player)

lemma live_OnMove [simp]: "live (OnMove sid m w) i \<longleftrightarrow> live w i"
  by (simp add: OnMove_def Let_def)

lemma GetPlayer_OnMove:
  "GetPlayer (OnMove sid m w) i =
     (let p = GetPlayer w sid; x = p_posX p + scast (mv_dirX m); y = p_posY p + scast (mv_dirY m)
      in if i = sid \<and> live w sid \<and> in_map x \<and> in_map y
         then p\<lparr>p_posX := x, p_posY := y\<rparr> else GetPlayer w i)"
  by (simp add: OnMove_def Let_def GetPlayer_upd_player)

subsection \<open>Movement keeps players on the map\<close>

lemma OnMove_on_map: "on_map (GetPlayer w i) \<Longrightarrow> on_map (GetPlayer (OnMove sid m w) i)"
  by (simp add: GetPlayer_OnMove Let_def on_map_def)

lemma sint_range16: "- 32768 \<le> sint (x :: 16 word) \<and> sint x < 32768"
  using sint_range_size [of x] by (simp add: word_size)

lemma sint_range8: "- 128 \<le> sint (x :: 8 word) \<and> sint x < 128"
  using sint_range_size [of x] by (simp add: word_size)

lemma sint_scast16: "sint (scast (d :: 8 word) :: 16 word) = sint d"
  by (simp add: sint_up_scast is_up)

text \<open>On the map no coordinate can wrap: the test is the test of the exact sum.\<close>

lemma sint_move:
  assumes "in_map x"
  shows "sint (x + scast (d :: i8)) = sint x + sint d"
proof -
  have "- 128 \<le> sint d \<and> sint d < 128" by (rule sint_range8)
  with assms have "- (2 ^ 15) \<le> sint x + sint d \<and> sint x + sint d < 2 ^ 15"
    by (simp add: in_map_def MAP_SIZE_def)
  then show ?thesis
    by (simp add: sint_word_ariths(1) sint_scast16 signed_take_bit_int_eq_self)
qed

lemma OnMove_exact:
  assumes "live w sid" and "on_map (GetPlayer w sid)"
  shows "let p = GetPlayer w sid; q = GetPlayer (OnMove sid m w) sid;
      x = sint (p_posX p) + sint (mv_dirX m); y = sint (p_posY p) + sint (mv_dirY m)
    in if 0 \<le> x \<and> x < int MAP_SIZE \<and> 0 \<le> y \<and> y < int MAP_SIZE
       then sint (p_posX q) = x \<and> sint (p_posY q) = y else q = p"
  using assms by (simp add: GetPlayer_OnMove Let_def on_map_def in_map_def sint_move)

subsection \<open>The level-up loop\<close>

lemma level_ups_stop: "\<not> ucast (p_maxExp p) \<le> p_exp p \<Longrightarrow> level_ups p = (p, [])"
  by (simp add: level_ups.simps)

lemma level_ups_step:
  "ucast (p_maxExp p) \<le> p_exp p \<Longrightarrow> level_ups p =
     (fst (level_ups (level_step p)),
      level_up_packet (level_step p) # snd (level_ups (level_step p)))"
  by (subst level_ups.simps) (simp add: Let_def split: prod.split)

lemma level_ups_below: "p_exp (fst (level_ups p)) < ucast (p_maxExp (fst (level_ups p)))"
proof (induction p rule: level_ups.induct)
  case (1 p)
  show ?case
  proof (cases "ucast (p_maxExp p) \<le> p_exp p")
    case True
    then show ?thesis using 1 by (simp add: level_ups_step)
  next
    case False
    then show ?thesis by (simp add: level_ups_stop)
  qed
qed

text \<open>
  \<open>k\<close> turns: the level is \<open>k\<close> higher, the experience spent is the first threshold and one
  hundred times each level passed, and everything the loop does not write is unchanged.
\<close>

fun spent :: "nat \<Rightarrow> nat \<Rightarrow> nat \<Rightarrow> nat" where
  "spent m l 0 = 0"
| "spent m l (Suc k) = m + spent (100 * (l + 1)) (l + 1) k"

lemma level_step_fields:
  "p_level (level_step p) = p_level p + 1" "p_maxHp (level_step p) = p_maxHp p + 20"
  "p_hp (level_step p) = p_maxHp p + 20" "p_atk (level_step p) = p_atk p + 3"
  "p_def (level_step p) = p_def p + 2" "p_maxExp (level_step p) = ucast (p_level p + 1) * 100"
  "p_exp (level_step p) = p_exp p - ucast (p_maxExp p)"
  "p_gold (level_step p) = p_gold p" "p_posX (level_step p) = p_posX p"
  "p_posY (level_step p) = p_posY p" "p_name (level_step p) = p_name p"
  "p_charUid (level_step p) = p_charUid p" "p_accountUid (level_step p) = p_accountUid p"
  "p_loggedIn (level_step p) = p_loggedIn p"
  by (simp_all add: level_step_def Let_def)

lemma level_ups_frame:
  "p_gold (fst (level_ups p)) = p_gold p \<and> p_posX (fst (level_ups p)) = p_posX p \<and>
   p_posY (fst (level_ups p)) = p_posY p \<and> p_name (fst (level_ups p)) = p_name p \<and>
   p_charUid (fst (level_ups p)) = p_charUid p \<and>
   p_accountUid (fst (level_ups p)) = p_accountUid p \<and>
   p_loggedIn (fst (level_ups p)) = p_loggedIn p"
proof (induction p rule: level_ups.induct)
  case (1 p)
  then show ?case
    by (cases "ucast (p_maxExp p) \<le> p_exp p")
      (simp_all add: level_ups_step level_ups_stop level_step_fields)
qed

lemma level_ups_gain:
  assumes "level_ups p = (q, ups)"
  shows "p_level q = p_level p + word_of_nat (length ups)
    \<and> p_maxHp q = p_maxHp p + word_of_nat (20 * length ups)
    \<and> p_atk q = p_atk p + word_of_nat (3 * length ups)
    \<and> p_def q = p_def p + word_of_nat (2 * length ups)
    \<and> (ups \<noteq> [] \<longrightarrow> p_hp q = p_maxHp q \<and> p_maxExp q = ucast (p_level q) * 100)"
  using assms
proof (induction p arbitrary: q ups rule: level_ups.induct)
  case (1 p)
  show ?case
  proof (cases "ucast (p_maxExp p) \<le> p_exp p")
    case False
    with "1.prems" show ?thesis by (auto simp: level_ups_stop)
  next
    case True
    obtain ups' where rec: "level_ups (level_step p) = (q, ups')"
      and ups: "ups = level_up_packet (level_step p) # ups'"
      using "1.prems" True by (auto simp: level_ups_step prod_eq_iff)
    show ?thesis
    proof (cases "ups' = []")
      case True
      then have "q = level_step p"
        using rec by (subst (asm) level_ups.simps) (auto simp: Let_def split: if_splits prod.splits)
      with True ups show ?thesis by (simp add: level_step_fields)
    next
      case False
      with "1.IH" [OF True refl rec] ups show ?thesis
        by (simp add: level_step_fields algebra_simps)
    qed
  qed
qed

lemma level_ups_spent:
  assumes "level_ups p = (q, ups)" and "unat (p_level p) + length ups < 65536"
  shows "unat (p_exp p) = unat (p_exp q) + spent (unat (p_maxExp p)) (unat (p_level p)) (length ups)"
  using assms
proof (induction p arbitrary: q ups rule: level_ups.induct)
  case (1 p)
  show ?case
  proof (cases "ucast (p_maxExp p) \<le> p_exp p")
    case False
    with "1.prems" show ?thesis by (auto simp: level_ups_stop)
  next
    case True
    obtain ups' where rec: "level_ups (level_step p) = (q, ups')"
      and ups: "ups = level_up_packet (level_step p) # ups'"
      using "1.prems"(1) True by (auto simp: level_ups_step prod_eq_iff)
    have lev: "unat (p_level p + 1) = unat (p_level p) + 1"
      using "1.prems"(2) ups by (subst unat_add_no_wrap) simp_all
    have le: "unat (p_maxExp p) \<le> unat (p_exp p)"
      using True by (simp add: word_le_nat_alt unat_ucast_up)
    have "unat (p_exp (level_step p)) = unat (p_exp p) - unat (p_maxExp p)"
      using True by (simp add: level_step_fields unat_sub unat_ucast_up)
    moreover have "unat (p_exp (level_step p)) = unat (p_exp q) +
        spent (unat (p_level p + 1) * 100) (unat (p_level p) + 1) (length ups')"
      using "1.IH" [OF True refl rec] "1.prems"(2) ups lev
      by (simp add: level_step_fields unat_threshold)
    ultimately show ?thesis using le lev ups by (simp add: mult.commute)
  qed
qed

subsection \<open>Every player is on the map and no healthier than can be\<close>

definition player_ok :: "PlayerData \<Rightarrow> bool" where
  "player_ok p \<longleftrightarrow> on_map p \<and> p_hp p \<le> p_maxHp p"

definition players_ok :: "'d world \<Rightarrow> bool" where
  "players_ok w \<longleftrightarrow> (\<forall>sid. player_ok (GetPlayer w sid))"

lemma players_okD: "players_ok w \<Longrightarrow> player_ok (GetPlayer w sid)"
  by (simp add: players_ok_def)

lemma player_ok_new [simp]: "player_ok new_player"
  by (simp add: player_ok_def new_player_def on_map_def in_map_def MAP_SIZE_def)

lemma players_ok_same: "players_ok w \<Longrightarrow> GetPlayer w' = GetPlayer w \<Longrightarrow> players_ok w'"
  by (simp add: players_ok_def)

text \<open>Players change one session at a time, so this is all a handler has to show.\<close>

lemma players_ok_change:
  assumes "players_ok w" and "\<And>i. GetPlayer w' i = GetPlayer w i \<or> GetPlayer w' i = f i (GetPlayer w i)"
    and "\<And>i p. player_ok p \<Longrightarrow> player_ok (f i p)"
  shows "players_ok w'"
  using assms by (metis players_ok_def)

lemma level_ups_hp: "p_hp p \<le> p_maxHp p \<Longrightarrow> p_hp (fst (level_ups p)) \<le> p_maxHp (fst (level_ups p))"
proof (induction p rule: level_ups.induct)
  case (1 p)
  then show ?case
    by (cases "ucast (p_maxExp p) \<le> p_exp p")
      (simp_all add: level_ups_step level_ups_stop level_step_fields)
qed

lemma player_ok_level_ups: "player_ok p \<Longrightarrow> player_ok (fst (level_ups p))"
  by (simp add: player_ok_def on_map_def level_ups_frame level_ups_hp)

lemma OnMove_players_ok: "players_ok w \<Longrightarrow> players_ok (OnMove sid m w)"
  by (auto simp: players_ok_def player_ok_def GetPlayer_OnMove Let_def on_map_def)

subsection \<open>Properties\<close>

text \<open>C35: \<open>CheckLevelUp\<close>'s loop always ends, although the 16-bit level can wrap to 0 and make the next
  threshold 0; k turns raise the level by k and the stats by 20, 3 and 2 each, leave less experience
  than the next threshold, and, while the level does not wrap, spend exactly the thresholds passed.\<close>

theorem level_up_loop:
  assumes "level_ups p = (q, ups)"
  shows "p_exp q < ucast (p_maxExp q) \<and> p_level q = p_level p + word_of_nat (length ups) \<and>
    p_maxHp q = p_maxHp p + word_of_nat (20 * length ups) \<and> p_atk q = p_atk p + word_of_nat (3 * length ups) \<and>
    p_def q = p_def p + word_of_nat (2 * length ups) \<and>
    (unat (p_level p) + length ups < 65536 \<longrightarrow>
      unat (p_exp p) = unat (p_exp q) + spent (unat (p_maxExp p)) (unat (p_level p)) (length ups))"
  using level_ups_below [of p] level_ups_gain [OF assms] level_ups_spent [OF assms] assms by simp

theorem level_up_loop_witness:
  "fst (level_ups (new_player\<lparr>p_exp := 350\<rparr>)) = new_player\<lparr>p_exp := 50, p_level := 3, p_hp := 140,
     p_maxHp := 140, p_atk := 21, p_def := 9, p_maxExp := 300\<rparr> \<and>
   (50 :: nat) + spent 100 1 (Suc (Suc 0)) = 350"
proof -
  have run: "level_ups (new_player\<lparr>p_exp := 350\<rparr>) = (new_player\<lparr>p_exp := 50, p_level := 3, p_hp := 140,
      p_maxHp := 140, p_atk := 21, p_def := 9, p_maxExp := 300\<rparr>,
      [\<lparr>lu_level = 2, lu_hp = 120, lu_maxHp = 120, lu_atk = 18, lu_def = 7\<rparr>,
       \<lparr>lu_level = 3, lu_hp = 140, lu_maxHp = 140, lu_atk = 21, lu_def = 9\<rparr>])"
    by (simp add: level_ups.simps new_player_def level_step_def level_up_packet_def Let_def)
  have "p_exp new_player = 0" "p_level new_player = 1" "p_maxExp new_player = 100" by (simp_all add: new_player_def)
  with level_up_loop [OF run] run show ?thesis by simp
qed

text \<open>A player on the map moves by exactly the requested signed displacement when the target is on
  the map, with no wrap-around of its 16-bit coordinates, and stays where it is otherwise.\<close>

theorem move_exact:
  assumes "live w sid" and "on_map (GetPlayer w sid)"
  shows "let p = GetPlayer w sid; q = GetPlayer (OnMove sid m w) sid;
      x = sint (p_posX p) + sint (mv_dirX m); y = sint (p_posY p) + sint (mv_dirY m)
    in if 0 \<le> x \<and> x < int MAP_SIZE \<and> 0 \<le> y \<and> y < int MAP_SIZE
       then sint (p_posX q) = x \<and> sint (p_posY q) = y else q = p"
  using assms by (rule OnMove_exact)

theorem move_exact_witness:
  "sint (p_posX (GetPlayer (OnMove 1 \<lparr>mv_dirX = - 1, mv_dirY = 1\<rparr> sample_world) 1)) = 2"
  using move_exact [of sample_world 1 "\<lparr>mv_dirX = - 1, mv_dirY = 1\<rparr>"]
  by (simp add: sample_player_def on_map_def in_map_def MAP_SIZE_def Let_def)

end
