(* ===== verification/Inventory.thy ===== *)
theory Inventory
  imports Player "HOL-Library.Multiset"
begin

text \<open>
  Inventories and equipment of \<open>GameServer/main.cpp\<close>: the twenty slots and the two equipped
  items of a session, loading them from the database, using and equipping an item, and the
  calls that write items to the database. The slots as a container that shop, quests and drops
  put items into are the locale \<open>item_bag\<close>.
\<close>

subsection \<open>Slots\<close>

text \<open>\<open>FindEmptySlot\<close>; \<open>None\<close> stands for its \<open>-1\<close>.\<close>

definition FindEmptySlot :: "Inventory \<Rightarrow> nat option" where
  "FindEmptySlot iv = find (\<lambda>i. sl_itemTid (inv_slots iv ! i) = 0) [0..<MAX_INVENTORY]"

definition inv_wf :: "Inventory \<Rightarrow> bool" where
  "inv_wf iv \<longleftrightarrow> length (inv_slots iv) = MAX_INVENTORY"

definition set_slot :: "nat \<Rightarrow> InvSlot \<Rightarrow> Inventory \<Rightarrow> Inventory" where
  "set_slot i s iv = iv\<lparr>inv_slots := (inv_slots iv)[i := s]\<rparr>"

definition get_slot :: "Inventory \<Rightarrow> nat \<Rightarrow> InvSlot" where
  "get_slot iv i = inv_slots iv ! i"

definition used_slots :: "Inventory \<Rightarrow> nat" where
  "used_slots iv = length (filter (\<lambda>s. sl_itemTid s \<noteq> 0) (inv_slots iv))"

locale item_bag =
  fixes cap :: nat
    and wf :: "'b \<Rightarrow> bool"
    and get :: "'b \<Rightarrow> nat \<Rightarrow> 's"
    and set_at :: "nat \<Rightarrow> 's \<Rightarrow> 'b \<Rightarrow> 'b"
    and free :: "'s \<Rightarrow> bool"
    and find_free :: "'b \<Rightarrow> nat option"
  assumes wf_set: "wf b \<Longrightarrow> i < cap \<Longrightarrow> wf (set_at i s b)"
    and get_set: "wf b \<Longrightarrow> i < cap \<Longrightarrow> get (set_at i s b) j = (if i = j then s else get b j)"
    and found: "wf b \<Longrightarrow> find_free b = Some i \<Longrightarrow> i < cap \<and> free (get b i)"
    and first: "wf b \<Longrightarrow> find_free b = Some i \<Longrightarrow> j < i \<Longrightarrow> \<not> free (get b j)"
    and full: "wf b \<Longrightarrow> find_free b = None \<Longrightarrow> i < cap \<Longrightarrow> \<not> free (get b i)"
begin

definition occupied :: "'b \<Rightarrow> nat set" where
  "occupied b = {i. i < cap \<and> \<not> free (get b i)}"

lemma occupied_finite: "finite (occupied b)" "card (occupied b) \<le> cap"
  using card_mono [of "{..<cap}" "occupied b"] by (auto simp: occupied_def)

text \<open>Storing into the slot that was found takes one more slot and touches no other.\<close>

lemma store_found:
  assumes "wf b" and "find_free b = Some i" and "\<not> free s"
  shows "occupied (set_at i s b) = insert i (occupied b) \<and> i \<notin> occupied b
    \<and> (\<forall>j. j \<noteq> i \<longrightarrow> get (set_at i s b) j = get b j)"
  using found [OF assms(1,2)] assms(3) by (auto simp: occupied_def get_set [OF assms(1)] split: if_splits)

lemma store_found_card:
  assumes "wf b" and "find_free b = Some i" and "\<not> free s"
  shows "card (occupied (set_at i s b)) = Suc (card (occupied b))"
  using store_found [OF assms] occupied_finite(1) [of b] by simp

lemma full_iff: "wf b \<Longrightarrow> find_free b = None \<longleftrightarrow> card (occupied b) = cap"
proof
  assume "wf b" "find_free b = None"
  then have "occupied b = {..<cap}" using full by (auto simp: occupied_def)
  then show "card (occupied b) = cap" by simp
next
  assume wf: "wf b" and card: "card (occupied b) = cap"
  have "occupied b = {..<cap}"
    by (rule card_subset_eq) (use card in \<open>auto simp: occupied_def\<close>)
  then show "find_free b = None"
    using found [OF wf] by (cases "find_free b") (auto simp: occupied_def)
qed

text \<open>Clearing a slot frees it.\<close>

lemma clear_slot:
  assumes "wf b" and "i < cap" and "free s"
  shows "occupied (set_at i s b) = occupied b - {i}"
  using assms by (auto simp: occupied_def get_set split: if_splits)

end

lemma FindEmptySlot_Some:
  "FindEmptySlot iv = Some i \<Longrightarrow> i < MAX_INVENTORY \<and> sl_itemTid (inv_slots iv ! i) = 0 \<and>
     (\<forall>j < i. sl_itemTid (inv_slots iv ! j) \<noteq> 0)"
  by (auto simp: FindEmptySlot_def find_Some_iff)

lemma FindEmptySlot_None:
  "FindEmptySlot iv = None \<longleftrightarrow> (\<forall>i < MAX_INVENTORY. sl_itemTid (inv_slots iv ! i) \<noteq> 0)"
  by (auto simp: FindEmptySlot_def find_None_iff)

interpretation bag: item_bag MAX_INVENTORY inv_wf get_slot set_slot
    "\<lambda>s. sl_itemTid s = 0" FindEmptySlot
  by unfold_locales
    (auto simp: inv_wf_def set_slot_def get_slot_def nth_list_update FindEmptySlot_None
       dest: FindEmptySlot_Some)

subsection \<open>Database calls for items\<close>

definition AddItemToDB :: "'d env \<Rightarrow> u64 \<Rightarrow> u16 \<Rightarrow> 'd world \<Rightarrow> u64 \<times> 'd world" where
  "AddItemToDB E charUid itemTid w =
     (case spInventoryAdd (dbConn E) charUid itemTid (w_db w) of (rows, db) \<Rightarrow>
        (case rows of Some (uid # _) \<Rightarrow> uid | _ \<Rightarrow> 0, w\<lparr>w_db := db\<rparr>))"

definition RemoveItemFromDB :: "'d env \<Rightarrow> u64 \<Rightarrow> 'd world \<Rightarrow> 'd world" where
  "RemoveItemFromDB E itemUid w = w\<lparr>w_db := spInventoryRemove (dbConn E) itemUid (w_db w)\<rparr>"

definition EquipItemDB :: "'d env \<Rightarrow> u64 \<Rightarrow> i32 \<Rightarrow> u64 \<Rightarrow> 'd world \<Rightarrow> 'd world" where
  "EquipItemDB E charUid slot itemUid w =
     w\<lparr>w_db := spEquipItem (dbConn E) charUid slot itemUid (w_db w)\<rparr>"

definition UnequipItemDB :: "'d env \<Rightarrow> u64 \<Rightarrow> i32 \<Rightarrow> 'd world \<Rightarrow> 'd world" where
  "UnequipItemDB E charUid slot w = w\<lparr>w_db := spUnequipItem (dbConn E) charUid slot (w_db w)\<rparr>"

subsection \<open>The inventory of a session\<close>

text \<open>\<open>g_inventories[id]\<close> as a reference: the entry exists from then on.\<close>

definition get_inv :: "'d world \<Rightarrow> SessionId \<Rightarrow> Inventory" where
  "get_inv w sid = om_get new_inventory sid (w_inventories w)"

definition ensure_inv :: "SessionId \<Rightarrow> 'd world \<Rightarrow> 'd world" where
  "ensure_inv sid w = w\<lparr>w_inventories := om_ensure new_inventory sid (w_inventories w)\<rparr>"

definition set_inv :: "SessionId \<Rightarrow> Inventory \<Rightarrow> 'd world \<Rightarrow> 'd world" where
  "set_inv sid iv w = w\<lparr>w_inventories := om_put sid iv (w_inventories w)\<rparr>"

lemma get_set_inv [simp]: "get_inv (set_inv sid iv w) i = (if i = sid then iv else get_inv w i)"
  by (auto simp: get_inv_def set_inv_def om_get_put)

lemma get_ensure_inv [simp]: "get_inv (ensure_inv sid w) i = get_inv w i"
  by (simp add: get_inv_def ensure_inv_def)

lemma get_inv_cong: "w_inventories w = w_inventories w' \<Longrightarrow> get_inv w = get_inv w'"
  by (auto simp: get_inv_def fun_eq_iff)

text \<open>Store an item in a free slot: what a purchase, a reward and a drop do.\<close>

definition item_slot :: "u64 \<Rightarrow> u16 \<Rightarrow> InvSlot" where
  "item_slot uid tid = \<lparr>sl_itemUid = uid, sl_itemTid = tid\<rparr>"

subsection \<open>Loading\<close>

fun fill_slots :: "nat \<Rightarrow> (i64 \<times> i64) list \<Rightarrow> Inventory \<Rightarrow> Inventory" where
  "fill_slots slot [] iv = iv"
| "fill_slots slot ((itemUid, itemTid) # rows) iv =
     (if slot < MAX_INVENTORY
      then fill_slots (slot + 1) rows (set_slot slot (item_slot itemUid (ucast itemTid)) iv)
      else iv)"

fun fill_equipment :: "(i16 \<times> i64 \<times> i64) list \<Rightarrow> Inventory \<Rightarrow> Inventory" where
  "fill_equipment [] iv = iv"
| "fill_equipment ((eqSlot, eqUid, eqTid) # rows) iv =
     fill_equipment rows
       (if eqSlot = 0 then iv\<lparr>inv_weaponUid := eqUid, inv_weaponTid := ucast eqTid\<rparr>
        else if eqSlot = 1 then iv\<lparr>inv_armorUid := eqUid, inv_armorTid := ucast eqTid\<rparr>
        else iv)"

definition loaded_inventory ::
  "((i64 \<times> i64) list \<times> (i16 \<times> i64 \<times> i64) list option) option \<Rightarrow> Inventory" where
  "loaded_inventory rows = (case rows of
     None \<Rightarrow> new_inventory
   | Some (items, equipped) \<Rightarrow>
       (let iv = fill_slots 0 items new_inventory
        in case equipped of None \<Rightarrow> iv | Some eqs \<Rightarrow> fill_equipment eqs iv))"

definition inventory_entry :: "nat \<Rightarrow> ItemData \<Rightarrow> SC_InventoryUpdate" where
  "inventory_entry i item =
     \<lparr>iu_slot = word_of_nat i, iu_itemId = it_id item, iu_itemName = ncopy 31 (it_name item)\<rparr>"

definition list_slot :: "'d env \<Rightarrow> Inventory \<Rightarrow> nat \<Rightarrow> SC_InventoryList \<Rightarrow> SC_InventoryList" where
  "list_slot E iv i l =
     (if sl_itemTid (get_slot iv i) \<noteq> 0 then
        case FindItem E (sl_itemTid (get_slot iv i)) of
          None \<Rightarrow> l
        | Some item \<Rightarrow> l\<lparr>il_count := il_count l + 1,
            il_items := (il_items l)[unat (il_count l) := inventory_entry i item]\<rparr>
      else l)"

definition inventory_list :: "'d env \<Rightarrow> Inventory \<Rightarrow> SC_InventoryList" where
  "inventory_list E iv =
     fold (list_slot E iv) [0..<MAX_INVENTORY]
       \<lparr>il_count = 0, il_items = replicate MAX_INVENTORY zero_SC_InventoryUpdate\<rparr>"

definition item_name_or_empty :: "ItemData option \<Rightarrow> string" where
  "item_name_or_empty item = (case item of None \<Rightarrow> [] | Some i \<Rightarrow> ncopy 31 (it_name i))"

definition LoadInventory :: "'d env \<Rightarrow> SessionId \<Rightarrow> 'd world \<Rightarrow> 'd world" where
  "LoadInventory E sid w =
     (case spInventoryLoad (dbConn E) (p_charUid (GetPlayer w sid)) (w_db w) of (rows, db) \<Rightarrow>
       let iv = loaded_inventory rows;
           w1 = set_inv sid iv (w\<lparr>w_db := db\<rparr>);
           wep = FindItem E (inv_weaponTid iv);
           arm = FindItem E (inv_armorTid iv);
           w2 = (case wep of None \<Rightarrow> w1
                 | Some i \<Rightarrow> upd_player sid (\<lambda>p. p\<lparr>p_atk := 15 + it_atk i\<rparr>) w1);
           w3 = (case arm of None \<Rightarrow> w2
                 | Some i \<Rightarrow> upd_player sid (\<lambda>p. p\<lparr>p_def := 5 + it_def i\<rparr>) w2);
           w4 = Send sid (P_InventoryList (inventory_list E iv)) w3
       in if inv_weaponTid iv \<noteq> 0 \<or> inv_armorTid iv \<noteq> 0
          then Send sid (P_EquipResult \<lparr>eqr_success = 1, eqr_slot = 0,
                 eqr_atk = p_atk (GetPlayer w4 sid), eqr_def = p_def (GetPlayer w4 sid),
                 eqr_weaponName = item_name_or_empty wep, eqr_armorName = item_name_or_empty arm,
                 eqr_message = []\<rparr>) w4
          else w4)"

subsection \<open>Using an item\<close>

text \<open>\<open>std::min((uint16_t)(player.hp + item->hp), player.maxHp)\<close>.\<close>

definition heal :: "u16 \<Rightarrow> PlayerData \<Rightarrow> PlayerData" where
  "heal amount p = p\<lparr>p_hp := min (p_hp p + amount) (p_maxHp p)\<rparr>"

definition OnItemUse :: "'d env \<Rightarrow> SessionId \<Rightarrow> CS_ItemUse \<Rightarrow> 'd world \<Rightarrow> 'd world" where
  "OnItemUse E sid req w0 =
     (let w = ensure_inv sid w0; iv = get_inv w sid; slot = unat (ciu_slot req)
      in if MAX_INVENTORY \<le> slot \<or> sl_itemTid (get_slot iv slot) = 0 then w
         else case FindItem E (sl_itemTid (get_slot iv slot)) of
           None \<Rightarrow> w
         | Some item \<Rightarrow>
             if it_type item \<noteq> ''consumable'' then w
             else
               let w1 = upd_player sid (heal (it_hp item)) w;
                   w2 = RemoveItemFromDB E (sl_itemUid (get_slot iv slot)) w1;
                   w3 = set_inv sid (set_slot slot empty_slot iv) w2;
                   player = GetPlayer w3 sid;
                   w4 = Broadcast (P_ItemUseResult \<lparr>iur_charUid = p_charUid player,
                          iur_charName = ncopy 19 (p_name player),
                          iur_itemName = ncopy 31 (it_name item), iur_effectType = 0,
                          iur_effectValue = it_hp item\<rparr>) w3;
                   w5 = Send sid (P_InventoryUpdate \<lparr>iu_slot = ciu_slot req, iu_itemId = 0,
                          iu_itemName = []\<rparr>) w4
               in SendCharInfo sid w5)"

subsection \<open>Equipping an item\<close>

definition weapon_slot :: "Inventory \<Rightarrow> InvSlot" where
  "weapon_slot iv = item_slot (inv_weaponUid iv) (inv_weaponTid iv)"

definition armor_slot :: "Inventory \<Rightarrow> InvSlot" where
  "armor_slot iv = item_slot (inv_armorUid iv) (inv_armorTid iv)"

definition swap_weapon :: "nat \<Rightarrow> Inventory \<Rightarrow> Inventory" where
  "swap_weapon slot iv =
     set_slot slot (weapon_slot iv)
       (iv\<lparr>inv_weaponUid := sl_itemUid (get_slot iv slot),
            inv_weaponTid := sl_itemTid (get_slot iv slot)\<rparr>)"

definition swap_armor :: "nat \<Rightarrow> Inventory \<Rightarrow> Inventory" where
  "swap_armor slot iv =
     set_slot slot (armor_slot iv)
       (iv\<lparr>inv_armorUid := sl_itemUid (get_slot iv slot),
            inv_armorTid := sl_itemTid (get_slot iv slot)\<rparr>)"

definition OnItemEquip :: "'d env \<Rightarrow> SessionId \<Rightarrow> CS_ItemEquip \<Rightarrow> 'd world \<Rightarrow> 'd world" where
  "OnItemEquip E sid req w0 =
     (let w = ensure_inv sid w0; iv = get_inv w sid; slot = unat (cie_slot req)
      in if MAX_INVENTORY \<le> slot \<or> sl_itemTid (get_slot iv slot) = 0 then w
         else case FindItem E (sl_itemTid (get_slot iv slot)) of
           None \<Rightarrow> w
         | Some item \<Rightarrow>
             if it_type item = ''consumable'' then
               Send sid (P_EquipResult \<lparr>eqr_success = 0, eqr_slot = cie_slot req, eqr_atk = 0,
                 eqr_def = 0, eqr_weaponName = [], eqr_armorName = [],
                 eqr_message = ''Cannot equip consumable''\<rparr>) w
             else
               let weapon = (it_type item = ''weapon'');
                   eqSlot = (if weapon then 0 else 1);
                   inv1 = (if weapon then swap_weapon slot iv else swap_armor slot iv);
                   w1 = set_inv sid inv1 w;
                   w2 = upd_player sid (\<lambda>p. if weapon then p\<lparr>p_atk := 15 + it_atk item\<rparr>
                          else p\<lparr>p_def := 5 + it_def item\<rparr>) w1;
                   w3 = EquipItemDB E (p_charUid (GetPlayer w2 sid)) eqSlot
                          (if eqSlot = 0 then inv_weaponUid inv1 else inv_armorUid inv1) w2;
                   player = GetPlayer w3 sid;
                   w4 = Send sid (P_EquipResult \<lparr>eqr_success = 1, eqr_slot = cie_slot req,
                          eqr_atk = p_atk player, eqr_def = p_def player,
                          eqr_weaponName = item_name_or_empty (FindItem E (inv_weaponTid inv1)),
                          eqr_armorName = item_name_or_empty (FindItem E (inv_armorTid inv1)),
                          eqr_message = []\<rparr>) w3;
                   oldTid = sl_itemTid (get_slot inv1 slot);
                   w5 = Send sid (P_InventoryUpdate \<lparr>iu_slot = cie_slot req, iu_itemId = oldTid,
                          iu_itemName = (if oldTid \<noteq> 0 then item_name_or_empty (FindItem E oldTid)
                                         else [])\<rparr>) w4
               in SendCharInfo sid w5)"

subsection \<open>Frames\<close>

lemma AddItemToDB_frame [simp, frame]:
  "w_sessions (snd (AddItemToDB E c t w)) = w_sessions w"
  "w_nextSessionId (snd (AddItemToDB E c t w)) = w_nextSessionId w"
  "w_npcs (snd (AddItemToDB E c t w)) = w_npcs w"
  "w_nextNpcUid (snd (AddItemToDB E c t w)) = w_nextNpcUid w"
  "w_questProgress (snd (AddItemToDB E c t w)) = w_questProgress w"
  "w_nextPartyId (snd (AddItemToDB E c t w)) = w_nextPartyId w"
  "w_parties (snd (AddItemToDB E c t w)) = w_parties w"
  "w_playerParty (snd (AddItemToDB E c t w)) = w_playerParty w"
  "w_pendingInvites (snd (AddItemToDB E c t w)) = w_pendingInvites w"
  "w_inventories (snd (AddItemToDB E c t w)) = w_inventories w"
  "w_rand (snd (AddItemToDB E c t w)) = w_rand w" "w_out (snd (AddItemToDB E c t w)) = w_out w"
  by (simp_all add: AddItemToDB_def split: prod.split)

lemma RemoveItemFromDB_frame [simp, frame]:
  "w_sessions (RemoveItemFromDB E u w) = w_sessions w"
  "w_nextSessionId (RemoveItemFromDB E u w) = w_nextSessionId w"
  "w_npcs (RemoveItemFromDB E u w) = w_npcs w"
  "w_nextNpcUid (RemoveItemFromDB E u w) = w_nextNpcUid w"
  "w_questProgress (RemoveItemFromDB E u w) = w_questProgress w"
  "w_nextPartyId (RemoveItemFromDB E u w) = w_nextPartyId w"
  "w_parties (RemoveItemFromDB E u w) = w_parties w"
  "w_playerParty (RemoveItemFromDB E u w) = w_playerParty w"
  "w_pendingInvites (RemoveItemFromDB E u w) = w_pendingInvites w"
  "w_inventories (RemoveItemFromDB E u w) = w_inventories w"
  "w_rand (RemoveItemFromDB E u w) = w_rand w" "w_out (RemoveItemFromDB E u w) = w_out w"
  by (simp_all add: RemoveItemFromDB_def)

lemma EquipItemDB_frame [simp, frame]:
  "w_sessions (EquipItemDB E c s u w) = w_sessions w"
  "w_nextSessionId (EquipItemDB E c s u w) = w_nextSessionId w"
  "w_npcs (EquipItemDB E c s u w) = w_npcs w"
  "w_nextNpcUid (EquipItemDB E c s u w) = w_nextNpcUid w"
  "w_questProgress (EquipItemDB E c s u w) = w_questProgress w"
  "w_nextPartyId (EquipItemDB E c s u w) = w_nextPartyId w"
  "w_parties (EquipItemDB E c s u w) = w_parties w"
  "w_playerParty (EquipItemDB E c s u w) = w_playerParty w"
  "w_pendingInvites (EquipItemDB E c s u w) = w_pendingInvites w"
  "w_inventories (EquipItemDB E c s u w) = w_inventories w"
  "w_rand (EquipItemDB E c s u w) = w_rand w" "w_out (EquipItemDB E c s u w) = w_out w"
  by (simp_all add: EquipItemDB_def)

lemma ensure_inv_frame [simp, frame]:
  "w_sessions (ensure_inv sid w) = w_sessions w"
  "w_nextSessionId (ensure_inv sid w) = w_nextSessionId w" "w_npcs (ensure_inv sid w) = w_npcs w"
  "w_nextNpcUid (ensure_inv sid w) = w_nextNpcUid w"
  "w_questProgress (ensure_inv sid w) = w_questProgress w"
  "w_nextPartyId (ensure_inv sid w) = w_nextPartyId w"
  "w_parties (ensure_inv sid w) = w_parties w"
  "w_playerParty (ensure_inv sid w) = w_playerParty w"
  "w_pendingInvites (ensure_inv sid w) = w_pendingInvites w"
  "w_rand (ensure_inv sid w) = w_rand w" "w_db (ensure_inv sid w) = w_db w"
  "w_out (ensure_inv sid w) = w_out w"
  by (simp_all add: ensure_inv_def)

lemma set_inv_frame [simp, frame]:
  "w_sessions (set_inv sid iv w) = w_sessions w"
  "w_nextSessionId (set_inv sid iv w) = w_nextSessionId w" "w_npcs (set_inv sid iv w) = w_npcs w"
  "w_nextNpcUid (set_inv sid iv w) = w_nextNpcUid w"
  "w_questProgress (set_inv sid iv w) = w_questProgress w"
  "w_nextPartyId (set_inv sid iv w) = w_nextPartyId w"
  "w_parties (set_inv sid iv w) = w_parties w"
  "w_playerParty (set_inv sid iv w) = w_playerParty w"
  "w_pendingInvites (set_inv sid iv w) = w_pendingInvites w"
  "w_rand (set_inv sid iv w) = w_rand w" "w_db (set_inv sid iv w) = w_db w"
  "w_out (set_inv sid iv w) = w_out w"
  by (simp_all add: set_inv_def)

lemma inv_ops_sessions [simp]:
  "GetPlayer (snd (AddItemToDB E c t w)) = GetPlayer w" "live (snd (AddItemToDB E c t w)) = live w"
  "GetPlayer (RemoveItemFromDB E u w) = GetPlayer w" "live (RemoveItemFromDB E u w) = live w"
  "GetPlayer (EquipItemDB E c s u w) = GetPlayer w" "live (EquipItemDB E c s u w) = live w"
  "GetPlayer (ensure_inv sid w) = GetPlayer w" "live (ensure_inv sid w) = live w"
  "GetPlayer (set_inv sid iv w) = GetPlayer w" "live (set_inv sid iv w) = live w"
  by (rule sessions_cong, simp)+

lemma inv_ops_inv [simp]:
  "get_inv (snd (AddItemToDB E c t w)) = get_inv w" "get_inv (RemoveItemFromDB E u w) = get_inv w"
  "get_inv (EquipItemDB E c s u w) = get_inv w" "get_inv (Send i p w) = get_inv w"
  "get_inv (Broadcast p w) = get_inv w" "get_inv (upd_player i f w) = get_inv w"
  "get_inv (SendCharInfo i w) = get_inv w" "get_inv (CheckLevelUp i w) = get_inv w"
  "get_inv (w\<lparr>w_db := d\<rparr>) = get_inv w"
  by (rule get_inv_cong, simp)+

lemma OnItemUse_frame [simp, frame]:
  "w_nextSessionId (OnItemUse E sid req w) = w_nextSessionId w"
  "w_npcs (OnItemUse E sid req w) = w_npcs w"
  "w_nextNpcUid (OnItemUse E sid req w) = w_nextNpcUid w"
  "w_questProgress (OnItemUse E sid req w) = w_questProgress w"
  "w_nextPartyId (OnItemUse E sid req w) = w_nextPartyId w"
  "w_parties (OnItemUse E sid req w) = w_parties w"
  "w_playerParty (OnItemUse E sid req w) = w_playerParty w"
  "w_pendingInvites (OnItemUse E sid req w) = w_pendingInvites w"
  "w_rand (OnItemUse E sid req w) = w_rand w"
  by (simp_all add: OnItemUse_def Let_def split: option.split prod.split)

lemma OnItemEquip_frame [simp, frame]:
  "w_nextSessionId (OnItemEquip E sid req w) = w_nextSessionId w"
  "w_npcs (OnItemEquip E sid req w) = w_npcs w"
  "w_nextNpcUid (OnItemEquip E sid req w) = w_nextNpcUid w"
  "w_questProgress (OnItemEquip E sid req w) = w_questProgress w"
  "w_nextPartyId (OnItemEquip E sid req w) = w_nextPartyId w"
  "w_parties (OnItemEquip E sid req w) = w_parties w"
  "w_playerParty (OnItemEquip E sid req w) = w_playerParty w"
  "w_pendingInvites (OnItemEquip E sid req w) = w_pendingInvites w"
  "w_rand (OnItemEquip E sid req w) = w_rand w"
  by (simp_all add: OnItemEquip_def Let_def split: option.split prod.split)

lemma LoadInventory_frame [simp, frame]:
  "w_nextSessionId (LoadInventory E sid w) = w_nextSessionId w"
  "w_npcs (LoadInventory E sid w) = w_npcs w"
  "w_nextNpcUid (LoadInventory E sid w) = w_nextNpcUid w"
  "w_questProgress (LoadInventory E sid w) = w_questProgress w"
  "w_nextPartyId (LoadInventory E sid w) = w_nextPartyId w"
  "w_parties (LoadInventory E sid w) = w_parties w"
  "w_playerParty (LoadInventory E sid w) = w_playerParty w"
  "w_pendingInvites (LoadInventory E sid w) = w_pendingInvites w"
  "w_rand (LoadInventory E sid w) = w_rand w"
  by (simp_all add: LoadInventory_def Let_def split: option.split prod.split)

subsection \<open>Well-formed inventories\<close>

definition inventories_ok :: "'d world \<Rightarrow> bool" where
  "inventories_ok w \<longleftrightarrow> (\<forall>sid. inv_wf (get_inv w sid))"

lemma inventories_okD [simp]: "inventories_ok w \<Longrightarrow> inv_wf (get_inv w sid)"
  by (simp add: inventories_ok_def)

lemma inv_wf_new [simp]: "inv_wf new_inventory"
  by (simp add: inv_wf_def new_inventory_def)

lemma inv_wf_set_slot [simp]: "inv_wf (set_slot i s iv) \<longleftrightarrow> inv_wf iv"
  by (simp add: inv_wf_def set_slot_def)

lemma inv_wf_swap [simp]: "inv_wf (swap_weapon i iv) \<longleftrightarrow> inv_wf iv" "inv_wf (swap_armor i iv) \<longleftrightarrow> inv_wf iv"
  by (simp_all add: swap_weapon_def swap_armor_def inv_wf_def set_slot_def)

lemma inv_wf_fill_slots [simp]: "inv_wf (fill_slots n rows iv) \<longleftrightarrow> inv_wf iv"
  by (induction n rows iv rule: fill_slots.induct) simp_all

lemma inv_wf_fill_equipment [simp]: "inv_wf (fill_equipment rows iv) \<longleftrightarrow> inv_wf iv"
  by (induction rows iv rule: fill_equipment.induct) (simp_all add: inv_wf_def)

lemma inv_wf_loaded [simp]: "inv_wf (loaded_inventory rows)"
  by (simp add: loaded_inventory_def Let_def split: option.split prod.split)

text \<open>
  What each handler does to the inventories: it changes one slot, swaps one with the equipment,
  loads them, or leaves them alone.
\<close>

definition usable :: "'d env \<Rightarrow> 'd world \<Rightarrow> SessionId \<Rightarrow> u8 \<Rightarrow> ItemData \<Rightarrow> bool" where
  "usable E w sid slot item \<longleftrightarrow> unat slot < MAX_INVENTORY \<and>
     sl_itemTid (get_slot (get_inv w sid) (unat slot)) \<noteq> 0 \<and>
     FindItem E (sl_itemTid (get_slot (get_inv w sid) (unat slot))) = Some item"

lemma OnItemUse_used:
  assumes "usable E w sid (ciu_slot req) item" and "it_type item = ''consumable''"
  shows "get_inv (OnItemUse E sid req w) i = (if i = sid
      then set_slot (unat (ciu_slot req)) empty_slot (get_inv w sid) else get_inv w i)"
    and "GetPlayer (OnItemUse E sid req w) i =
      (if i = sid \<and> live w sid then heal (it_hp item) (GetPlayer w sid) else GetPlayer w i)"
    and "w_db (OnItemUse E sid req w) =
      spInventoryRemove (dbConn E) (sl_itemUid (get_slot (get_inv w sid) (unat (ciu_slot req)))) (w_db w)"
  using assms
  by (simp_all add: OnItemUse_def usable_def Let_def GetPlayer_upd_player RemoveItemFromDB_def
        split: option.split)

lemma OnItemUse_refused:
  assumes "\<And>item. usable E w sid (ciu_slot req) item \<Longrightarrow> it_type item \<noteq> ''consumable''"
  shows "OnItemUse E sid req w = ensure_inv sid w"
  using assms by (auto simp: OnItemUse_def usable_def Let_def not_le split: option.split)

lemma live_handlers_inv [simp]:
  "live (OnItemUse E sid req w) i \<longleftrightarrow> live w i" "live (OnItemEquip E sid req' w) i \<longleftrightarrow> live w i"
  "live (LoadInventory E sid w) i \<longleftrightarrow> live w i"
  by (simp_all add: OnItemUse_def OnItemEquip_def LoadInventory_def Let_def split: option.split prod.split)

lemma OnItemEquip_equipped:
  assumes "usable E w sid (cie_slot req) item" and "it_type item \<noteq> ''consumable''"
  shows "get_inv (OnItemEquip E sid req w) i = (if i = sid
      then (if it_type item = ''weapon'' then swap_weapon else swap_armor)
             (unat (cie_slot req)) (get_inv w sid) else get_inv w i)"
    and "GetPlayer (OnItemEquip E sid req w) i =
      (if i = sid \<and> live w sid
       then (if it_type item = ''weapon'' then (GetPlayer w sid)\<lparr>p_atk := 15 + it_atk item\<rparr>
             else (GetPlayer w sid)\<lparr>p_def := 5 + it_def item\<rparr>)
       else GetPlayer w i)"
  using assms
  by (simp_all add: OnItemEquip_def usable_def Let_def GetPlayer_upd_player not_le split: option.split)

lemma OnItemEquip_refused:
  assumes "\<And>item. usable E w sid (cie_slot req) item \<Longrightarrow> it_type item = ''consumable''"
  shows "get_inv (OnItemEquip E sid req w) = get_inv w" "GetPlayer (OnItemEquip E sid req w) = GetPlayer w"
    and "w_db (OnItemEquip E sid req w) = w_db w"
  using assms by (auto simp: OnItemEquip_def usable_def Let_def not_le fun_eq_iff split: option.split)

lemma get_inv_LoadInventory:
  "get_inv (LoadInventory E sid w) i = (if i = sid
     then loaded_inventory (fst (spInventoryLoad (dbConn E) (p_charUid (GetPlayer w sid)) (w_db w)))
     else get_inv w i)"
  by (simp add: LoadInventory_def Let_def split: option.split prod.split)

lemma OnItemUse_inventories_ok: "inventories_ok w \<Longrightarrow> inventories_ok (OnItemUse E sid req w)"
proof (cases "\<exists>item. usable E w sid (ciu_slot req) item \<and> it_type item = ''consumable''")
  case False
  then show "inventories_ok w \<Longrightarrow> ?thesis" using OnItemUse_refused [of E w sid req]
    by (simp add: inventories_ok_def)
qed (auto simp: inventories_ok_def OnItemUse_used(1))

lemma OnItemEquip_inventories_ok: "inventories_ok w \<Longrightarrow> inventories_ok (OnItemEquip E sid req w)"
proof (cases "\<exists>item. usable E w sid (cie_slot req) item \<and> it_type item \<noteq> ''consumable''")
  case False
  then show "inventories_ok w \<Longrightarrow> ?thesis" using OnItemEquip_refused(1) [of E w sid req]
    by (simp add: inventories_ok_def)
qed (auto simp: inventories_ok_def OnItemEquip_equipped(1))

lemma LoadInventory_inventories_ok: "inventories_ok w \<Longrightarrow> inventories_ok (LoadInventory E sid w)"
  by (simp add: inventories_ok_def get_inv_LoadInventory)

subsection \<open>Healing\<close>

lemma heal_le: "p_hp (heal a p) \<le> p_maxHp (heal a p)"
  by (simp add: heal_def)

lemma heal_exact:
  "unat (p_hp p) + unat a < 65536 \<Longrightarrow>
     unat (p_hp (heal a p)) = min (unat (p_hp p) + unat a) (unat (p_maxHp p))"
  by (simp add: heal_def min_def word_le_nat_alt unat_add_no_wrap)

subsection \<open>Equipping neither makes nor loses an item\<close>

definition all_items :: "Inventory \<Rightarrow> InvSlot multiset" where
  "all_items iv = mset (inv_slots iv) + {#weapon_slot iv, armor_slot iv#}"

lemma item_slot_self [simp]: "item_slot (sl_itemUid s) (sl_itemTid s) = s"
  by (simp add: item_slot_def)

lemma mset_set_slot:
  "inv_wf iv \<Longrightarrow> i < MAX_INVENTORY \<Longrightarrow>
     add_mset (get_slot iv i) (mset (inv_slots (set_slot i s iv))) = add_mset s (mset (inv_slots iv))"
  by (simp add: inv_wf_def set_slot_def get_slot_def mset_update)

lemma all_items_swap_weapon:
  assumes "inv_wf iv" and "i < MAX_INVENTORY"
  shows "all_items (swap_weapon i iv) = all_items iv"
proof -
  have "weapon_slot (swap_weapon i iv) = get_slot iv i" "armor_slot (swap_weapon i iv) = armor_slot iv"
    by (simp_all add: swap_weapon_def set_slot_def weapon_slot_def armor_slot_def)
  moreover have "inv_slots (swap_weapon i iv) = inv_slots (set_slot i (weapon_slot iv) iv)"
    by (simp add: swap_weapon_def set_slot_def)
  ultimately show ?thesis
    using mset_set_slot [OF assms, of "weapon_slot iv"]
    by (simp add: all_items_def add_mset_commute)
qed

lemma all_items_swap_armor:
  assumes "inv_wf iv" and "i < MAX_INVENTORY"
  shows "all_items (swap_armor i iv) = all_items iv"
proof -
  have "armor_slot (swap_armor i iv) = get_slot iv i" "weapon_slot (swap_armor i iv) = weapon_slot iv"
    by (simp_all add: swap_armor_def set_slot_def weapon_slot_def armor_slot_def)
  moreover have "inv_slots (swap_armor i iv) = inv_slots (set_slot i (armor_slot iv) iv)"
    by (simp add: swap_armor_def set_slot_def)
  ultimately show ?thesis
    using mset_set_slot [OF assms, of "armor_slot iv"]
    by (simp add: all_items_def add_mset_commute)
qed

lemma OnItemEquip_conserves:
  assumes "inventories_ok w"
  shows "all_items (get_inv (OnItemEquip E sid req w) i) = all_items (get_inv w i)"
proof (cases "\<exists>item. usable E w sid (cie_slot req) item \<and> it_type item \<noteq> ''consumable''")
  case True
  then obtain item where u: "usable E w sid (cie_slot req) item" "it_type item \<noteq> ''consumable''" by blast
  from u(1) have "unat (cie_slot req) < MAX_INVENTORY" by (simp add: usable_def)
  with assms show ?thesis
    by (simp add: OnItemEquip_equipped(1) [OF u] all_items_swap_weapon all_items_swap_armor)
next
  case False
  then show ?thesis using OnItemEquip_refused(1) [of E w sid req] by auto
qed

subsection \<open>What is loaded\<close>

lemma fill_slots_slots:
  assumes "inv_wf iv" and "n \<le> MAX_INVENTORY"
  shows "inv_slots (fill_slots n rows iv) = take n (inv_slots iv)
    @ map (\<lambda>(u, t). item_slot u (ucast t)) (take (MAX_INVENTORY - n) rows)
    @ drop (n + length rows) (inv_slots iv)"
  using assms
proof (induction n rows iv rule: fill_slots.induct)
  case (2 n u t rows iv)
  show ?case
  proof (cases "n < MAX_INVENTORY")
    case True
    with "2.prems" "2.IH" have "inv_slots (fill_slots n ((u, t) # rows) iv) =
        take (n + 1) (inv_slots (set_slot n (item_slot u (ucast t)) iv))
        @ map (\<lambda>(u, t). item_slot u (ucast t)) (take (MAX_INVENTORY - (n + 1)) rows)
        @ drop (n + 1 + length rows) (inv_slots (set_slot n (item_slot u (ucast t)) iv))"
      by simp
    moreover have "take (n + 1) (inv_slots (set_slot n (item_slot u (ucast t)) iv))
        = take n (inv_slots iv) @ [item_slot u (ucast t)]"
      using True "2.prems" by (simp add: set_slot_def inv_wf_def take_Suc_conv_app_nth)
    moreover have "MAX_INVENTORY - n = Suc (MAX_INVENTORY - (n + 1))" using True by simp
    ultimately show ?thesis by (simp add: set_slot_def)
  next
    case False
    with "2.prems" show ?thesis by (simp add: inv_wf_def)
  qed
qed simp

text \<open>The occupied slots whose item is known, and the entry each one gets.\<close>

definition shown_slots :: "'d env \<Rightarrow> Inventory \<Rightarrow> nat list \<Rightarrow> (nat \<times> ItemData) list" where
  "shown_slots E iv is = List.map_filter (\<lambda>i.
     if sl_itemTid (get_slot iv i) = 0 then None
     else map_option (Pair i) (FindItem E (sl_itemTid (get_slot iv i)))) is"

lemma shown_slots_simps [simp]:
  "shown_slots E iv [] = []"
  "shown_slots E iv (i # is) =
     (if sl_itemTid (get_slot iv i) = 0 then shown_slots E iv is
      else case FindItem E (sl_itemTid (get_slot iv i)) of
        None \<Rightarrow> shown_slots E iv is | Some item \<Rightarrow> (i, item) # shown_slots E iv is)"
  by (simp_all add: shown_slots_def List.map_filter_simps split: option.split)

lemma list_slot_loop:
  assumes "length (il_items l) = MAX_INVENTORY" and "unat (il_count l) + length is \<le> MAX_INVENTORY"
    and "r = fold (list_slot E iv) is l"
  shows "unat (il_count r) = unat (il_count l) + length (shown_slots E iv is)
    \<and> length (il_items r) = MAX_INVENTORY
    \<and> take (unat (il_count l) + length (shown_slots E iv is)) (il_items r) =
        take (unat (il_count l)) (il_items l) @ map (\<lambda>(i, item). inventory_entry i item) (shown_slots E iv is)"
  using assms
proof (induction "is" arbitrary: l)
  case (Cons i xs)
  have c: "unat (il_count l) < 20" using Cons.prems(2) by (simp add: MAX_INVENTORY_def)
  have suc: "unat (il_count l + 1) = Suc (unat (il_count l))"
    using c by (simp add: unat_add_no_wrap)
  show ?case
  proof (cases "sl_itemTid (get_slot iv i) = 0 \<or> FindItem E (sl_itemTid (get_slot iv i)) = None")
    case True
    then have "list_slot E iv i l = l" by (auto simp: list_slot_def split: option.split)
    with Cons.IH [of l] Cons.prems True show ?thesis by (auto split: option.split)
  next
    case False
    then obtain item where item: "FindItem E (sl_itemTid (get_slot iv i)) = Some item"
      and tid: "sl_itemTid (get_slot iv i) \<noteq> 0" by auto
    let ?l = "list_slot E iv i l"
    have step: "il_count ?l = il_count l + 1"
      "il_items ?l = (il_items l)[unat (il_count l) := inventory_entry i item]"
      using item tid by (simp_all add: list_slot_def)
    have "unat (il_count ?l) + length xs \<le> MAX_INVENTORY" using Cons.prems(2) suc step by simp
    with Cons.IH [of ?l] Cons.prems item tid suc step c show ?thesis
      by (simp add: take_Suc_conv_app_nth MAX_INVENTORY_def)
  qed
qed simp

lemma inventory_list_entries:
  "unat (il_count (inventory_list E iv)) = length (shown_slots E iv [0..<MAX_INVENTORY]) \<and>
   take (length (shown_slots E iv [0..<MAX_INVENTORY])) (il_items (inventory_list E iv)) =
     map (\<lambda>(i, item). inventory_entry i item) (shown_slots E iv [0..<MAX_INVENTORY])"
  using list_slot_loop [of "\<lparr>il_count = 0, il_items = replicate MAX_INVENTORY zero_SC_InventoryUpdate\<rparr>"
      "[0..<MAX_INVENTORY]" "inventory_list E iv" E iv]
  by (simp add: inventory_list_def)

subsection \<open>Granting an item\<close>

text \<open>
  What a kill's drop and a quest's reward do with an item id: an entry for the session, the
  first empty slot, the item's data, a database row, the slot and a message. Nothing happens
  when no slot is free or the item is unknown.
\<close>

definition new_item_uid :: "'d env \<Rightarrow> u64 \<Rightarrow> u16 \<Rightarrow> 'd \<Rightarrow> u64" where
  "new_item_uid E charUid tid db =
     (case fst (spInventoryAdd (dbConn E) charUid tid db) of Some (uid # _) \<Rightarrow> uid | _ \<Rightarrow> 0)"

lemma AddItemToDB_eq:
  "AddItemToDB E c t w = (new_item_uid E c t (w_db w), w\<lparr>w_db := snd (spInventoryAdd (dbConn E) c t (w_db w))\<rparr>)"
  by (simp add: AddItemToDB_def new_item_uid_def split: prod.split)

definition grant_item :: "'d env \<Rightarrow> SessionId \<Rightarrow> u16 \<Rightarrow> 'd world \<Rightarrow> 'd world" where
  "grant_item E sid tid w =
     (let w1 = ensure_inv sid w; iv = get_inv w1 sid in
      case FindEmptySlot iv of
        None \<Rightarrow> w1
      | Some slot \<Rightarrow>
          case FindItem E tid of
            None \<Rightarrow> w1
          | Some item \<Rightarrow>
              let (newUid, w2) = AddItemToDB E (p_charUid (GetPlayer w1 sid)) tid w1;
                  w3 = set_inv sid (set_slot slot (item_slot newUid tid) iv) w2
              in Send sid (P_ItemDrop \<lparr>idr_slot = word_of_nat slot, idr_itemId = it_id item,
                   idr_itemName = ncopy 31 (it_name item)\<rparr>) w3)"

lemma grant_item_frame [simp, frame]:
  "w_sessions (grant_item E sid tid w) = w_sessions w"
  "w_nextSessionId (grant_item E sid tid w) = w_nextSessionId w"
  "w_npcs (grant_item E sid tid w) = w_npcs w"
  "w_nextNpcUid (grant_item E sid tid w) = w_nextNpcUid w"
  "w_questProgress (grant_item E sid tid w) = w_questProgress w"
  "w_nextPartyId (grant_item E sid tid w) = w_nextPartyId w"
  "w_parties (grant_item E sid tid w) = w_parties w"
  "w_playerParty (grant_item E sid tid w) = w_playerParty w"
  "w_pendingInvites (grant_item E sid tid w) = w_pendingInvites w"
  "w_rand (grant_item E sid tid w) = w_rand w"
  by (simp_all add: grant_item_def Let_def AddItemToDB_eq split: option.split)

lemma grant_item_sessions [simp]:
  "GetPlayer (grant_item E sid tid w) = GetPlayer w" "live (grant_item E sid tid w) = live w"
  by (rule sessions_cong, simp)+

lemma get_inv_grant_item:
  "get_inv (grant_item E sid tid w) i =
     (case FindEmptySlot (get_inv w sid) of
        Some slot \<Rightarrow> if i = sid \<and> FindItem E tid \<noteq> None
          then set_slot slot (item_slot (new_item_uid E (p_charUid (GetPlayer w sid)) tid (w_db w)) tid)
                 (get_inv w sid)
          else get_inv w i
      | None \<Rightarrow> get_inv w i)"
  by (auto simp: grant_item_def Let_def AddItemToDB_eq split: option.split)

lemma grant_item_inventories_ok: "inventories_ok w \<Longrightarrow> inventories_ok (grant_item E sid tid w)"
  by (simp add: inventories_ok_def get_inv_grant_item split: option.split)

subsection \<open>Players after using, equipping and loading\<close>

lemma player_ok_heal: "player_ok p \<Longrightarrow> player_ok (heal a p)"
  by (simp add: player_ok_def heal_def on_map_def)

lemma OnItemUse_players_ok: "players_ok w \<Longrightarrow> players_ok (OnItemUse E sid req w)"
proof (cases "\<exists>item. usable E w sid (ciu_slot req) item \<and> it_type item = ''consumable''")
  case False
  then show "players_ok w \<Longrightarrow> ?thesis" using OnItemUse_refused [of E w sid req]
    by (simp add: players_ok_def)
qed (auto simp: players_ok_def OnItemUse_used(2) player_ok_heal)

lemma OnItemEquip_players_ok: "players_ok w \<Longrightarrow> players_ok (OnItemEquip E sid req w)"
proof (cases "\<exists>item. usable E w sid (cie_slot req) item \<and> it_type item \<noteq> ''consumable''")
  case False
  then show "players_ok w \<Longrightarrow> ?thesis" using OnItemEquip_refused(2) [of E w sid req]
    by (simp add: players_ok_def)
qed (auto simp: players_ok_def OnItemEquip_equipped(2) player_ok_def on_map_def)

lemma LoadInventory_players_ok: "players_ok w \<Longrightarrow> players_ok (LoadInventory E sid w)"
  by (auto simp: players_ok_def LoadInventory_def Let_def GetPlayer_upd_player player_ok_def on_map_def
      split: option.split prod.split)

subsection \<open>Properties\<close>

lemma sample_bag: "get_inv sample_world 1 = sample_inventory" "get_inv sample_world 2 = new_inventory"
  by (simp_all add: get_inv_def om_get_def sample_world_def)

lemma sample_inventory_wf: "inv_wf sample_inventory"
  by (simp add: inv_wf_def sample_inventory_def sample_slots_def MAX_INVENTORY_def)

lemma sample_inventories: "inventories_ok sample_world"
  using sample_inventory_wf by (simp add: inventories_ok_def get_inv_def om_get_def sample_world_def)

lemma sample_slot: "get_slot sample_inventory 0 = \<lparr>sl_itemUid = 11, sl_itemTid = 1\<rparr>"
  "get_slot sample_inventory (Suc 0) = \<lparr>sl_itemUid = 12, sl_itemTid = 5\<rparr>"
  by (simp_all add: get_slot_def sample_inventory_def sample_slots_def)

lemma sample_free_slot: "FindEmptySlot (get_inv sample_world 1) = Some 2"
  by (simp add: FindEmptySlot_def sample_bag sample_inventory_def sample_slots_def MAX_INVENTORY_def empty_slot_def
      upt_rec)

lemma sample_usable: "usable sample_env sample_world 1 1 (sample_item 5 ''HP Potion'' ''consumable'' 0 0 50 30)"
  by (simp add: usable_def sample_bag sample_slot MAX_INVENTORY_def)

text \<open>C32: Equipping neither creates nor loses an item: the multiset of a session's slots and equipped
  items is the same after \<open>OnItemEquip\<close>, whatever slot and item the client names.\<close>

theorem equip_conserves_items:
  assumes "inventories_ok w"
  shows "all_items (get_inv (OnItemEquip E sid req w) i) = all_items (get_inv w i)"
  using assms by (rule OnItemEquip_conserves)

theorem equip_conserves_items_witness:
  "all_items (get_inv (OnItemEquip sample_env 1 \<lparr>cie_slot = 0\<rparr> sample_world) 1) = all_items sample_inventory"
  using equip_conserves_items [OF sample_inventories] by (simp add: sample_bag)

text \<open>Using a consumable heals by its points up to the maximum (when the 16-bit sum does not wrap),
  frees exactly its slot, and deletes exactly its database row.\<close>

theorem item_use_effect:
  assumes "usable E w sid (ciu_slot req) item" and "it_type item = ''consumable''" and "live w sid"
    and "inventories_ok w" and "unat (p_hp (GetPlayer w sid)) + unat (it_hp item) < 65536"
  shows "unat (p_hp (GetPlayer (OnItemUse E sid req w) sid)) =
      min (unat (p_hp (GetPlayer w sid)) + unat (it_hp item)) (unat (p_maxHp (GetPlayer w sid))) \<and>
    bag.occupied (get_inv (OnItemUse E sid req w) sid) = bag.occupied (get_inv w sid) - {unat (ciu_slot req)} \<and>
    w_db (OnItemUse E sid req w) =
      spInventoryRemove (dbConn E) (sl_itemUid (get_slot (get_inv w sid) (unat (ciu_slot req)))) (w_db w)"
proof -
  have slot: "unat (ciu_slot req) < MAX_INVENTORY" using assms(1) by (simp add: usable_def)
  have "inv_wf (get_inv w sid)" using assms(4) by simp
  from bag.clear_slot [OF this slot, of empty_slot] show ?thesis
    using assms(3,5) by (simp add: OnItemUse_used [OF assms(1,2)] heal_exact empty_slot_def)
qed

theorem item_use_effect_witness:
  "unat (p_hp (GetPlayer (OnItemUse sample_env 1 \<lparr>ciu_slot = 1\<rparr> sample_world) 1)) = 90"
  using item_use_effect [of sample_env sample_world 1 "\<lparr>ciu_slot = 1\<rparr>", simplified, OF sample_usable _ sample_inventories]
  by (simp add: sample_item_def sample_player_def new_player_def)

text \<open>The bulk inventory message lists exactly the occupied slots whose item is known, in slot
  order, each with its slot number, item id and name, and its count is their number.\<close>

theorem inventory_message:
  "unat (il_count (inventory_list E iv)) = length (shown_slots E iv [0..<MAX_INVENTORY]) \<and>
   take (length (shown_slots E iv [0..<MAX_INVENTORY])) (il_items (inventory_list E iv)) =
     map (\<lambda>(i, item). inventory_entry i item) (shown_slots E iv [0..<MAX_INVENTORY])"
  by (rule inventory_list_entries)

lemma found_slot_stores:
  assumes "inv_wf iv" and "FindEmptySlot iv = Some slot" and "tid \<noteq> 0"
  shows "sl_itemTid (get_slot (set_slot slot (item_slot uid tid) iv) slot) = tid"
    "card (bag.occupied (set_slot slot (item_slot uid tid) iv)) = Suc (card (bag.occupied iv))"
  using assms FindEmptySlot_Some [OF assms(2)]
    bag.store_found_card [OF assms(1,2), of "item_slot uid tid"]
  by (simp_all add: item_slot_def set_slot_def get_slot_def inv_wf_def)

end
