(* ===== verification/Party.thy ===== *)
theory Party
  imports Inventory
begin

text \<open>
  Parties of \<open>GameServer/main.cpp\<close>: invitations, joining, leaving, and what the members are
  told. The state is \<open>g_parties\<close> (members by party), \<open>g_playerParty\<close> (party by session) and
  \<open>g_pendingInvites\<close> (inviter by invited session). The abstract view is the function from
  sessions to parties; leaving refines its \<open>leave\<close>. \<open>OnPartyAccept\<close> does not look whether
  the one who accepts is in a party already, so the two maps can disagree; what holds all the
  same, and what the kill reward's division relies on, is that whoever has a party is a member
  of it.
\<close>

subsection \<open>Messages\<close>

definition send_each :: "SessionId list \<Rightarrow> sc_packet \<Rightarrow> 'd world \<Rightarrow> 'd world" where
  "send_each mids p w = fold (\<lambda>mid. Send mid p) mids w"

definition party_member :: "'d world \<Rightarrow> SessionId \<Rightarrow> SC_PartyMember" where
  "party_member w mid = (case GetSession w mid of
     None \<Rightarrow> zero_SC_PartyMember
   | Some s \<Rightarrow> (let p = s_player s in
       \<lparr>pm_charUid = p_charUid p, pm_name = ncopy 19 (p_name p), pm_hp = p_hp p,
        pm_maxHp = p_maxHp p, pm_posX = p_posX p, pm_posY = p_posY p\<rparr>))"

definition party_update :: "'d world \<Rightarrow> Party \<Rightarrow> SC_PartyUpdate" where
  "party_update w party = \<lparr>pu_memberCount = word_of_nat (length (pt_members party)),
     pu_members = map (party_member w) (take MAX_PARTY (pt_members party))
       @ replicate (MAX_PARTY - length (pt_members party)) zero_SC_PartyMember\<rparr>"

definition SendPartyUpdate :: "u32 \<Rightarrow> 'd world \<Rightarrow> 'd world" where
  "SendPartyUpdate partyId w = (case map_of (w_parties w) partyId of
     None \<Rightarrow> w
   | Some party \<Rightarrow> send_each (pt_members party) (P_PartyUpdate (party_update w party)) w)"

subsection \<open>Leaving\<close>

definition RemoveFromParty :: "SessionId \<Rightarrow> 'd world \<Rightarrow> 'd world" where
  "RemoveFromParty sid w = (case map_of (w_playerParty w) sid of
     None \<Rightarrow> w
   | Some partyId \<Rightarrow>
       let w1 = w\<lparr>w_playerParty := om_erase sid (w_playerParty w)\<rparr> in
       case map_of (w_parties w1) partyId of
         None \<Rightarrow> w1
       | Some party \<Rightarrow>
           let members = removeAll sid (pt_members party);
               w2 = w1\<lparr>w_parties := om_put partyId (party\<lparr>pt_members := members\<rparr>) (w_parties w1)\<rparr>;
               charUid = (case GetSession w2 sid of None \<Rightarrow> 0 | Some s \<Rightarrow> p_charUid (s_player s));
               w3 = send_each members (P_PartyLeave \<lparr>pl_charUid = charUid\<rparr>) w2
           in if length members \<le> 1
              then
                let w4 = w3\<lparr>w_playerParty := fold om_erase members (w_playerParty w3)\<rparr>;
                    w5 = (case members of [] \<Rightarrow> w4
                          | mid # _ \<Rightarrow> Send mid (P_PartyLeave \<lparr>pl_charUid = 0\<rparr>) w4)
                in w5\<lparr>w_parties := om_erase partyId (w_parties w5)\<rparr>
              else SendPartyUpdate partyId w3)"

definition OnPartyLeave :: "SessionId \<Rightarrow> 'd world \<Rightarrow> 'd world" where
  "OnPartyLeave sid w = RemoveFromParty sid w"

subsection \<open>Inviting\<close>

text \<open>\<open>ForEach\<close> keeps the last session whose name matches.\<close>

definition find_target :: "'d world \<Rightarrow> string \<Rightarrow> SessionId option" where
  "find_target w targetName = fold (\<lambda>(oid, other) target.
     if strncmp_eq (p_name (s_player other)) targetName 20 then Some oid else target)
     (w_sessions w) None"

definition party_error :: "SessionId \<Rightarrow> string \<Rightarrow> 'd world \<Rightarrow> 'd world" where
  "party_error sid message w = Send sid (P_Error \<lparr>er_errorCode = 4, er_message = message\<rparr>) w"

text \<open>\<open>g_parties[partyId]\<close> as a reference.\<close>

definition ensure_party :: "u32 \<Rightarrow> 'd world \<Rightarrow> 'd world" where
  "ensure_party partyId w = w\<lparr>w_parties := om_ensure new_party partyId (w_parties w)\<rparr>"

definition get_party :: "'d world \<Rightarrow> u32 \<Rightarrow> Party" where
  "get_party w partyId = om_get new_party partyId (w_parties w)"

text \<open>
  The body of \<open>OnPartyInvite\<close>, with whether it came to its end; there the invited name is printed
  from the packet.
\<close>

definition try_invite :: "SessionId \<Rightarrow> CS_PartyInvite \<Rightarrow> 'd world \<Rightarrow> bool \<times> 'd world" where
  "try_invite sid req w0 =
     (let w = (case map_of (w_playerParty w0) sid of None \<Rightarrow> w0 | Some p \<Rightarrow> ensure_party p w0);
          full = (case map_of (w_playerParty w) sid of None \<Rightarrow> False
                  | Some p \<Rightarrow> MAX_PARTY \<le> length (pt_members (get_party w p)))
      in if full then (False, party_error sid ''Party is full'' w)
         else case find_target w (cpi_targetName req) of
           None \<Rightarrow> (False, party_error sid ''Player not found'' w)
         | Some target \<Rightarrow>
             if target = sid then (False, party_error sid ''Player not found'' w)
             else if map_of (w_playerParty w) target \<noteq> None
             then (False, party_error sid ''Already in a party'' w)
             else
               let w1 = w\<lparr>w_pendingInvites := om_put target sid (w_pendingInvites w)\<rparr>
               in (True, Send target (P_PartyInvite \<lparr>spi_inviterName = ncopy 19 (p_name (GetPlayer w1 sid))\<rparr>) w1))"

definition OnPartyInvite :: "SessionId \<Rightarrow> CS_PartyInvite \<Rightarrow> 'd world \<Rightarrow> 'd world result" where
  "OnPartyInvite sid req w = (case try_invite sid req w of
     (invited, w1) \<Rightarrow> c_print (if invited then [cpi_targetName req] else []) w1)"

lemma OnPartyInvite_iff [simp]:
  "OnPartyInvite sid req w = Inr w' \<longleftrightarrow>
     (fst (try_invite sid req w) \<longrightarrow> terminated (cpi_targetName req)) \<and> w' = snd (try_invite sid req w)"
  "OnPartyInvite sid req w = Inl c \<longleftrightarrow>
     fst (try_invite sid req w) \<and> \<not> terminated (cpi_targetName req) \<and> c = Unterminated"
  by (auto simp: OnPartyInvite_def split: prod.split)


subsection \<open>Accepting\<close>

text \<open>The inviter's party, created when there is none.\<close>

definition inviter_party :: "SessionId \<Rightarrow> 'd world \<Rightarrow> u32 \<times> 'd world" where
  "inviter_party inviterId w = (case map_of (w_playerParty w) inviterId of
     Some partyId \<Rightarrow> (partyId, w)
   | None \<Rightarrow>
       let partyId = w_nextPartyId w;
           party = get_party w partyId
       in (partyId, w\<lparr>w_nextPartyId := w_nextPartyId w + 1,
             w_parties := om_put partyId (party\<lparr>pt_id := partyId,
               pt_members := pt_members party @ [inviterId]\<rparr>) (w_parties w),
             w_playerParty := om_put inviterId partyId (w_playerParty w)\<rparr>))"

definition OnPartyAccept :: "SessionId \<Rightarrow> CS_PartyAccept \<Rightarrow> 'd world \<Rightarrow> 'd world" where
  "OnPartyAccept sid req w = (case map_of (w_pendingInvites w) sid of
     None \<Rightarrow> w
   | Some inviterId \<Rightarrow>
       let w1 = w\<lparr>w_pendingInvites := om_erase sid (w_pendingInvites w)\<rparr> in
       if pa_accept req = 0 then w1
       else if GetSession w1 inviterId = None then w1
       else
         let (partyId, w2) = inviter_party inviterId w1;
             w3 = ensure_party partyId w2;
             party = get_party w3 partyId
         in if MAX_PARTY \<le> length (pt_members party) then w3
            else
              let w4 = w3\<lparr>w_parties := om_put partyId
                         (party\<lparr>pt_members := pt_members party @ [sid]\<rparr>) (w_parties w3),
                         w_playerParty := om_put sid partyId (w_playerParty w3)\<rparr>
              in SendPartyUpdate partyId w4)"

subsection \<open>Frames\<close>

lemma send_each_frame [simp, frame]:
  "w_sessions (send_each mids p w) = w_sessions w"
  "w_nextSessionId (send_each mids p w) = w_nextSessionId w"
  "w_npcs (send_each mids p w) = w_npcs w" "w_nextNpcUid (send_each mids p w) = w_nextNpcUid w"
  "w_questProgress (send_each mids p w) = w_questProgress w"
  "w_nextPartyId (send_each mids p w) = w_nextPartyId w"
  "w_parties (send_each mids p w) = w_parties w"
  "w_playerParty (send_each mids p w) = w_playerParty w"
  "w_pendingInvites (send_each mids p w) = w_pendingInvites w"
  "w_inventories (send_each mids p w) = w_inventories w" "w_rand (send_each mids p w) = w_rand w"
  "w_db (send_each mids p w) = w_db w"
  by (simp_all add: send_each_def fold_keeps)

lemma SendPartyUpdate_frame [simp, frame]:
  "w_sessions (SendPartyUpdate pid w) = w_sessions w"
  "w_nextSessionId (SendPartyUpdate pid w) = w_nextSessionId w"
  "w_npcs (SendPartyUpdate pid w) = w_npcs w"
  "w_nextNpcUid (SendPartyUpdate pid w) = w_nextNpcUid w"
  "w_questProgress (SendPartyUpdate pid w) = w_questProgress w"
  "w_nextPartyId (SendPartyUpdate pid w) = w_nextPartyId w"
  "w_parties (SendPartyUpdate pid w) = w_parties w"
  "w_playerParty (SendPartyUpdate pid w) = w_playerParty w"
  "w_pendingInvites (SendPartyUpdate pid w) = w_pendingInvites w"
  "w_inventories (SendPartyUpdate pid w) = w_inventories w"
  "w_rand (SendPartyUpdate pid w) = w_rand w" "w_db (SendPartyUpdate pid w) = w_db w"
  by (simp_all add: SendPartyUpdate_def split: option.split)

lemma RemoveFromParty_frame [simp, frame]:
  "w_sessions (RemoveFromParty sid w) = w_sessions w"
  "w_nextSessionId (RemoveFromParty sid w) = w_nextSessionId w"
  "w_npcs (RemoveFromParty sid w) = w_npcs w"
  "w_nextNpcUid (RemoveFromParty sid w) = w_nextNpcUid w"
  "w_questProgress (RemoveFromParty sid w) = w_questProgress w"
  "w_nextPartyId (RemoveFromParty sid w) = w_nextPartyId w"
  "w_pendingInvites (RemoveFromParty sid w) = w_pendingInvites w"
  "w_inventories (RemoveFromParty sid w) = w_inventories w"
  "w_rand (RemoveFromParty sid w) = w_rand w" "w_db (RemoveFromParty sid w) = w_db w"
  by (simp_all add: RemoveFromParty_def Let_def split: option.split list.split)

lemma OnPartyLeave_frame [simp, frame]:
  "w_sessions (OnPartyLeave sid w) = w_sessions w"
  "w_nextSessionId (OnPartyLeave sid w) = w_nextSessionId w"
  "w_npcs (OnPartyLeave sid w) = w_npcs w" "w_nextNpcUid (OnPartyLeave sid w) = w_nextNpcUid w"
  "w_questProgress (OnPartyLeave sid w) = w_questProgress w"
  "w_nextPartyId (OnPartyLeave sid w) = w_nextPartyId w"
  "w_pendingInvites (OnPartyLeave sid w) = w_pendingInvites w"
  "w_inventories (OnPartyLeave sid w) = w_inventories w" "w_rand (OnPartyLeave sid w) = w_rand w"
  "w_db (OnPartyLeave sid w) = w_db w"
  by (simp_all add: OnPartyLeave_def)

lemma ensure_party_frame [simp, frame]:
  "w_sessions (ensure_party pid w) = w_sessions w"
  "w_nextSessionId (ensure_party pid w) = w_nextSessionId w"
  "w_npcs (ensure_party pid w) = w_npcs w" "w_nextNpcUid (ensure_party pid w) = w_nextNpcUid w"
  "w_questProgress (ensure_party pid w) = w_questProgress w"
  "w_nextPartyId (ensure_party pid w) = w_nextPartyId w"
  "w_playerParty (ensure_party pid w) = w_playerParty w"
  "w_pendingInvites (ensure_party pid w) = w_pendingInvites w"
  "w_inventories (ensure_party pid w) = w_inventories w" "w_rand (ensure_party pid w) = w_rand w"
  "w_db (ensure_party pid w) = w_db w" "w_out (ensure_party pid w) = w_out w"
  by (simp_all add: ensure_party_def)

lemma party_error_frame [simp, frame]:
  "w_sessions (party_error sid m w) = w_sessions w"
  "w_nextSessionId (party_error sid m w) = w_nextSessionId w"
  "w_npcs (party_error sid m w) = w_npcs w" "w_nextNpcUid (party_error sid m w) = w_nextNpcUid w"
  "w_questProgress (party_error sid m w) = w_questProgress w"
  "w_nextPartyId (party_error sid m w) = w_nextPartyId w"
  "w_parties (party_error sid m w) = w_parties w"
  "w_playerParty (party_error sid m w) = w_playerParty w"
  "w_pendingInvites (party_error sid m w) = w_pendingInvites w"
  "w_inventories (party_error sid m w) = w_inventories w"
  "w_rand (party_error sid m w) = w_rand w" "w_db (party_error sid m w) = w_db w"
  by (simp_all add: party_error_def)

lemma try_invite_frame [simp, frame]:
  "w_sessions (snd (try_invite sid req w)) = w_sessions w"
  "w_nextSessionId (snd (try_invite sid req w)) = w_nextSessionId w"
  "w_npcs (snd (try_invite sid req w)) = w_npcs w"
  "w_nextNpcUid (snd (try_invite sid req w)) = w_nextNpcUid w"
  "w_questProgress (snd (try_invite sid req w)) = w_questProgress w"
  "w_nextPartyId (snd (try_invite sid req w)) = w_nextPartyId w"
  "w_playerParty (snd (try_invite sid req w)) = w_playerParty w"
  "w_inventories (snd (try_invite sid req w)) = w_inventories w"
  "w_rand (snd (try_invite sid req w)) = w_rand w" "w_db (snd (try_invite sid req w)) = w_db w"
  by (simp_all add: try_invite_def Let_def split: option.split)

lemma inviter_party_frame [simp, frame]:
  "w_sessions (snd (inviter_party i w)) = w_sessions w"
  "w_nextSessionId (snd (inviter_party i w)) = w_nextSessionId w"
  "w_npcs (snd (inviter_party i w)) = w_npcs w"
  "w_nextNpcUid (snd (inviter_party i w)) = w_nextNpcUid w"
  "w_questProgress (snd (inviter_party i w)) = w_questProgress w"
  "w_pendingInvites (snd (inviter_party i w)) = w_pendingInvites w"
  "w_inventories (snd (inviter_party i w)) = w_inventories w"
  "w_rand (snd (inviter_party i w)) = w_rand w" "w_db (snd (inviter_party i w)) = w_db w"
  "w_out (snd (inviter_party i w)) = w_out w"
  by (simp_all add: inviter_party_def Let_def split: option.split)

lemma OnPartyAccept_frame [simp, frame]:
  "w_sessions (OnPartyAccept sid req w) = w_sessions w"
  "w_nextSessionId (OnPartyAccept sid req w) = w_nextSessionId w"
  "w_npcs (OnPartyAccept sid req w) = w_npcs w"
  "w_nextNpcUid (OnPartyAccept sid req w) = w_nextNpcUid w"
  "w_questProgress (OnPartyAccept sid req w) = w_questProgress w"
  "w_inventories (OnPartyAccept sid req w) = w_inventories w"
  "w_rand (OnPartyAccept sid req w) = w_rand w" "w_db (OnPartyAccept sid req w) = w_db w"
  by (simp_all add: OnPartyAccept_def Let_def case_prod_beta split: option.split)

lemma party_ops_sessions [simp]:
  "GetPlayer (RemoveFromParty sid w) = GetPlayer w" "live (RemoveFromParty sid w) = live w"
  "GetPlayer (OnPartyLeave sid w) = GetPlayer w" "live (OnPartyLeave sid w) = live w"
  "GetPlayer (snd (try_invite sid ri w)) = GetPlayer w" "live (snd (try_invite sid ri w)) = live w"
  "GetPlayer (OnPartyAccept sid ra w) = GetPlayer w" "live (OnPartyAccept sid ra w) = live w"
  by (rule sessions_cong, simp)+

subsection \<open>The two maps\<close>

definition party_of :: "'d world \<Rightarrow> SessionId \<Rightarrow> u32 option" where
  "party_of w = map_of (w_playerParty w)"

definition party_at :: "'d world \<Rightarrow> u32 \<Rightarrow> SessionId list option" where
  "party_at w p = map_option pt_members (map_of (w_parties w) p)"

lemma get_party_members:
  "pt_members (get_party w p) = (case party_at w p of None \<Rightarrow> [] | Some ms \<Rightarrow> ms)"
  by (simp add: get_party_def party_at_def om_get_def new_party_def split: option.split)

lemma map_of_fold_erase:
  "map_of (fold om_erase ks m) i = (if i \<in> set ks then None else map_of m i)"
  by (induction ks arbitrary: m) auto

lemma party_maps_update:
  "party_of (w\<lparr>w_playerParty := m\<rparr>) = map_of m" "party_of (w\<lparr>w_parties := ps\<rparr>) = party_of w"
  "party_at (w\<lparr>w_playerParty := m\<rparr>) = party_at w"
  "party_at (w\<lparr>w_parties := om_put p party ps\<rparr>) = (party_at (w\<lparr>w_parties := ps\<rparr>))(p \<mapsto> pt_members party)"
  "party_at (w\<lparr>w_parties := om_erase p ps\<rparr>) = (party_at (w\<lparr>w_parties := ps\<rparr>))(p := None)"
  by (auto simp: party_of_def party_at_def fun_eq_iff)

lemma party_maps_cong:
  "w_playerParty w = w_playerParty w' \<Longrightarrow> party_of w = party_of w'"
  "w_parties w = w_parties w' \<Longrightarrow> party_at w = party_at w'"
  by (auto simp: party_of_def party_at_def fun_eq_iff)

lemma party_maps_same [simp]:
  "party_of (Send i x w) = party_of w" "party_at (Send i x w) = party_at w"
  "party_of (send_each is x w) = party_of w" "party_at (send_each is x w) = party_at w"
  "party_of (SendPartyUpdate p w) = party_of w" "party_at (SendPartyUpdate p w) = party_at w"
  "party_of (party_error i m w) = party_of w" "party_at (party_error i m w) = party_at w"
  "party_of (w\<lparr>w_pendingInvites := pi\<rparr>) = party_of w" "party_at (w\<lparr>w_pendingInvites := pi\<rparr>) = party_at w"
  "party_of (w\<lparr>w_nextPartyId := n\<rparr>) = party_of w" "party_at (w\<lparr>w_nextPartyId := n\<rparr>) = party_at w"
  by (rule party_maps_cong, simp)+

lemma RemoveFromParty_maps:
  assumes "party_of w sid = Some p" and "party_at w p = Some ms" and "removeAll sid ms = rest"
  shows "party_of (RemoveFromParty sid w) i =
      (if i = sid \<or> length rest \<le> 1 \<and> i \<in> set rest then None else party_of w i)"
    and "party_at (RemoveFromParty sid w) q =
      (if q = p then if length rest \<le> 1 then None else Some rest else party_at w q)"
proof -
  obtain party where party: "map_of (w_parties w) p = Some party" "pt_members party = ms"
    using assms(2) by (auto simp: party_at_def)
  have pp: "map_of (w_playerParty w) sid = Some p" using assms(1) by (simp add: party_of_def)
  show "party_of (RemoveFromParty sid w) i =
      (if i = sid \<or> length rest \<le> 1 \<and> i \<in> set rest then None else party_of w i)"
    using assms(3) arg_cong [OF assms(3), of set]
    by (cases rest) (auto simp: RemoveFromParty_def pp party Let_def party_of_def map_of_fold_erase)
  show "party_at (RemoveFromParty sid w) q =
      (if q = p then if length rest \<le> 1 then None else Some rest else party_at w q)"
    using assms(3) by (cases rest) (simp_all add: RemoveFromParty_def pp party Let_def party_at_def)
qed

lemma RemoveFromParty_none: "party_of w sid = None \<Longrightarrow> RemoveFromParty sid w = w"
  by (simp add: RemoveFromParty_def party_of_def)

lemma ensure_party_maps [simp]:
  "party_of (ensure_party p w) = party_of w"
  "party_at (ensure_party p w) q = (if q = p \<and> party_at w p = None then Some [] else party_at w q)"
  by (auto simp: ensure_party_def party_of_def party_at_def om_get_def new_party_def split: option.split)

lemma try_invite_maps:
  assumes "\<And>p. party_of w sid = Some p \<Longrightarrow> party_at w p \<noteq> None"
  shows "party_of (snd (try_invite sid req w)) = party_of w" "party_at (snd (try_invite sid req w)) = party_at w"
proof -
  show "party_of (snd (try_invite sid req w)) = party_of w"
    by (simp add: try_invite_def Let_def split: option.split)
  show "party_at (snd (try_invite sid req w)) = party_at w"
    using assms by (auto simp: try_invite_def Let_def fun_eq_iff party_of_def split: option.split)
qed

text \<open>The party the inviter ends up in, its members at that moment, and whether it takes one more.\<close>

definition host_party :: "'d world \<Rightarrow> SessionId \<Rightarrow> u32" where
  "host_party w inviterId = (case party_of w inviterId of Some p \<Rightarrow> p | None \<Rightarrow> w_nextPartyId w)"

definition host_members :: "'d world \<Rightarrow> SessionId \<Rightarrow> SessionId list" where
  "host_members w inviterId =
     (let ms = (case party_at w (host_party w inviterId) of None \<Rightarrow> [] | Some ms \<Rightarrow> ms)
      in case party_of w inviterId of Some p \<Rightarrow> ms | None \<Rightarrow> ms @ [inviterId])"

definition accepts :: "'d world \<Rightarrow> SessionId \<Rightarrow> CS_PartyAccept \<Rightarrow> SessionId \<Rightarrow> bool" where
  "accepts w sid req inviterId \<longleftrightarrow> map_of (w_pendingInvites w) sid = Some inviterId \<and>
     pa_accept req \<noteq> 0 \<and> live w inviterId"

lemma inviter_party_maps:
  "fst (inviter_party i w) = host_party w i"
  "party_of (snd (inviter_party i w)) = (party_of w)(i \<mapsto> host_party w i)"
  "party_of w i = None \<Longrightarrow>
     party_at (snd (inviter_party i w)) = (party_at w)(host_party w i \<mapsto> host_members w i)"
  "party_of w i = Some p \<Longrightarrow> snd (inviter_party i w) = w"
proof -
  show "fst (inviter_party i w) = host_party w i"
    by (simp add: inviter_party_def host_party_def party_of_def Let_def split: option.split)
  show "party_of (snd (inviter_party i w)) = (party_of w)(i \<mapsto> host_party w i)"
    by (cases "party_of w i") (auto simp: inviter_party_def host_party_def party_of_def Let_def fun_eq_iff)
  show "party_at (snd (inviter_party i w)) = (party_at w)(host_party w i \<mapsto> host_members w i)"
    if "party_of w i = None"
    using that by (auto simp: inviter_party_def host_party_def host_members_def party_of_def party_at_def
        get_party_def om_get_def new_party_def Let_def fun_eq_iff split: option.split)
  show "snd (inviter_party i w) = w" if "party_of w i = Some p"
    using that by (simp add: inviter_party_def party_of_def)
qed

lemma host_same [simp]:
  "host_party (w\<lparr>w_pendingInvites := x\<rparr>) i = host_party w i"
  "host_members (w\<lparr>w_pendingInvites := x\<rparr>) i = host_members w i"
  by (simp_all add: host_party_def host_members_def split: option.split)

lemma OnPartyAccept_eq:
  assumes "accepts w sid req inviterId"
  shows "OnPartyAccept sid req w =
     (let w1 = w\<lparr>w_pendingInvites := om_erase sid (w_pendingInvites w)\<rparr>;
          partyId = host_party w inviterId;
          w3 = ensure_party partyId (snd (inviter_party inviterId w1));
          party = get_party w3 partyId
      in if MAX_PARTY \<le> length (pt_members party) then w3
         else SendPartyUpdate partyId (w3\<lparr>
                w_parties := om_put partyId (party\<lparr>pt_members := pt_members party @ [sid]\<rparr>) (w_parties w3),
                w_playerParty := om_put sid partyId (w_playerParty w3)\<rparr>))"
  using assms
  by (auto simp: OnPartyAccept_def accepts_def live_def GetSession_def Let_def case_prod_beta
      inviter_party_maps(1))

lemma host_members_at:
  "party_of w i = Some p \<Longrightarrow> host_members w i = (case party_at w p of None \<Rightarrow> [] | Some ms \<Rightarrow> ms)"
  by (simp add: host_members_def host_party_def)

lemma accept_maps_full:
  assumes "w1 = w\<lparr>w_pendingInvites := x\<rparr>"
    and "w3 = ensure_party (host_party w i) (snd (inviter_party i w1))"
  shows "party_of w3 = (party_of w)(i \<mapsto> host_party w i)"
    and "party_at w3 = (party_at w)(host_party w i \<mapsto> host_members w i)"
proof -
  show "party_of w3 = (party_of w)(i \<mapsto> host_party w i)"
    using assms by (simp add: inviter_party_maps(2))
  show "party_at w3 = (party_at w)(host_party w i \<mapsto> host_members w i)"
  proof (cases "party_of w i")
    case None
    then show ?thesis using assms by (simp add: inviter_party_maps(3) fun_eq_iff)
  next
    case (Some p)
    then have "host_party w i = p" by (simp add: host_party_def)
    with Some show ?thesis using assms inviter_party_maps(4) [of w1 i p]
      by (auto simp: fun_eq_iff host_members_at split: option.split)
  qed
qed

lemma OnPartyAccept_maps:
  assumes "accepts w sid req inviterId"
  shows "party_of (OnPartyAccept sid req w) i =
      (if i = sid \<and> length (host_members w inviterId) < MAX_PARTY then Some (host_party w inviterId)
       else if i = inviterId then Some (host_party w inviterId) else party_of w i)"
    and "party_at (OnPartyAccept sid req w) q =
      (if q = host_party w inviterId then Some (host_members w inviterId @
         (if length (host_members w inviterId) < MAX_PARTY then [sid] else []))
       else party_at w q)"
proof -
  define w1 where "w1 = w\<lparr>w_pendingInvites := om_erase sid (w_pendingInvites w)\<rparr>"
  define w3 where "w3 = ensure_party (host_party w inviterId) (snd (inviter_party inviterId w1))"
  note maps = accept_maps_full [OF w1_def w3_def]
  have members: "pt_members (get_party w3 (host_party w inviterId)) = host_members w inviterId"
    by (simp add: get_party_members maps)
  have run: "OnPartyAccept sid req w = (if MAX_PARTY \<le> length (host_members w inviterId) then w3
      else SendPartyUpdate (host_party w inviterId) (w3\<lparr>
        w_parties := om_put (host_party w inviterId) ((get_party w3 (host_party w inviterId))\<lparr>pt_members :=
          host_members w inviterId @ [sid]\<rparr>) (w_parties w3),
        w_playerParty := om_put sid (host_party w inviterId) (w_playerParty w3)\<rparr>))"
    unfolding OnPartyAccept_eq [OF assms] Let_def w1_def [symmetric] w3_def [symmetric] members ..
  show "party_of (OnPartyAccept sid req w) i =
      (if i = sid \<and> length (host_members w inviterId) < MAX_PARTY then Some (host_party w inviterId)
       else if i = inviterId then Some (host_party w inviterId) else party_of w i)"
    using maps(1) by (auto simp: run party_of_def)
  show "party_at (OnPartyAccept sid req w) q =
      (if q = host_party w inviterId then Some (host_members w inviterId @
         (if length (host_members w inviterId) < MAX_PARTY then [sid] else []))
       else party_at w q)"
    using fun_cong [OF maps(2), of q] by (auto simp: run party_at_def)
qed

lemma OnPartyAccept_ignored:
  assumes "\<And>inviterId. \<not> accepts w sid req inviterId"
  shows "party_of (OnPartyAccept sid req w) = party_of w" "party_at (OnPartyAccept sid req w) = party_at w"
    "w_nextPartyId (OnPartyAccept sid req w) = w_nextPartyId w"
  using assms
  by (auto simp: OnPartyAccept_def accepts_def Let_def party_of_def party_at_def live_def GetSession_def
      fun_eq_iff split: option.splits)

lemma OnPartyAccept_next:
  "accepts w sid req inviterId \<Longrightarrow> w_nextPartyId (OnPartyAccept sid req w) =
     (if party_of w inviterId = None then w_nextPartyId w + 1 else w_nextPartyId w)"
  by (auto simp: OnPartyAccept_def accepts_def Let_def inviter_party_def party_of_def live_def GetSession_def
      split: option.splits)

subsection \<open>What always holds of the two maps\<close>

definition members_ok :: "'d world \<Rightarrow> bool" where
  "members_ok w \<longleftrightarrow>
     (\<forall>sid p. party_of w sid = Some p \<longrightarrow> (\<exists>ms. party_at w p = Some ms \<and> sid \<in> set ms))"

definition sizes_ok :: "'d world \<Rightarrow> bool" where
  "sizes_ok w \<longleftrightarrow> (\<forall>p ms. party_at w p = Some ms \<longrightarrow> 2 \<le> length ms \<and> length ms \<le> MAX_PARTY)"

definition ids_fresh :: "'d world \<Rightarrow> bool" where
  "ids_fresh w \<longleftrightarrow> (\<forall>p. party_at w p \<noteq> None \<longrightarrow> p < w_nextPartyId w)"

lemma members_okD: "members_ok w \<Longrightarrow> party_of w sid = Some p \<Longrightarrow> \<exists>ms. party_at w p = Some ms \<and> sid \<in> set ms"
  by (simp add: members_ok_def)

lemma party_inv_cong:
  assumes "w_playerParty w' = w_playerParty w" and "w_parties w' = w_parties w"
  shows "members_ok w' \<longleftrightarrow> members_ok w" "sizes_ok w' \<longleftrightarrow> sizes_ok w"
    "w_nextPartyId w' = w_nextPartyId w \<Longrightarrow> ids_fresh w' \<longleftrightarrow> ids_fresh w"
  using assms by (simp_all add: members_ok_def sizes_ok_def ids_fresh_def party_of_def party_at_def)

lemma RemoveFromParty_members_ok:
  assumes "members_ok w"
  shows "members_ok (RemoveFromParty sid w)"
proof (cases "party_of w sid")
  case (Some p)
  then obtain ms where ms: "party_at w p = Some ms" using assms by (auto dest: members_okD)
  note maps = RemoveFromParty_maps [OF Some ms refl]
  show ?thesis
    unfolding members_ok_def
  proof (intro allI impI)
    fix i q assume i: "party_of (RemoveFromParty sid w) i = Some q"
    then have "party_of w i = Some q" by (simp add: maps split: if_splits)
    then obtain ms' where ms': "party_at w q = Some ms'" "i \<in> set ms'" using assms by (auto dest: members_okD)
    with i ms show "\<exists>ms. party_at (RemoveFromParty sid w) q = Some ms \<and> i \<in> set ms"
      by (auto simp: maps split: if_splits)
  qed
qed (simp add: RemoveFromParty_none assms)

lemma RemoveFromParty_sizes_ok:
  assumes "members_ok w" and "sizes_ok w"
  shows "sizes_ok (RemoveFromParty sid w)"
proof (cases "party_of w sid")
  case (Some p)
  then obtain ms where ms: "party_at w p = Some ms" using assms(1) by (auto dest: members_okD)
  have "length ms \<le> MAX_PARTY" using assms(2) ms by (simp add: sizes_ok_def)
  then have "length (removeAll sid ms) \<le> MAX_PARTY" using length_removeAll_less_eq [of sid ms] by linarith
  with assms(2) show ?thesis
    by (auto simp: sizes_ok_def RemoveFromParty_maps(2) [OF Some ms refl])
qed (simp add: RemoveFromParty_none assms)

lemma RemoveFromParty_ids_fresh:
  assumes "members_ok w" and "ids_fresh w"
  shows "ids_fresh (RemoveFromParty sid w)"
proof (cases "party_of w sid")
  case (Some p)
  then obtain ms where ms: "party_at w p = Some ms" using assms(1) by (auto dest: members_okD)
  with assms(2) show ?thesis by (auto simp: ids_fresh_def RemoveFromParty_maps(2) [OF Some ms refl])
qed (simp add: RemoveFromParty_none assms)

lemma try_invite_party_inv:
  assumes "members_ok w"
  shows "members_ok (snd (try_invite sid req w))" "sizes_ok (snd (try_invite sid req w)) \<longleftrightarrow> sizes_ok w"
    "ids_fresh (snd (try_invite sid req w)) \<longleftrightarrow> ids_fresh w"
proof -
  have "party_at w p \<noteq> None" if "party_of w sid = Some p" for p
    using members_okD [OF assms that] by auto
  note maps = try_invite_maps [of w sid req, OF this]
  show "members_ok (snd (try_invite sid req w))" using assms by (simp add: members_ok_def maps)
  show "sizes_ok (snd (try_invite sid req w)) \<longleftrightarrow> sizes_ok w" by (simp add: sizes_ok_def maps)
  show "ids_fresh (snd (try_invite sid req w)) \<longleftrightarrow> ids_fresh w" by (simp add: ids_fresh_def maps)
qed

text \<open>The members the host party has at the moment of accepting.\<close>

lemma host_members_inviter:
  "members_ok w \<Longrightarrow> inviterId \<in> set (host_members w inviterId)"
  by (cases "party_of w inviterId")
    (auto simp: host_members_def host_party_def Let_def dest: members_okD)

lemma host_members_length:
  assumes "members_ok w" and "sizes_ok w" and "ids_fresh w"
  shows "1 \<le> length (host_members w inviterId) \<and> length (host_members w inviterId) \<le> MAX_PARTY"
proof (cases "party_of w inviterId")
  case None
  have "party_at w (w_nextPartyId w) = None" using assms(3) by (auto simp: ids_fresh_def)
  with None show ?thesis by (simp add: host_members_def host_party_def MAX_PARTY_def)
next
  case (Some p)
  with assms show ?thesis
    by (fastforce simp: host_members_at sizes_ok_def dest: members_okD)
qed

lemma OnPartyAccept_members_ok:
  assumes "members_ok w"
  shows "members_ok (OnPartyAccept sid req w)"
proof (cases "\<exists>inviterId. accepts w sid req inviterId")
  case True
  then obtain inviterId where a: "accepts w sid req inviterId" by blast
  note maps = OnPartyAccept_maps [OF a]
  have host: "set ms \<subseteq> set (host_members w inviterId)" if "party_at w (host_party w inviterId) = Some ms" for ms
    using that by (auto simp: host_members_def Let_def split: option.split)
  show ?thesis
    unfolding members_ok_def
  proof (intro allI impI)
    fix i q assume "party_of (OnPartyAccept sid req w) i = Some q"
    then show "\<exists>ms. party_at (OnPartyAccept sid req w) q = Some ms \<and> i \<in> set ms"
      using host_members_inviter [OF assms, of inviterId] host assms
      by (fastforce simp: maps dest: members_okD split: if_splits)
  qed
next
  case False
  with assms show ?thesis by (simp add: members_ok_def OnPartyAccept_ignored)
qed

lemma OnPartyAccept_sizes_ok:
  assumes "members_ok w" and "sizes_ok w" and "ids_fresh w"
  shows "sizes_ok (OnPartyAccept sid req w)"
proof (cases "\<exists>inviterId. accepts w sid req inviterId")
  case True
  then obtain inviterId where a: "accepts w sid req inviterId" by blast
  show ?thesis
    using host_members_length [OF assms, of inviterId] assms(2)
    by (auto simp: sizes_ok_def OnPartyAccept_maps(2) [OF a] MAX_PARTY_def)
next
  case False
  with assms show ?thesis by (simp add: sizes_ok_def OnPartyAccept_ignored)
qed

lemma OnPartyAccept_ids_fresh:
  assumes "members_ok w" and "ids_fresh w" and "w_nextPartyId w \<noteq> - 1"
  shows "ids_fresh (OnPartyAccept sid req w)"
proof (cases "\<exists>inviterId. accepts w sid req inviterId")
  case True
  then obtain inviterId where a: "accepts w sid req inviterId" by blast
  have up: "w_nextPartyId w < w_nextPartyId w + 1"
    using assms(3) by (rule word_less_succ)
  show ?thesis
  proof (cases "party_of w inviterId")
    case None
    then show ?thesis using assms(2) up
      by (auto simp: ids_fresh_def OnPartyAccept_maps(2) [OF a] OnPartyAccept_next [OF a] host_party_def
          intro: less_trans)
  next
    case (Some p)
    then have "party_at w p \<noteq> None" using assms(1) by (auto dest: members_okD)
    with Some show ?thesis using assms(2)
      by (auto simp: ids_fresh_def OnPartyAccept_maps(2) [OF a] OnPartyAccept_next [OF a] host_party_def)
  qed
next
  case False
  with assms show ?thesis by (simp add: ids_fresh_def OnPartyAccept_ignored)
qed

subsection \<open>Parties as a partition\<close>

text \<open>The maps agree: no session twice in a party, and every member's party is that party.\<close>

definition maps_agree :: "'d world \<Rightarrow> bool" where
  "maps_agree w \<longleftrightarrow> (\<forall>p ms. party_at w p = Some ms \<longrightarrow>
     distinct ms \<and> (\<forall>sid \<in> set ms. party_of w sid = Some p))"

text \<open>The abstract view is the function from sessions to parties.\<close>

definition mates :: "(SessionId \<Rightarrow> u32 option) \<Rightarrow> u32 \<Rightarrow> SessionId set" where
  "mates G p = {i. G i = Some p}"

definition leave :: "SessionId \<Rightarrow> (SessionId \<Rightarrow> u32 option) \<Rightarrow> SessionId \<Rightarrow> u32 option" where
  "leave sid G = (case G sid of
     None \<Rightarrow> G
   | Some p \<Rightarrow> if card (mates G p - {sid}) \<le> 1 then (\<lambda>i. if G i = Some p then None else G i)
               else G(sid := None))"

definition join :: "u32 \<Rightarrow> SessionId \<Rightarrow> SessionId \<Rightarrow> (SessionId \<Rightarrow> u32 option) \<Rightarrow> SessionId \<Rightarrow> u32 option" where
  "join new_id inviterId sid G = (case G inviterId of
     None \<Rightarrow> G(inviterId \<mapsto> new_id, sid \<mapsto> new_id)
   | Some p \<Rightarrow> if card (mates G p) < MAX_PARTY then G(sid \<mapsto> p) else G)"

lemma mates_members:
  assumes "members_ok w" and "maps_agree w" and "party_at w p = Some ms"
  shows "mates (party_of w) p = set ms" "card (mates (party_of w) p) = length ms"
proof -
  show "mates (party_of w) p = set ms"
    using assms members_okD [OF assms(1)] by (fastforce simp: mates_def maps_agree_def)
  then show "card (mates (party_of w) p) = length ms"
    using assms by (simp add: maps_agree_def distinct_card)
qed

lemma RemoveFromParty_agree:
  assumes "members_ok w" and "maps_agree w"
  shows "party_of (RemoveFromParty sid w) = leave sid (party_of w) \<and> maps_agree (RemoveFromParty sid w)"
proof (cases "party_of w sid")
  case None
  with assms show ?thesis by (simp add: RemoveFromParty_none leave_def)
next
  case (Some p)
  then obtain ms where ms: "party_at w p = Some ms" using assms(1) by (auto dest: members_okD)
  note maps = RemoveFromParty_maps [OF Some ms refl]
  have dist: "distinct ms" using assms(2) ms by (simp add: maps_agree_def)
  have mates: "mates (party_of w) p = set ms" by (rule mates_members(1) [OF assms ms])
  have card: "card (mates (party_of w) p - {sid}) = length (removeAll sid ms)"
    using dist by (simp add: mates distinct_card distinct_removeAll flip: set_removeAll)
  have in_mates: "party_of w i = Some p \<longleftrightarrow> i \<in> set ms" for i
    using mates by (auto simp: mates_def)
  have "leave sid (party_of w) = (if length (removeAll sid ms) \<le> 1
      then (\<lambda>i. if party_of w i = Some p then None else party_of w i) else (party_of w)(sid := None))"
    using Some by (simp add: leave_def card)
  then have "party_of (RemoveFromParty sid w) i = leave sid (party_of w) i" for i
    using Some in_mates [of sid] by (simp add: maps(1) in_mates)
  moreover have "maps_agree (RemoveFromParty sid w)"
    unfolding maps_agree_def
  proof (intro allI impI)
    fix q ms' assume q: "party_at (RemoveFromParty sid w) q = Some ms'"
    show "distinct ms' \<and> (\<forall>i \<in> set ms'. party_of (RemoveFromParty sid w) i = Some q)"
    proof (cases "q = p")
      case True
      then have "ms' = removeAll sid ms" "\<not> length (removeAll sid ms) \<le> 1"
        using q by (simp_all add: maps split: if_splits)
      then show ?thesis using dist in_mates True by (simp add: maps distinct_removeAll)
    next
      case False
      then have at: "party_at w q = Some ms'" using q by (simp add: maps)
      then have of: "distinct ms'" "party_of w i = Some q" if "i \<in> set ms'" for i
        using assms(2) that by (simp_all add: maps_agree_def)
      have "i \<noteq> sid \<and> i \<notin> set ms" if "i \<in> set ms'" for i
        using of(2) [OF that] False Some in_mates [of i] by auto
      moreover have "distinct ms'" using assms(2) at by (simp add: maps_agree_def)
      ultimately show ?thesis using of(2) by (auto simp: maps)
    qed
  qed
  ultimately show ?thesis by (auto simp: fun_eq_iff)
qed

lemma OnPartyAccept_agree:
  assumes "members_ok w" and "ids_fresh w" and "maps_agree w"
    and "accepts w sid req inviterId" and "party_of w sid = None" and "inviterId \<noteq> sid"
  shows "party_of (OnPartyAccept sid req w) = join (w_nextPartyId w) inviterId sid (party_of w)
    \<and> maps_agree (OnPartyAccept sid req w)"
proof (cases "party_of w inviterId")
  case None
  have free: "party_at w (w_nextPartyId w) = None" using assms(2) by (auto simp: ids_fresh_def)
  have host: "host_party w inviterId = w_nextPartyId w" "host_members w inviterId = [inviterId]"
    using None free by (simp_all add: host_party_def host_members_def)
  note maps = OnPartyAccept_maps [OF assms(4), unfolded host]
  have "party_of (OnPartyAccept sid req w) = join (w_nextPartyId w) inviterId sid (party_of w)"
    using None assms(6) by (auto simp: fun_eq_iff maps join_def MAX_PARTY_def)
  moreover have "maps_agree (OnPartyAccept sid req w)"
    using assms(3,5,6) None by (auto simp: maps_agree_def maps MAX_PARTY_def split: if_splits)
  ultimately show ?thesis by simp
next
  case (Some p)
  then obtain ms where ms: "party_at w p = Some ms" "inviterId \<in> set ms"
    using assms(1) by (auto dest: members_okD)
  have host: "host_party w inviterId = p" "host_members w inviterId = ms"
    using Some ms(1) by (simp_all add: host_party_def host_members_at)
  note maps = OnPartyAccept_maps [OF assms(4), unfolded host]
  have "party_of (OnPartyAccept sid req w) = join (w_nextPartyId w) inviterId sid (party_of w)"
    using Some mates_members(2) [OF assms(1,3) ms(1)] by (auto simp: fun_eq_iff maps(1) join_def)
  moreover have "maps_agree (OnPartyAccept sid req w)"
    using assms(3,5) Some ms(1) by (auto simp: maps_agree_def maps split: if_splits)
  ultimately show ?thesis by simp
qed

text \<open>
  What happens when the one who accepts is in a party already: with another host party it ends
  in both member lists, with its own it is listed twice.
\<close>

lemma OnPartyAccept_twice:
  assumes "members_ok w" and "accepts w sid req inviterId" and "party_of w sid = Some q"
    and "length (host_members w inviterId) < MAX_PARTY"
  shows "\<exists>ms ms'. party_at (OnPartyAccept sid req w) q = Some ms \<and> sid \<in> set ms
    \<and> party_at (OnPartyAccept sid req w) (host_party w inviterId) = Some ms' \<and> sid \<in> set ms'
    \<and> (host_party w inviterId = q \<longrightarrow> count_list ms sid \<ge> 2)
    \<and> \<not> maps_agree (OnPartyAccept sid req w)"
proof -
  obtain ms where ms: "party_at w q = Some ms" "sid \<in> set ms"
    using assms(1,3) by (auto dest: members_okD)
  note maps = OnPartyAccept_maps [OF assms(2)]
  show ?thesis
  proof (cases "host_party w inviterId = q")
    case True
    with ms have sub: "\<exists>xs. host_members w inviterId = ms @ xs"
      by (auto simp: host_members_def Let_def split: option.split)
    moreover have "count_list ms sid \<noteq> 0" using ms(2) by (simp add: count_list_0_iff)
    ultimately have "count_list (host_members w inviterId @ [sid]) sid \<ge> 2" by auto
    moreover have "sid \<in> set (host_members w inviterId)" using sub ms(2) by auto
    ultimately show ?thesis using True assms(4)
      by (auto simp: maps maps_agree_def)
  next
    case False
    have at: "party_at (OnPartyAccept sid req w) q = Some ms" using False ms by (simp add: maps)
    moreover have "party_of (OnPartyAccept sid req w) sid = Some (host_party w inviterId)"
      using assms(4) by (simp add: maps)
    ultimately have "\<not> maps_agree (OnPartyAccept sid req w)"
      using ms(2) False unfolding maps_agree_def by (metis option.inject)
    with at ms False assms(4) show ?thesis by (simp add: maps)
  qed
qed

subsection \<open>Properties\<close>

lemma sample_party_maps:
  "party_of sample_party 1 = Some 1" "party_of sample_party 2 = Some 1" "party_at sample_party 1 = Some [1, 2]"
  by (simp_all add: party_of_def party_at_def sample_party_def)

lemma sample_party_ok: "members_ok sample_party" "maps_agree sample_party"
  by (auto simp: members_ok_def maps_agree_def party_of_def party_at_def sample_party_def split: if_splits)

lemma sample_world_party: "party_of sample_world = (\<lambda>_. None)" "party_at sample_world = (\<lambda>_. None)"
  by (simp_all add: party_of_def party_at_def sample_world_def fun_eq_iff)

lemma sample_world_parties_ok: "members_ok sample_world" "maps_agree sample_world" "ids_fresh sample_world"
  by (simp_all add: members_ok_def maps_agree_def ids_fresh_def sample_world_party)

lemma sample_accepts: "accepts sample_world 2 \<lparr>pa_accept = 1\<rparr> 1"
  by (simp add: accepts_def) (simp add: sample_world_def)

text \<open>C11: The members lists and the map from sessions to parties are two views of one partition, and
  leaving implements leaving the partition: the leaver is out, a party left with fewer than two
  members is dissolved, every other session keeps its party, and the two views agree again.\<close>

theorem leave_refines:
  assumes "members_ok w" and "maps_agree w"
  shows "party_of (RemoveFromParty sid w) = leave sid (party_of w) \<and> maps_agree (RemoveFromParty sid w)"
  using assms by (rule RemoveFromParty_agree)

theorem leave_refines_witness:
  "party_of (RemoveFromParty 2 sample_party) = leave 2 (party_of sample_party) \<and> party_of sample_party 1 = Some 1"
  using leave_refines [OF sample_party_ok] by (simp add: sample_party_maps)

text \<open>C10: Accepting an invitation implements joining the partition when the accepter is in no party yet:
  both are in the inviter's party, a new one when the inviter had none, unless that party has four
  members already; the two views agree again.\<close>

theorem accept_refines:
  assumes "members_ok w" and "ids_fresh w" and "maps_agree w"
    and "accepts w sid req inviterId" and "party_of w sid = None" and "inviterId \<noteq> sid"
  shows "party_of (OnPartyAccept sid req w) = join (w_nextPartyId w) inviterId sid (party_of w)
    \<and> maps_agree (OnPartyAccept sid req w)"
  using assms by (rule OnPartyAccept_agree)

theorem accept_refines_witness:
  "party_of (OnPartyAccept 2 \<lparr>pa_accept = 1\<rparr> sample_world) = [1 \<mapsto> 1, 2 \<mapsto> 1]"
proof -
  have "w_nextPartyId sample_world = 1" by (simp add: sample_world_def)
  with accept_refines [OF sample_world_parties_ok(1,3,2) sample_accepts] show ?thesis
    by (simp add: sample_world_party join_def)
qed

text \<open>C22: \<open>OnPartyAccept\<close> does not look at the accepter's own party: a session that is in a party already
  ends up in the member lists of two parties, or twice in one list, and the two views no longer
  agree.\<close>

theorem accept_twice_breaks:
  assumes "members_ok w" and "accepts w sid req inviterId" and "party_of w sid = Some q"
    and "length (host_members w inviterId) < MAX_PARTY"
  shows "\<exists>ms ms'. party_at (OnPartyAccept sid req w) q = Some ms \<and> sid \<in> set ms
    \<and> party_at (OnPartyAccept sid req w) (host_party w inviterId) = Some ms' \<and> sid \<in> set ms'
    \<and> (host_party w inviterId = q \<longrightarrow> count_list ms sid \<ge> 2)
    \<and> \<not> maps_agree (OnPartyAccept sid req w)"
  using assms by (rule OnPartyAccept_twice)

definition invited_again :: "nat world" where
  "invited_again = sample_party\<lparr>w_pendingInvites := [(2, 1)]\<rparr>"

lemma invited_again_facts:
  "members_ok invited_again" "accepts invited_again 2 \<lparr>pa_accept = 1\<rparr> 1" "party_of invited_again = party_of sample_party"
  "host_party invited_again 1 = 1" "host_members invited_again 1 = [1, 2]"
proof -
  show "members_ok invited_again" using sample_party_ok(1) by (simp add: members_ok_def invited_again_def)
  show "accepts invited_again 2 \<lparr>pa_accept = 1\<rparr> 1" by (simp add: accepts_def invited_again_def)
  show "party_of invited_again = party_of sample_party" by (simp add: invited_again_def)
  show "host_party invited_again 1 = 1" "host_members invited_again 1 = [1, 2]"
    by (simp_all add: invited_again_def host_party_def host_members_def sample_party_maps)
qed

theorem accept_twice_breaks_witness:
  "\<exists>ms. party_at (OnPartyAccept 2 \<lparr>pa_accept = 1\<rparr> invited_again) 1 = Some ms \<and> 2 \<le> count_list ms 2"
  using accept_twice_breaks [OF invited_again_facts(1,2), of 1]
  by (auto simp: invited_again_facts sample_party_maps MAX_PARTY_def)

end
