(* ===== verification/Quest.thy ===== *)
theory Quest
  imports Inventory
begin

text \<open>
  Quests of \<open>GameServer/main.cpp\<close>: the progress map of a session (\<open>g_questProgress\<close>),
  loading and saving it, the list, accepting, counting kills (\<open>UpdateQuestProgress\<close>) and
  completing. A quest's status is 0 (available), 1 (accepted), 2 (completable) or
  3 (completed).
\<close>

subsection \<open>The progress of a session\<close>

type_synonym progress_map = "(u16, QuestProgress) omap"

definition get_qp :: "'d world \<Rightarrow> SessionId \<Rightarrow> progress_map" where
  "get_qp w sid = om_get [] sid (w_questProgress w)"

definition ensure_qp :: "SessionId \<Rightarrow> 'd world \<Rightarrow> 'd world" where
  "ensure_qp sid w = w\<lparr>w_questProgress := om_ensure [] sid (w_questProgress w)\<rparr>"

definition set_qp :: "SessionId \<Rightarrow> progress_map \<Rightarrow> 'd world \<Rightarrow> 'd world" where
  "set_qp sid qp w = w\<lparr>w_questProgress := om_put sid qp (w_questProgress w)\<rparr>"

definition set_progress :: "SessionId \<Rightarrow> u16 \<Rightarrow> QuestProgress \<Rightarrow> 'd world \<Rightarrow> 'd world" where
  "set_progress sid q st w = set_qp sid (om_put q st (get_qp w sid)) w"

definition quest_state :: "'d world \<Rightarrow> SessionId \<Rightarrow> u16 \<Rightarrow> QuestProgress" where
  "quest_state w sid q = om_get new_progress q (get_qp w sid)"

definition LoadQuestProgress :: "'d env \<Rightarrow> SessionId \<Rightarrow> 'd world \<Rightarrow> 'd world" where
  "LoadQuestProgress E sid w =
     (case spQuestLoad (dbConn E) (p_charUid (GetPlayer w sid)) (w_db w) of (rows, db) \<Rightarrow>
        set_qp sid
          (case rows of None \<Rightarrow> []
           | Some rs \<Rightarrow> fold (\<lambda>(questId, status, progress) qp.
               om_put (ucast questId) \<lparr>qs_status = status, qs_progress = ucast progress\<rparr> qp) rs [])
          (w\<lparr>w_db := db\<rparr>))"

definition SaveQuestProgress :: "'d env \<Rightarrow> u64 \<Rightarrow> u16 \<Rightarrow> u8 \<Rightarrow> u16 \<Rightarrow> 'd world \<Rightarrow> 'd world" where
  "SaveQuestProgress E charUid questId status progress w =
     w\<lparr>w_db := spQuestSave (dbConn E) charUid questId status progress (w_db w)\<rparr>"

subsection \<open>Near the quest NPC\<close>

definition IsNearQuestNPC :: "PlayerData \<Rightarrow> bool" where
  "IsNearQuestNPC player \<longleftrightarrow> \<bar>sint (p_posX player) - sint QUEST_NPC_X\<bar> \<le> 1 \<and>
     \<bar>sint (p_posY player) - sint QUEST_NPC_Y\<bar> \<le> 1"

subsection \<open>Handlers\<close>

definition quest_entry :: "progress_map \<Rightarrow> QuestData \<Rightarrow> SC_QuestEntry" where
  "quest_entry qp q =
     (let st = (case map_of qp (qd_id q) of None \<Rightarrow> new_progress | Some s \<Rightarrow> s)
      in \<lparr>qe_questId = qd_id q, qe_name = ncopy 31 (qd_name q), qe_status = qs_status st,
          qe_progress = qs_progress st, qe_target = qd_target q\<rparr>)"

definition OnQuestList :: "'d env \<Rightarrow> SessionId \<Rightarrow> 'd world \<Rightarrow> 'd world" where
  "OnQuestList E sid w =
     (if \<not> IsNearQuestNPC (GetPlayer w sid)
      then Send sid (P_Error \<lparr>er_errorCode = 3, er_message = ''Not near Quest NPC''\<rparr>) w
      else
        let w1 = ensure_qp sid w; qp = get_qp w1 sid;
            n = min (length (g_quests E)) MAX_QUEST_LIST
        in Send sid (P_QuestList \<lparr>ql_count = word_of_nat n,
             ql_quests = map (quest_entry qp) (take n (g_quests E))
               @ replicate (MAX_QUEST_LIST - n) zero_SC_QuestEntry\<rparr>) w1)"

definition accept_result :: "SessionId \<Rightarrow> u8 \<Rightarrow> u16 \<Rightarrow> string \<Rightarrow> 'd world \<Rightarrow> 'd world" where
  "accept_result sid success questId message w =
     Send sid (P_QuestAcceptResult \<lparr>qar_success = success, qar_questId = questId,
       qar_message = message\<rparr>) w"

definition OnQuestAccept :: "'d env \<Rightarrow> SessionId \<Rightarrow> CS_QuestAccept \<Rightarrow> 'd world \<Rightarrow> 'd world" where
  "OnQuestAccept E sid req w =
     (let player = GetPlayer w sid; questId = qa_questId req in
      if \<not> IsNearQuestNPC player then accept_result sid 0 questId ''Not near Quest NPC'' w
      else case FindQuest E questId of
        None \<Rightarrow> accept_result sid 0 questId ''Quest not found'' w
      | Some quest \<Rightarrow>
          let w1 = set_qp sid (om_ensure new_progress questId (get_qp w sid)) w;
              state = quest_state w1 sid questId
          in if qs_status state = 1 \<or> qs_status state = 2
             then accept_result sid 0 questId ''Already accepted'' w1
             else if qs_status state = 3
             then accept_result sid 0 questId ''Already completed'' w1
             else
               let w2 = set_progress sid questId \<lparr>qs_status = 1, qs_progress = 0\<rparr> w1;
                   w3 = SaveQuestProgress E (p_charUid player) questId 1 0 w2
               in accept_result sid 1 questId ''Quest accepted!'' w3)"

text \<open>The item part of the reward: nothing when no slot is free.\<close>

definition reward_item :: "'d env \<Rightarrow> SessionId \<Rightarrow> QuestData \<Rightarrow> 'd world \<Rightarrow> 'd world" where
  "reward_item E sid quest w =
     (if qd_rewardItemId quest = 0 then w else grant_item E sid (qd_rewardItemId quest) w)"

definition exp_update :: "SessionId \<Rightarrow> 'd world \<Rightarrow> 'd world" where
  "exp_update sid w = (let p = GetPlayer w sid in
     Send sid (P_ExpUpdate \<lparr>eu_exp = ucast (p_exp p), eu_maxExp = p_maxExp p\<rparr>) w)"

definition quest_refusal :: "SessionId \<Rightarrow> u16 \<Rightarrow> string \<Rightarrow> 'd world \<Rightarrow> 'd world" where
  "quest_refusal sid questId message w =
     Send sid (P_QuestReward \<lparr>qr_success = 0, qr_questId = questId, qr_rewardGold = 0,
       qr_rewardExp = 0, qr_rewardItemId = 0, qr_message = message\<rparr>) w"

definition OnQuestComplete :: "'d env \<Rightarrow> SessionId \<Rightarrow> CS_QuestComplete \<Rightarrow> 'd world \<Rightarrow> 'd world" where
  "OnQuestComplete E sid req w =
     (let player = GetPlayer w sid; questId = qc_questId req in
      if \<not> IsNearQuestNPC player then quest_refusal sid questId ''Not near Quest NPC'' w
      else case FindQuest E questId of
        None \<Rightarrow> quest_refusal sid questId ''Quest not found'' w
      | Some quest \<Rightarrow>
          let w1 = ensure_qp sid w in
          case map_of (get_qp w1 sid) questId of
            None \<Rightarrow> quest_refusal sid questId ''Quest not completable'' w1
          | Some state \<Rightarrow>
              if qs_status state \<noteq> 2 then quest_refusal sid questId ''Quest not completable'' w1
              else
                let w2 = set_progress sid questId (state\<lparr>qs_status := 3\<rparr>) w1;
                    w3 = SaveQuestProgress E (p_charUid player) questId 3 (qs_progress state) w2;
                    w4 = upd_player sid (\<lambda>p. p\<lparr>p_gold := p_gold p + ucast (qd_rewardGold quest),
                           p_exp := p_exp p + ucast (qd_rewardExp quest)\<rparr>) w3;
                    w5 = reward_item E sid quest w4;
                    w6 = exp_update sid w5;
                    w7 = SendCharInfo sid (CheckLevelUp sid w6)
                in Send sid (P_QuestReward \<lparr>qr_success = 1, qr_questId = questId,
                     qr_rewardGold = qd_rewardGold quest, qr_rewardExp = qd_rewardExp quest,
                     qr_rewardItemId = qd_rewardItemId quest,
                     qr_message = ''Quest completed!''\<rparr>) w7)"

subsection \<open>Kills\<close>

definition count_kill :: "QuestData \<Rightarrow> QuestProgress \<Rightarrow> QuestProgress" where
  "count_kill quest state =
     (let n = qs_progress state + 1
      in \<lparr>qs_status = (if qd_target quest \<le> n then 2 else qs_status state), qs_progress = n\<rparr>)"

definition update_quest :: "'d env \<Rightarrow> SessionId \<Rightarrow> u16 \<Rightarrow> QuestProgress \<Rightarrow> 'd world \<Rightarrow> 'd world" where
  "update_quest E sid questId state w =
     (if qs_status state \<noteq> 1 then w
      else case FindQuest E questId of
        None \<Rightarrow> w
      | Some quest \<Rightarrow>
          let state1 = count_kill quest state;
              w1 = set_progress sid questId state1 w;
              w2 = SaveQuestProgress E (p_charUid (GetPlayer w1 sid)) questId (qs_status state1)
                     (qs_progress state1) w1
          in Send sid (P_QuestProgress \<lparr>qpr_questId = questId, qpr_progress = qs_progress state1,
               qpr_target = qd_target quest\<rparr>) w2)"

definition UpdateQuestProgress :: "'d env \<Rightarrow> SessionId \<Rightarrow> 'd world \<Rightarrow> 'd world" where
  "UpdateQuestProgress E sid w =
     (let w1 = ensure_qp sid w
      in fold (\<lambda>(questId, state). update_quest E sid questId state) (get_qp w1 sid) w1)"

subsection \<open>Frames\<close>

lemma ensure_qp_frame [simp, frame]:
  "w_sessions (ensure_qp sid w) = w_sessions w"
  "w_nextSessionId (ensure_qp sid w) = w_nextSessionId w" "w_npcs (ensure_qp sid w) = w_npcs w"
  "w_nextNpcUid (ensure_qp sid w) = w_nextNpcUid w"
  "w_nextPartyId (ensure_qp sid w) = w_nextPartyId w" "w_parties (ensure_qp sid w) = w_parties w"
  "w_playerParty (ensure_qp sid w) = w_playerParty w"
  "w_pendingInvites (ensure_qp sid w) = w_pendingInvites w"
  "w_inventories (ensure_qp sid w) = w_inventories w" "w_rand (ensure_qp sid w) = w_rand w"
  "w_db (ensure_qp sid w) = w_db w" "w_out (ensure_qp sid w) = w_out w"
  by (simp_all add: ensure_qp_def)

lemma set_qp_frame [simp, frame]:
  "w_sessions (set_qp sid qp w) = w_sessions w"
  "w_nextSessionId (set_qp sid qp w) = w_nextSessionId w" "w_npcs (set_qp sid qp w) = w_npcs w"
  "w_nextNpcUid (set_qp sid qp w) = w_nextNpcUid w"
  "w_nextPartyId (set_qp sid qp w) = w_nextPartyId w" "w_parties (set_qp sid qp w) = w_parties w"
  "w_playerParty (set_qp sid qp w) = w_playerParty w"
  "w_pendingInvites (set_qp sid qp w) = w_pendingInvites w"
  "w_inventories (set_qp sid qp w) = w_inventories w" "w_rand (set_qp sid qp w) = w_rand w"
  "w_db (set_qp sid qp w) = w_db w" "w_out (set_qp sid qp w) = w_out w"
  by (simp_all add: set_qp_def)

lemma set_progress_frame [simp, frame]:
  "w_sessions (set_progress sid q st w) = w_sessions w"
  "w_nextSessionId (set_progress sid q st w) = w_nextSessionId w"
  "w_npcs (set_progress sid q st w) = w_npcs w"
  "w_nextNpcUid (set_progress sid q st w) = w_nextNpcUid w"
  "w_nextPartyId (set_progress sid q st w) = w_nextPartyId w"
  "w_parties (set_progress sid q st w) = w_parties w"
  "w_playerParty (set_progress sid q st w) = w_playerParty w"
  "w_pendingInvites (set_progress sid q st w) = w_pendingInvites w"
  "w_inventories (set_progress sid q st w) = w_inventories w"
  "w_rand (set_progress sid q st w) = w_rand w" "w_db (set_progress sid q st w) = w_db w"
  "w_out (set_progress sid q st w) = w_out w"
  by (simp_all add: set_progress_def)

lemma LoadQuestProgress_frame [simp, frame]:
  "w_sessions (LoadQuestProgress E sid w) = w_sessions w"
  "w_nextSessionId (LoadQuestProgress E sid w) = w_nextSessionId w"
  "w_npcs (LoadQuestProgress E sid w) = w_npcs w"
  "w_nextNpcUid (LoadQuestProgress E sid w) = w_nextNpcUid w"
  "w_nextPartyId (LoadQuestProgress E sid w) = w_nextPartyId w"
  "w_parties (LoadQuestProgress E sid w) = w_parties w"
  "w_playerParty (LoadQuestProgress E sid w) = w_playerParty w"
  "w_pendingInvites (LoadQuestProgress E sid w) = w_pendingInvites w"
  "w_inventories (LoadQuestProgress E sid w) = w_inventories w"
  "w_rand (LoadQuestProgress E sid w) = w_rand w" "w_out (LoadQuestProgress E sid w) = w_out w"
  by (simp_all add: LoadQuestProgress_def split: prod.split)

lemma SaveQuestProgress_frame [simp, frame]:
  "w_sessions (SaveQuestProgress E c q s n w) = w_sessions w"
  "w_nextSessionId (SaveQuestProgress E c q s n w) = w_nextSessionId w"
  "w_npcs (SaveQuestProgress E c q s n w) = w_npcs w"
  "w_nextNpcUid (SaveQuestProgress E c q s n w) = w_nextNpcUid w"
  "w_questProgress (SaveQuestProgress E c q s n w) = w_questProgress w"
  "w_nextPartyId (SaveQuestProgress E c q s n w) = w_nextPartyId w"
  "w_parties (SaveQuestProgress E c q s n w) = w_parties w"
  "w_playerParty (SaveQuestProgress E c q s n w) = w_playerParty w"
  "w_pendingInvites (SaveQuestProgress E c q s n w) = w_pendingInvites w"
  "w_inventories (SaveQuestProgress E c q s n w) = w_inventories w"
  "w_rand (SaveQuestProgress E c q s n w) = w_rand w"
  "w_out (SaveQuestProgress E c q s n w) = w_out w"
  by (simp_all add: SaveQuestProgress_def)

lemma OnQuestList_frame [simp, frame]:
  "w_sessions (OnQuestList E sid w) = w_sessions w"
  "w_nextSessionId (OnQuestList E sid w) = w_nextSessionId w"
  "w_npcs (OnQuestList E sid w) = w_npcs w" "w_nextNpcUid (OnQuestList E sid w) = w_nextNpcUid w"
  "w_nextPartyId (OnQuestList E sid w) = w_nextPartyId w"
  "w_parties (OnQuestList E sid w) = w_parties w"
  "w_playerParty (OnQuestList E sid w) = w_playerParty w"
  "w_pendingInvites (OnQuestList E sid w) = w_pendingInvites w"
  "w_inventories (OnQuestList E sid w) = w_inventories w"
  "w_rand (OnQuestList E sid w) = w_rand w" "w_db (OnQuestList E sid w) = w_db w"
  by (simp_all add: OnQuestList_def Let_def)

lemma accept_result_frame [simp, frame]:
  "w_sessions (accept_result sid ok q m w) = w_sessions w"
  "w_nextSessionId (accept_result sid ok q m w) = w_nextSessionId w"
  "w_npcs (accept_result sid ok q m w) = w_npcs w"
  "w_nextNpcUid (accept_result sid ok q m w) = w_nextNpcUid w"
  "w_questProgress (accept_result sid ok q m w) = w_questProgress w"
  "w_nextPartyId (accept_result sid ok q m w) = w_nextPartyId w"
  "w_parties (accept_result sid ok q m w) = w_parties w"
  "w_playerParty (accept_result sid ok q m w) = w_playerParty w"
  "w_pendingInvites (accept_result sid ok q m w) = w_pendingInvites w"
  "w_inventories (accept_result sid ok q m w) = w_inventories w"
  "w_rand (accept_result sid ok q m w) = w_rand w" "w_db (accept_result sid ok q m w) = w_db w"
  by (simp_all add: accept_result_def)

lemma quest_refusal_frame [simp, frame]:
  "w_sessions (quest_refusal sid q m w) = w_sessions w"
  "w_nextSessionId (quest_refusal sid q m w) = w_nextSessionId w"
  "w_npcs (quest_refusal sid q m w) = w_npcs w"
  "w_nextNpcUid (quest_refusal sid q m w) = w_nextNpcUid w"
  "w_questProgress (quest_refusal sid q m w) = w_questProgress w"
  "w_nextPartyId (quest_refusal sid q m w) = w_nextPartyId w"
  "w_parties (quest_refusal sid q m w) = w_parties w"
  "w_playerParty (quest_refusal sid q m w) = w_playerParty w"
  "w_pendingInvites (quest_refusal sid q m w) = w_pendingInvites w"
  "w_inventories (quest_refusal sid q m w) = w_inventories w"
  "w_rand (quest_refusal sid q m w) = w_rand w" "w_db (quest_refusal sid q m w) = w_db w"
  by (simp_all add: quest_refusal_def)

lemma exp_update_frame [simp, frame]:
  "w_sessions (exp_update sid w) = w_sessions w"
  "w_nextSessionId (exp_update sid w) = w_nextSessionId w" "w_npcs (exp_update sid w) = w_npcs w"
  "w_nextNpcUid (exp_update sid w) = w_nextNpcUid w"
  "w_questProgress (exp_update sid w) = w_questProgress w"
  "w_nextPartyId (exp_update sid w) = w_nextPartyId w"
  "w_parties (exp_update sid w) = w_parties w"
  "w_playerParty (exp_update sid w) = w_playerParty w"
  "w_pendingInvites (exp_update sid w) = w_pendingInvites w"
  "w_inventories (exp_update sid w) = w_inventories w" "w_rand (exp_update sid w) = w_rand w"
  "w_db (exp_update sid w) = w_db w"
  by (simp_all add: exp_update_def Let_def)

lemma OnQuestAccept_frame [simp, frame]:
  "w_sessions (OnQuestAccept E sid req w) = w_sessions w"
  "w_nextSessionId (OnQuestAccept E sid req w) = w_nextSessionId w"
  "w_npcs (OnQuestAccept E sid req w) = w_npcs w"
  "w_nextNpcUid (OnQuestAccept E sid req w) = w_nextNpcUid w"
  "w_nextPartyId (OnQuestAccept E sid req w) = w_nextPartyId w"
  "w_parties (OnQuestAccept E sid req w) = w_parties w"
  "w_playerParty (OnQuestAccept E sid req w) = w_playerParty w"
  "w_pendingInvites (OnQuestAccept E sid req w) = w_pendingInvites w"
  "w_inventories (OnQuestAccept E sid req w) = w_inventories w"
  "w_rand (OnQuestAccept E sid req w) = w_rand w"
  by (simp_all add: OnQuestAccept_def Let_def split: option.split)

lemma reward_item_frame [simp, frame]:
  "w_sessions (reward_item E sid quest w) = w_sessions w"
  "w_nextSessionId (reward_item E sid quest w) = w_nextSessionId w"
  "w_npcs (reward_item E sid quest w) = w_npcs w"
  "w_nextNpcUid (reward_item E sid quest w) = w_nextNpcUid w"
  "w_questProgress (reward_item E sid quest w) = w_questProgress w"
  "w_nextPartyId (reward_item E sid quest w) = w_nextPartyId w"
  "w_parties (reward_item E sid quest w) = w_parties w"
  "w_playerParty (reward_item E sid quest w) = w_playerParty w"
  "w_pendingInvites (reward_item E sid quest w) = w_pendingInvites w"
  "w_rand (reward_item E sid quest w) = w_rand w"
  by (simp_all add: reward_item_def Let_def split: option.split prod.split)

lemma OnQuestComplete_frame [simp, frame]:
  "w_nextSessionId (OnQuestComplete E sid req w) = w_nextSessionId w"
  "w_npcs (OnQuestComplete E sid req w) = w_npcs w"
  "w_nextNpcUid (OnQuestComplete E sid req w) = w_nextNpcUid w"
  "w_nextPartyId (OnQuestComplete E sid req w) = w_nextPartyId w"
  "w_parties (OnQuestComplete E sid req w) = w_parties w"
  "w_playerParty (OnQuestComplete E sid req w) = w_playerParty w"
  "w_pendingInvites (OnQuestComplete E sid req w) = w_pendingInvites w"
  "w_rand (OnQuestComplete E sid req w) = w_rand w"
  by (simp_all add: OnQuestComplete_def Let_def split: option.split)

lemma update_quest_frame [simp, frame]:
  "w_sessions (update_quest E sid q st w) = w_sessions w"
  "w_nextSessionId (update_quest E sid q st w) = w_nextSessionId w"
  "w_npcs (update_quest E sid q st w) = w_npcs w"
  "w_nextNpcUid (update_quest E sid q st w) = w_nextNpcUid w"
  "w_nextPartyId (update_quest E sid q st w) = w_nextPartyId w"
  "w_parties (update_quest E sid q st w) = w_parties w"
  "w_playerParty (update_quest E sid q st w) = w_playerParty w"
  "w_pendingInvites (update_quest E sid q st w) = w_pendingInvites w"
  "w_inventories (update_quest E sid q st w) = w_inventories w"
  "w_rand (update_quest E sid q st w) = w_rand w"
  by (simp_all add: update_quest_def Let_def split: option.split)

lemma UpdateQuestProgress_frame [simp, frame]:
  "w_sessions (UpdateQuestProgress E sid w) = w_sessions w"
  "w_nextSessionId (UpdateQuestProgress E sid w) = w_nextSessionId w"
  "w_npcs (UpdateQuestProgress E sid w) = w_npcs w"
  "w_nextNpcUid (UpdateQuestProgress E sid w) = w_nextNpcUid w"
  "w_nextPartyId (UpdateQuestProgress E sid w) = w_nextPartyId w"
  "w_parties (UpdateQuestProgress E sid w) = w_parties w"
  "w_playerParty (UpdateQuestProgress E sid w) = w_playerParty w"
  "w_pendingInvites (UpdateQuestProgress E sid w) = w_pendingInvites w"
  "w_inventories (UpdateQuestProgress E sid w) = w_inventories w"
  "w_rand (UpdateQuestProgress E sid w) = w_rand w"
  by (simp_all add: UpdateQuestProgress_def Let_def fold_keeps case_prod_beta)

lemma quest_ops_sessions [simp]:
  "GetPlayer (ensure_qp sid w) = GetPlayer w" "live (ensure_qp sid w) = live w"
  "GetPlayer (set_qp sid qp w) = GetPlayer w" "live (set_qp sid qp w) = live w"
  "GetPlayer (set_progress sid q st w) = GetPlayer w" "live (set_progress sid q st w) = live w"
  "GetPlayer (LoadQuestProgress E sid w) = GetPlayer w" "live (LoadQuestProgress E sid w) = live w"
  "GetPlayer (SaveQuestProgress E c q b n w) = GetPlayer w" "live (SaveQuestProgress E c q b n w) = live w"
  "GetPlayer (OnQuestList E sid w) = GetPlayer w" "live (OnQuestList E sid w) = live w"
  "GetPlayer (accept_result sid ok q m w) = GetPlayer w" "live (accept_result sid ok q m w) = live w"
  "GetPlayer (quest_refusal sid q m w) = GetPlayer w" "live (quest_refusal sid q m w) = live w"
  "GetPlayer (exp_update sid w) = GetPlayer w" "live (exp_update sid w) = live w"
  "GetPlayer (OnQuestAccept E sid ra w) = GetPlayer w" "live (OnQuestAccept E sid ra w) = live w"
  "GetPlayer (reward_item E sid quest w) = GetPlayer w" "live (reward_item E sid quest w) = live w"
  "GetPlayer (update_quest E sid q st w) = GetPlayer w" "live (update_quest E sid q st w) = live w"
  "GetPlayer (UpdateQuestProgress E sid w) = GetPlayer w" "live (UpdateQuestProgress E sid w) = live w"
  by (rule sessions_cong, simp)+

lemma quest_ops_inv [simp]:
  "get_inv (ensure_qp sid w) = get_inv w" "get_inv (set_progress sid q st w) = get_inv w"
  "get_inv (SaveQuestProgress E c q b n w) = get_inv w" "get_inv (quest_refusal sid q m w) = get_inv w"
  "get_inv (exp_update sid w) = get_inv w" "get_inv (UpdateQuestProgress E sid w) = get_inv w"
  "get_inv (OnQuestAccept E sid ra w) = get_inv w" "get_inv (OnQuestList E sid w) = get_inv w"
  "get_inv (LoadQuestProgress E sid w) = get_inv w"
  by (rule get_inv_cong, simp)+

subsection \<open>The progress map\<close>

lemma get_qp_cong: "w_questProgress w = w_questProgress w' \<Longrightarrow> get_qp w = get_qp w'"
  by (auto simp: get_qp_def fun_eq_iff)

lemma get_qp_same [simp]:
  "get_qp (Send i p w) = get_qp w" "get_qp (upd_player i f w) = get_qp w"
  "get_qp (SaveQuestProgress E c q b n w) = get_qp w" "get_qp (reward_item E sid quest w) = get_qp w"
  "get_qp (exp_update sid w) = get_qp w" "get_qp (CheckLevelUp sid w) = get_qp w"
  "get_qp (SendCharInfo sid w) = get_qp w" "get_qp (accept_result sid ok qi m w) = get_qp w"
  "get_qp (quest_refusal sid qi m w) = get_qp w"
  by (rule get_qp_cong, simp)+

lemma get_qp_ensure [simp]: "get_qp (ensure_qp sid w) i = get_qp w i"
  by (simp add: get_qp_def ensure_qp_def)

lemma get_qp_set [simp]: "get_qp (set_qp sid qp w) i = (if i = sid then qp else get_qp w i)"
  by (simp add: get_qp_def set_qp_def om_get_put)

lemma get_qp_set_progress [simp]:
  "get_qp (set_progress sid q st w) i = (if i = sid then om_put q st (get_qp w sid) else get_qp w i)"
  by (simp add: set_progress_def)

lemma quest_state_set_progress [simp]:
  "quest_state (set_progress sid q st w) i r = (if i = sid \<and> r = q then st else quest_state w i r)"
  by (auto simp: quest_state_def om_get_def)

lemma quest_state_same [simp]:
  "quest_state (Send i p w) = quest_state w" "quest_state (ensure_qp sid w) = quest_state w"
  "quest_state (SaveQuestProgress E c q b n w) = quest_state w"
  "quest_state (upd_player i f w) = quest_state w" "quest_state (accept_result sid ok qi m w) = quest_state w"
  "quest_state (quest_refusal sid qi m w) = quest_state w" "quest_state (exp_update sid w) = quest_state w"
  "quest_state (reward_item E sid quest w) = quest_state w" "quest_state (CheckLevelUp sid w) = quest_state w"
  "quest_state (SendCharInfo sid w) = quest_state w" "quest_state (OnQuestList E sid w) = quest_state w"
  by (simp_all add: quest_state_def OnQuestList_def Let_def fun_eq_iff)

definition progress_ok :: "'d world \<Rightarrow> bool" where
  "progress_ok w \<longleftrightarrow> (\<forall>sid. om_wf (get_qp w sid))"

lemma progress_okD [simp]: "progress_ok w \<Longrightarrow> om_wf (get_qp w sid)"
  by (simp add: progress_ok_def)

lemma get_qp_ops [simp]: "get_qp (OnQuestList E sid w) i = get_qp w i"
  by (simp add: OnQuestList_def Let_def)

lemma OnQuestList_progress_ok: "progress_ok w \<Longrightarrow> progress_ok (OnQuestList E sid w)"
  by (simp add: progress_ok_def)

lemma OnQuestAccept_progress_ok: "progress_ok w \<Longrightarrow> progress_ok (OnQuestAccept E sid req w)"
  by (simp add: progress_ok_def OnQuestAccept_def Let_def split: option.split)

lemma OnQuestComplete_progress_ok: "progress_ok w \<Longrightarrow> progress_ok (OnQuestComplete E sid req w)"
  by (simp add: progress_ok_def OnQuestComplete_def Let_def split: option.split)

lemma update_quest_progress_ok: "progress_ok w \<Longrightarrow> progress_ok (update_quest E sid q st w)"
  by (simp add: progress_ok_def update_quest_def Let_def split: option.split)

lemma UpdateQuestProgress_progress_ok: "progress_ok w \<Longrightarrow> progress_ok (UpdateQuestProgress E sid w)"
  unfolding UpdateQuestProgress_def Let_def
  by (rule fold_invariant)
    (simp_all add: update_quest_progress_ok progress_ok_def [of "ensure_qp sid w"] split: prod.split)

lemma LoadQuestProgress_progress_ok:
  assumes "progress_ok w"
  shows "progress_ok (LoadQuestProgress E sid w)"
proof -
  have "om_wf (fold (\<lambda>(questId, status, progress) qp.
      om_put (f questId) (g status progress) qp) rs [])" for f g and rs :: "(i32 \<times> u8 \<times> i32) list"
    by (rule fold_invariant [where P = om_wf]) (auto split: prod.split)
  then show ?thesis using assms
    by (auto simp: progress_ok_def LoadQuestProgress_def get_qp_def set_qp_def om_get_put
        split: prod.split option.split)
qed

subsection \<open>The status of a quest\<close>

definition kill_effect :: "'d env \<Rightarrow> u16 \<Rightarrow> QuestProgress \<Rightarrow> QuestProgress" where
  "kill_effect E q st = (case FindQuest E q of
     Some quest \<Rightarrow> if qs_status st = 1 then count_kill quest st else st | None \<Rightarrow> st)"

lemma map_of_update_quest:
  "map_of (get_qp (update_quest E sid q st w) i) r =
     (if i = sid \<and> r = q \<and> qs_status st = 1 \<and> FindQuest E q \<noteq> None
      then Some (kill_effect E q st) else map_of (get_qp w i) r)"
  by (auto simp: update_quest_def kill_effect_def Let_def split: option.split)

lemma map_of_update_quests:
  assumes "distinct (map fst m)"
  shows "map_of (get_qp (fold (\<lambda>(q, st). update_quest E sid q st) m w) i) r =
     (case map_of m r of Some st \<Rightarrow> if i = sid \<and> qs_status st = 1 \<and> FindQuest E r \<noteq> None
        then Some (kill_effect E r st) else map_of (get_qp w i) r | None \<Rightarrow> map_of (get_qp w i) r)"
  using assms
proof (induction m arbitrary: w)
  case (Cons a m)
  obtain q st where a: "a = (q, st)" by (cases a)
  have "map_of m q = None" using Cons.prems a by (simp add: map_of_eq_None_iff)
  with Cons a show ?case by (auto simp: map_of_update_quest split: option.split)
qed simp

lemma map_of_UpdateQuestProgress:
  assumes "progress_ok w"
  shows "map_of (get_qp (UpdateQuestProgress E sid w) i) r =
     (if i = sid then map_option (kill_effect E r) (map_of (get_qp w i) r) else map_of (get_qp w i) r)"
  using map_of_update_quests [of "get_qp w sid" E sid "ensure_qp sid w" i r] assms
  by (auto simp: UpdateQuestProgress_def Let_def om_wf_distinct kill_effect_def split: option.splits)

lemma quest_state_UpdateQuestProgress:
  assumes "progress_ok w"
  shows "quest_state (UpdateQuestProgress E sid w) i r =
     (if i = sid then kill_effect E r (quest_state w i r) else quest_state w i r)"
proof -
  have "kill_effect E r new_progress = new_progress"
    by (simp add: kill_effect_def new_progress_def split: option.split)
  then show ?thesis using map_of_UpdateQuestProgress [OF assms, of E sid i r]
    by (auto simp: quest_state_def om_get_def split: option.split)
qed

definition acceptable :: "'d env \<Rightarrow> SessionId \<Rightarrow> u16 \<Rightarrow> 'd world \<Rightarrow> bool" where
  "acceptable E sid q w \<longleftrightarrow> IsNearQuestNPC (GetPlayer w sid) \<and> FindQuest E q \<noteq> None \<and>
     qs_status (quest_state w sid q) \<notin> {1, 2, 3}"

definition completable :: "'d env \<Rightarrow> SessionId \<Rightarrow> u16 \<Rightarrow> 'd world \<Rightarrow> bool" where
  "completable E sid q w \<longleftrightarrow> IsNearQuestNPC (GetPlayer w sid) \<and> FindQuest E q \<noteq> None \<and>
     qs_status (quest_state w sid q) = 2"

lemma quest_state_OnQuestAccept:
  "quest_state (OnQuestAccept E sid req w) i r =
     (if i = sid \<and> r = qa_questId req \<and> acceptable E sid r w
      then \<lparr>qs_status = 1, qs_progress = 0\<rparr> else quest_state w i r)"
proof -
  have ensured: "quest_state (set_qp sid (om_ensure new_progress q (get_qp w sid)) w) = quest_state w" for q
    by (auto simp: quest_state_def fun_eq_iff)
  show ?thesis
    by (auto simp: OnQuestAccept_def acceptable_def Let_def ensured split: option.split)
qed

lemma quest_state_Some: "map_of (get_qp w sid) q = Some st \<Longrightarrow> quest_state w sid q = st"
  by (simp add: quest_state_def)

lemma completable_stored:
  "completable E sid q w \<longleftrightarrow> IsNearQuestNPC (GetPlayer w sid) \<and> FindQuest E q \<noteq> None \<and>
     (\<exists>st. map_of (get_qp w sid) q = Some st \<and> qs_status st = 2)"
  by (auto simp: completable_def quest_state_def om_get_def new_progress_def split: option.split)

lemma quest_state_OnQuestComplete:
  "quest_state (OnQuestComplete E sid req w) i r =
     (if i = sid \<and> r = qc_questId req \<and> completable E sid r w
      then (quest_state w sid r)\<lparr>qs_status := 3\<rparr> else quest_state w i r)"
  by (auto simp: OnQuestComplete_def completable_stored Let_def quest_state_Some split: option.split)

text \<open>The stored status as a state machine; every handler makes one of its steps or none.\<close>

inductive quest_step :: "QuestData \<Rightarrow> QuestProgress \<Rightarrow> QuestProgress \<Rightarrow> bool" for quest where
  accept: "qs_status st \<notin> {1, 2, 3} \<Longrightarrow> quest_step quest st \<lparr>qs_status = 1, qs_progress = 0\<rparr>"
| kill: "qs_status st = 1 \<Longrightarrow> quest_step quest st (count_kill quest st)"
| complete: "qs_status st = 2 \<Longrightarrow> quest_step quest st (st\<lparr>qs_status := 3\<rparr>)"

inductive_cases quest_stepE: "quest_step quest st st'"

lemma completed_final: "quest_step quest st st' \<Longrightarrow> qs_status st \<noteq> 3"
  by (auto elim: quest_stepE)

text \<open>A step moves the status up, by at most one; \<open>known\<close> are the four statuses there are.\<close>

lemma quest_step_status:
  assumes "quest_step quest st st'" and "qs_status st \<in> {0, 1, 2, 3}"
  shows "qs_status st' = qs_status st + 1 \<or> qs_status st = 1 \<and> qs_status st' = 1"
  using assms by (cases rule: quest_step.cases) (auto simp: count_kill_def Let_def)

datatype quest_op = QList | QAccept CS_QuestAccept | QComplete CS_QuestComplete | QKill

fun quest_run :: "'d env \<Rightarrow> quest_op \<times> SessionId \<Rightarrow> 'd world \<Rightarrow> 'd world" where
  "quest_run E (QList, sid) = OnQuestList E sid"
| "quest_run E (QAccept req, sid) = OnQuestAccept E sid req"
| "quest_run E (QComplete req, sid) = OnQuestComplete E sid req"
| "quest_run E (QKill, sid) = UpdateQuestProgress E sid"

lemma quest_run_progress_ok: "progress_ok w \<Longrightarrow> progress_ok (quest_run E op w)"
  by (cases "(E, op)" rule: quest_run.cases)
    (simp_all add: OnQuestList_progress_ok OnQuestAccept_progress_ok OnQuestComplete_progress_ok
      UpdateQuestProgress_progress_ok)

lemma quest_run_step:
  assumes "progress_ok w" and "FindQuest E q = Some quest"
  shows "(quest_step quest)\<^sup>=\<^sup>= (quest_state w i q) (quest_state (quest_run E op w) i q)"
proof -
  obtain k sid where op: "op = (k, sid)" by (cases op)
  show ?thesis
  proof (cases k)
    case QKill
    then show ?thesis using assms op
      by (auto simp: quest_state_UpdateQuestProgress kill_effect_def intro: quest_step.kill)
  next
    case (QAccept req)
    then show ?thesis using assms op
      by (auto simp: quest_state_OnQuestAccept acceptable_def intro: quest_step.accept)
  next
    case (QComplete req)
    then show ?thesis using assms op
      by (auto simp: quest_state_OnQuestComplete completable_def intro: quest_step.complete)
  qed (simp add: op)
qed

lemma quest_runs_steps:
  assumes "progress_ok w" and "FindQuest E q = Some quest"
  shows "(quest_step quest)\<^sup>*\<^sup>* (quest_state w i q) (quest_state (fold (quest_run E) ops w) i q)"
  using assms(1)
proof (induction ops arbitrary: w)
  case (Cons op ops)
  then show ?case
    using quest_run_step [OF Cons.prems assms(2), of i op]
      Cons.IH [OF quest_run_progress_ok [OF Cons.prems, of E op]]
    by (auto intro: converse_rtranclp_into_rtranclp)
qed simp

lemma completed_stays:
  assumes "(quest_step quest)\<^sup>*\<^sup>* st st'" and "qs_status st = 3"
  shows "st' = st"
  using assms by (induction rule: converse_rtranclp_induct) (auto dest: completed_final)

subsection \<open>Counting kills\<close>

lemma progress_ok_funpow: "progress_ok w \<Longrightarrow> progress_ok ((UpdateQuestProgress E sid ^^ k) w)"
  by (induction k) (simp_all add: UpdateQuestProgress_progress_ok)

lemma quest_state_kills:
  assumes "progress_ok w"
  shows "quest_state ((UpdateQuestProgress E sid ^^ k) w) sid q = (kill_effect E q ^^ k) (quest_state w sid q)"
  by (induction k) (simp_all add: quest_state_UpdateQuestProgress progress_ok_funpow assms)

definition kills_needed :: "QuestData \<Rightarrow> nat" where
  "kills_needed quest = max 1 (unat (qd_target quest))"

lemma kills_from_accept:
  assumes "FindQuest E q = Some quest"
  shows "(kill_effect E q ^^ k) \<lparr>qs_status = 1, qs_progress = 0\<rparr> =
     \<lparr>qs_status = (if kills_needed quest \<le> k then 2 else 1),
      qs_progress = word_of_nat (min k (kills_needed quest))\<rparr>"
proof (induction k)
  case 0
  show ?case by (simp add: kills_needed_def)
next
  case (Suc k)
  show ?case
  proof (cases "kills_needed quest \<le> k")
    case True
    with Suc assms show ?thesis by (simp add: kill_effect_def)
  next
    case False
    have "unat (qd_target quest) < 65536" using unsigned_less [of "qd_target quest", where 'a = nat] by simp
    with False have k: "Suc k < 65536" by (auto simp: kills_needed_def)
    have "qd_target quest \<le> word_of_nat k + 1 \<longleftrightarrow> unat (qd_target quest) \<le> Suc k"
    proof -
      have "unat (word_of_nat k + 1 :: u16) = Suc k"
        using k by (simp add: unat_add_no_wrap unat_of_nat)
      then show ?thesis by (simp add: word_le_nat_alt)
    qed
    with False Suc assms show ?thesis
      by (auto simp: kill_effect_def count_kill_def kills_needed_def Let_def min_def max_def add.commute)
  qed
qed

subsection \<open>Completing a quest\<close>

definition rewarded :: "QuestData \<Rightarrow> PlayerData \<Rightarrow> PlayerData" where
  "rewarded quest p = p\<lparr>p_gold := p_gold p + ucast (qd_rewardGold quest),
     p_exp := p_exp p + ucast (qd_rewardExp quest)\<rparr>"

lemma live_OnQuestComplete [simp]: "live (OnQuestComplete E sid req w) i \<longleftrightarrow> live w i"
  by (simp add: OnQuestComplete_def Let_def split: option.split)

lemma GetPlayer_OnQuestComplete:
  "GetPlayer (OnQuestComplete E sid req w) i =
     (if i = sid \<and> live w sid \<and> completable E sid (qc_questId req) w
      then fst (level_ups (rewarded (the (FindQuest E (qc_questId req))) (GetPlayer w sid)))
      else GetPlayer w i)"
  by (auto simp: OnQuestComplete_def completable_stored Let_def GetPlayer_CheckLevelUp
      GetPlayer_upd_player rewarded_def split: option.split)

lemma get_inv_reward_item:
  "get_inv (reward_item E sid quest w) =
     (if qd_rewardItemId quest = 0 then get_inv w
      else get_inv (grant_item E sid (qd_rewardItemId quest) w))"
  by (simp add: reward_item_def)

lemma reward_item_inventories_ok: "inventories_ok w \<Longrightarrow> inventories_ok (reward_item E sid quest w)"
  by (simp add: reward_item_def grant_item_inventories_ok)

lemma OnQuestComplete_inventories_ok:
  fixes w :: "'d world"
  assumes "inventories_ok w"
  shows "inventories_ok (OnQuestComplete E sid req w)"
proof -
  have "inv_wf (get_inv (reward_item E sid quest v) i)" if "get_inv v = get_inv w" for v quest i
    using assms reward_item_inventories_ok [of v E sid quest] that by (simp add: inventories_ok_def)
  then show ?thesis
    using assms by (simp add: OnQuestComplete_def Let_def inventories_ok_def [of "_ :: 'd world"] split: option.split)
qed

lemma OnQuestComplete_players_ok: "players_ok w \<Longrightarrow> players_ok (OnQuestComplete E sid req w)"
  by (auto simp: players_ok_def GetPlayer_OnQuestComplete intro!: player_ok_level_ups)
    (simp add: player_ok_def rewarded_def on_map_def)

subsection \<open>Properties\<close>

lemma sample_progress: "progress_ok sample_world"
  by (auto simp: progress_ok_def get_qp_def om_get_def sample_world_def om_wf_def)

lemma sample_quest_states:
  "quest_state sample_world 1 1 = \<lparr>qs_status = 2, qs_progress = 3\<rparr>"
  "quest_state sample_world 2 2 = new_progress"
  by (simp_all add: quest_state_def get_qp_def om_get_def sample_world_def)

lemma sample_near: "IsNearQuestNPC (sample_player name c)"
  by (simp add: IsNearQuestNPC_def sample_player_def QUEST_NPC_X_def QUEST_NPC_Y_def)

lemma sample_completable: "completable sample_env 1 1 sample_world"
  by (simp add: completable_def sample_near sample_quest_states)

lemma sample_acceptable: "acceptable sample_env 2 2 sample_world"
  by (simp add: acceptable_def sample_near sample_quest_states new_progress_def)

lemma get_inv_OnQuestComplete:
  assumes "completable E sid (qc_questId req) w" and "FindQuest E (qc_questId req) = Some quest"
  shows "\<exists>v. get_inv v = get_inv w \<and>
    get_inv (OnQuestComplete E sid req w) = get_inv (reward_item E sid quest v)"
proof -
  obtain st where st: "map_of (get_qp w sid) (qc_questId req) = Some st" "qs_status st = 2"
    "IsNearQuestNPC (GetPlayer w sid)" using assms(1) by (auto simp: completable_stored)
  let ?v = "upd_player sid (\<lambda>p. p\<lparr>p_gold := p_gold p + ucast (qd_rewardGold quest),
      p_exp := p_exp p + ucast (qd_rewardExp quest)\<rparr>)
    (SaveQuestProgress E (p_charUid (GetPlayer w sid)) (qc_questId req) 3 (qs_progress st)
      (set_progress sid (qc_questId req) (st\<lparr>qs_status := 3\<rparr>) (ensure_qp sid w)))"
  have "get_inv (OnQuestComplete E sid req w) = get_inv (reward_item E sid quest ?v)"
    using assms(2) st by (simp add: OnQuestComplete_def Let_def)
  moreover have "get_inv ?v = get_inv w" by simp
  ultimately show ?thesis by blast
qed

lemma get_inv_grant_item_slot:
  "get_inv (grant_item E sid tid w) sid = get_inv w sid \<and> (FindItem E tid = None \<or> FindEmptySlot (get_inv w sid) = None) \<or>
   (\<exists>slot u. FindItem E tid \<noteq> None \<and> FindEmptySlot (get_inv w sid) = Some slot \<and>
     get_inv (grant_item E sid tid w) sid = set_slot slot \<lparr>sl_itemUid = u, sl_itemTid = tid\<rparr> (get_inv w sid))"
  by (cases "FindEmptySlot (get_inv w sid)"; cases "FindItem E tid") (auto simp: get_inv_grant_item item_slot_def)

text \<open>
  What one request or kill does to the gold of a session and to the set of its completed quests.
\<close>

definition completed :: "'d world \<Rightarrow> SessionId \<Rightarrow> u16 set" where
  "completed w i = {q. qs_status (quest_state w i q) = 3}"

lemma live_quest_run [simp]: "live (quest_run E op w) i = live w i"
  by (cases "(E, op)" rule: quest_run.cases) simp_all

lemma quest_run_pays:
  assumes "progress_ok w" and "live w i"
  shows "(\<exists>q. q \<notin> completed w i \<and> completed (quest_run E op w) i = insert q (completed w i) \<and>
      p_gold (GetPlayer (quest_run E op w) i) = p_gold (GetPlayer w i) + ucast (qd_rewardGold (the (FindQuest E q)))) \<or>
    completed (quest_run E op w) i = completed w i \<and> p_gold (GetPlayer (quest_run E op w) i) = p_gold (GetPlayer w i)"
proof -
  obtain k sid where op: "op = (k, sid)" by (cases op)
  show ?thesis
  proof (cases k)
    case QKill
    have "qs_status (kill_effect E q st) = 3 \<longleftrightarrow> qs_status st = 3" for q st
      by (auto simp: kill_effect_def count_kill_def Let_def split: option.split)
    then have "completed (quest_run E op w) i = completed w i"
      using assms(1) by (auto simp: op QKill completed_def quest_state_UpdateQuestProgress)
    then show ?thesis by (simp add: op QKill)
  next
    case (QAccept req)
    then show ?thesis by (auto simp: op completed_def quest_state_OnQuestAccept acceptable_def)
  next
    case (QComplete req)
    show ?thesis
    proof (cases "i = sid \<and> completable E sid (qc_questId req) w")
      case True
      then have "completed (quest_run E op w) i = insert (qc_questId req) (completed w i)" "qc_questId req \<notin> completed w i"
        by (auto simp: op QComplete completed_def quest_state_OnQuestComplete completable_def)
      then show ?thesis using True assms(2)
        by (auto simp: op QComplete GetPlayer_OnQuestComplete level_ups_frame rewarded_def)
    qed (use QComplete op in \<open>auto simp: completed_def quest_state_OnQuestComplete GetPlayer_OnQuestComplete\<close>)
  qed (simp add: op completed_def)
qed

lemma gold_paid:
  assumes "progress_ok w" and "live w i"
  shows "completed w i \<subseteq> completed (fold (quest_run E) ops w) i \<and> p_gold (GetPlayer (fold (quest_run E) ops w) i) =
    p_gold (GetPlayer w i) + (\<Sum>q \<in> completed (fold (quest_run E) ops w) i - completed w i.
      ucast (qd_rewardGold (the (FindQuest E q))))"
  using assms
proof (induction ops arbitrary: w)
  case (Cons op ops)
  let ?w1 = "quest_run E op w" and ?w' = "fold (quest_run E) (op # ops) w"
  let ?pay = "\<lambda>q. ucast (qd_rewardGold (the (FindQuest E q))) :: u64"
  have IH: "completed ?w1 i \<subseteq> completed ?w' i"
    "p_gold (GetPlayer ?w' i) = p_gold (GetPlayer ?w1 i) + (\<Sum>q \<in> completed ?w' i - completed ?w1 i. ?pay q)"
    using Cons.IH [OF quest_run_progress_ok [OF Cons.prems(1)], of E op] Cons.prems(2) by simp_all
  from quest_run_pays [OF Cons.prems, of E op] show ?case
  proof (elim disjE exE conjE)
    fix q assume q: "q \<notin> completed w i" "completed ?w1 i = insert q (completed w i)"
      "p_gold (GetPlayer ?w1 i) = p_gold (GetPlayer w i) + ?pay q"
    then have "completed ?w' i - completed w i = insert q (completed ?w' i - completed ?w1 i)" using IH(1) by blast
    then show ?thesis using IH q by (auto simp: sum.insert_if add.assoc)
  next
    assume "completed ?w1 i = completed w i" "p_gold (GetPlayer ?w1 i) = p_gold (GetPlayer w i)"
    then show ?thesis using IH by simp
  qed
qed simp

text \<open>C12: Whatever sequence of quest requests and kills all sessions make, the stored status of a quest
  moves only along the state machine available, accepted, completable, completed, and a completed
  quest keeps its state for ever.\<close>

theorem quest_status_machine:
  assumes "progress_ok w" and "FindQuest E q = Some quest"
  shows "(quest_step quest)\<^sup>*\<^sup>* (quest_state w i q) (quest_state (fold (quest_run E) ops w) i q) \<and>
    (qs_status (quest_state w i q) = 3 \<longrightarrow> quest_state (fold (quest_run E) ops w) i q = quest_state w i q)"
  using quest_runs_steps [OF assms, of i ops] completed_stays by blast

theorem quest_status_machine_witness:
  "(quest_step (sample_quest 1 ''Goblin Slayer'' 3 100 50 0))\<^sup>*\<^sup>* \<lparr>qs_status = 2, qs_progress = 3\<rparr>
     (quest_state (fold (quest_run sample_env) [(QComplete \<lparr>qc_questId = 1\<rparr>, 1), (QKill, 1)] sample_world) 1 1)"
  using quest_status_machine [OF sample_progress sample_quests(1), of 1 "[(QComplete \<lparr>qc_questId = 1\<rparr>, 1), (QKill, 1)]"]
  by (simp add: sample_quest_states)



text \<open>C23: After a quest is accepted, k kills take its progress to exactly k, and to completable exactly
  when k has reached the target (a target of 0 needs one kill); further kills do not count.\<close>

theorem quest_kill_count:
  assumes "progress_ok w" and "acceptable E sid (qa_questId req) w" and "FindQuest E (qa_questId req) = Some quest"
  shows "quest_state ((UpdateQuestProgress E sid ^^ k) (OnQuestAccept E sid req w)) sid (qa_questId req) =
    \<lparr>qs_status = (if kills_needed quest \<le> k then 2 else 1), qs_progress = word_of_nat (min k (kills_needed quest))\<rparr>"
  using quest_state_kills [OF OnQuestAccept_progress_ok [OF assms(1)], of k E sid] assms(2)
  by (simp add: quest_state_OnQuestAccept kills_from_accept [OF assms(3)])

theorem quest_kill_count_witness:
  "quest_state ((UpdateQuestProgress sample_env 2 ^^ 5) (OnQuestAccept sample_env 2 \<lparr>qa_questId = 2\<rparr> sample_world)) 2 2
     = \<lparr>qs_status = 2, qs_progress = 5\<rparr>"
  using quest_kill_count [OF sample_progress, of sample_env 2 "\<lparr>qa_questId = 2\<rparr>" _ 5, simplified,
      OF sample_acceptable refl]
  by (simp add: kills_needed_def sample_quest_def)

text \<open>C24: Completing a completable quest adds its gold and experience to the player and levels the player
  up, sets the status to completed, and puts the reward item, by its own template id, into the first
  free slot. The bag stays as it is when the quest has no reward item, when no item has its id, and
  when no slot is free: the item is then lost, although the quest is closed all the same.\<close>

theorem quest_reward_effect:
  assumes "completable E sid (qc_questId req) w" and "FindQuest E (qc_questId req) = Some quest" and "live w sid"
  shows "GetPlayer (OnQuestComplete E sid req w) sid = fst (level_ups (rewarded quest (GetPlayer w sid))) \<and>
    qs_status (quest_state (OnQuestComplete E sid req w) sid (qc_questId req)) = 3 \<and>
    (if qd_rewardItemId quest = 0 \<or> FindItem E (qd_rewardItemId quest) = None \<or> FindEmptySlot (get_inv w sid) = None
     then get_inv (OnQuestComplete E sid req w) sid = get_inv w sid
     else \<exists>slot u. FindEmptySlot (get_inv w sid) = Some slot \<and> get_inv (OnQuestComplete E sid req w) sid =
       set_slot slot \<lparr>sl_itemUid = u, sl_itemTid = qd_rewardItemId quest\<rparr> (get_inv w sid))"
proof -
  obtain v where v: "get_inv v = get_inv w"
    and inv: "get_inv (OnQuestComplete E sid req w) = get_inv (reward_item E sid quest v)"
    using get_inv_OnQuestComplete [OF assms(1,2)] by blast
  have "if qd_rewardItemId quest = 0 \<or> FindItem E (qd_rewardItemId quest) = None \<or> FindEmptySlot (get_inv w sid) = None
     then get_inv (OnQuestComplete E sid req w) sid = get_inv w sid
     else \<exists>slot u. FindEmptySlot (get_inv w sid) = Some slot \<and> get_inv (OnQuestComplete E sid req w) sid =
       set_slot slot \<lparr>sl_itemUid = u, sl_itemTid = qd_rewardItemId quest\<rparr> (get_inv w sid)"
    using get_inv_grant_item_slot [of E sid "qd_rewardItemId quest" v] by (auto simp: inv v get_inv_reward_item)
  moreover have "GetPlayer (OnQuestComplete E sid req w) sid = fst (level_ups (rewarded quest (GetPlayer w sid)))"
    using assms by (simp add: GetPlayer_OnQuestComplete)
  moreover have "qs_status (quest_state (OnQuestComplete E sid req w) sid (qc_questId req)) = 3"
    using assms(1) by (simp add: quest_state_OnQuestComplete)
  ultimately show ?thesis by blast
qed

text \<open>The second quest completable, and no slot left.\<close>

definition full_world :: "nat world" where
  "full_world = sample_world\<lparr>
     w_questProgress := [(1, [(2, \<lparr>qs_status = 2, qs_progress = 5\<rparr>)])],
     w_inventories := [(1, new_inventory\<lparr>inv_slots := replicate 20 \<lparr>sl_itemUid = 9, sl_itemTid = 3\<rparr>\<rparr>)]\<rparr>"

lemma full_world_facts:
  "completable sample_env 1 2 full_world" "live full_world 1" "inventories_ok full_world"
  "FindEmptySlot (get_inv full_world 1) = None"
proof -
  have "GetPlayer full_world = GetPlayer sample_world" "live full_world = live sample_world"
    by (rule sessions_cong, simp add: full_world_def)+
  then show "completable sample_env 1 2 full_world" "live full_world 1"
    by (simp_all add: completable_def sample_near quest_state_def get_qp_def om_get_def full_world_def)
  show "inventories_ok full_world"
    by (simp add: inventories_ok_def get_inv_def om_get_def full_world_def inv_wf_def new_inventory_def MAX_INVENTORY_def)
  show "FindEmptySlot (get_inv full_world 1) = None"
    by (simp add: FindEmptySlot_None get_inv_def om_get_def full_world_def MAX_INVENTORY_def)
qed

theorem quest_reward_effect_witness:
  "get_inv (OnQuestComplete sample_env 1 \<lparr>qc_questId = 2\<rparr> full_world) 1 = get_inv full_world 1 \<and>
   qs_status (quest_state (OnQuestComplete sample_env 1 \<lparr>qc_questId = 2\<rparr> full_world) 1 2) = 3"
  using quest_reward_effect [of sample_env 1 "\<lparr>qc_questId = 2\<rparr>" full_world, simplified, OF full_world_facts(1) refl
      full_world_facts(2)]
  by (simp add: full_world_facts)

end
