(* ===== verification/Combat.thy ===== *)
theory Combat
  imports Party Quest
begin

text \<open>
  NPCs and combat of \<open>GameServer/main.cpp\<close>: spawning, telling a session of the NPCs, and
  \<open>OnAttack\<close> with everything a kill sets off: the death message, experience and gold for the
  killer or shared out in its party, the kill counts of quests, the item drop, and the
  respawn of the first dead NPC. Two divisions can bring the process down: by the size of the
  killer's party and by the total weight of the drop table.
\<close>

subsection \<open>NPCs\<close>

definition npc_spawn :: "NPC \<Rightarrow> SC_NpcSpawn" where
  "npc_spawn npc = \<lparr>ns_npcUid = n_uid npc, ns_posX = n_posX npc, ns_posY = n_posY npc,
     ns_hp = n_hp npc, ns_maxHp = n_maxHp npc\<rparr>"

definition set_npc :: "nat \<Rightarrow> (NPC \<Rightarrow> NPC) \<Rightarrow> 'd world \<Rightarrow> 'd world" where
  "set_npc i f w = w\<lparr>w_npcs := (w_npcs w)[i := f (w_npcs w ! i)]\<rparr>"

definition npc_born :: "u64 \<Rightarrow> nat \<Rightarrow> nat \<Rightarrow> NPC \<Rightarrow> NPC" where
  "npc_born uid x y npc = npc\<lparr>n_uid := uid, n_posX := word_of_nat (x mod MAP_SIZE),
     n_posY := word_of_nat (y mod MAP_SIZE), n_hp := 30, n_maxHp := 30, n_alive := True\<rparr>"

definition SpawnNPC :: "'d env \<Rightarrow> nat \<Rightarrow> 'd world \<Rightarrow> 'd world" where
  "SpawnNPC E index w =
     (let uid = w_nextNpcUid w;
          (x, w1) = draw E (w\<lparr>w_nextNpcUid := uid + 1\<rparr>);
          (y, w2) = draw E w1;
          w3 = set_npc index (npc_born uid x y) w2
      in Broadcast (P_NpcSpawn (npc_spawn (w_npcs w3 ! index))) w3)"

definition SendAllNPCs :: "SessionId \<Rightarrow> 'd world \<Rightarrow> 'd world" where
  "SendAllNPCs sid w = fold (\<lambda>npc w. if n_alive npc then Send sid (P_NpcSpawn (npc_spawn npc)) w else w)
     (w_npcs w) w"

subsection \<open>The target\<close>

definition find_npc :: "NPC list \<Rightarrow> u64 \<Rightarrow> nat option" where
  "find_npc npcs uid = find (\<lambda>i. n_alive (npcs ! i) \<and> n_uid (npcs ! i) = uid) [0..<MAX_NPC]"

definition adjacent :: "NPC \<Rightarrow> PlayerData \<Rightarrow> bool" where
  "adjacent npc p \<longleftrightarrow> \<bar>sint (n_posX npc) - sint (p_posX p)\<bar> \<le> 1 \<and>
     \<bar>sint (n_posY npc) - sint (p_posY p)\<bar> \<le> 1"

definition attack_target :: "'d world \<Rightarrow> SessionId \<Rightarrow> u64 \<Rightarrow> nat option" where
  "attack_target w sid uid = (case find_npc (w_npcs w) uid of
     None \<Rightarrow> None
   | Some i \<Rightarrow> if adjacent (w_npcs w ! i) (GetPlayer w sid) then Some i else None)"

definition damage_of :: "u16 \<Rightarrow> u16 \<Rightarrow> u16" where
  "damage_of atk armor = (if armor < atk then atk - armor else 1)"

definition hp_left :: "u16 \<Rightarrow> u16 \<Rightarrow> u16" where
  "hp_left hp damage = (if damage < hp then hp - damage else 0)"

subsection \<open>What a kill is worth\<close>

definition gain :: "u32 \<Rightarrow> u32 \<Rightarrow> PlayerData \<Rightarrow> PlayerData" where
  "gain xp gold p = p\<lparr>p_exp := p_exp p + ucast xp, p_gold := p_gold p + ucast gold\<rparr>"

definition share_with :: "'d env \<Rightarrow> SessionId \<Rightarrow> u32 \<Rightarrow> u32 \<Rightarrow> SessionId \<Rightarrow> 'd world \<Rightarrow> 'd world" where
  "share_with E killer sharedExp sharedGold mid w =
     (if GetSession w mid = None then w
      else
        let w1 = upd_player mid (gain sharedExp sharedGold) w;
            w2 = exp_update mid w1;
            w3 = CheckLevelUp mid w2
        in if mid \<noteq> killer then UpdateQuestProgress E mid w3 else w3)"

definition reward_kill :: "'d env \<Rightarrow> SessionId \<Rightarrow> NPC \<Rightarrow> 'd world \<Rightarrow> 'd world result" where
  "reward_kill E sid target w = (case map_of (w_playerParty w) sid of
     None \<Rightarrow>
       let w1 = upd_player sid (gain (n_expReward target) (n_goldReward target)) w;
           w2 = exp_update sid w1
       in Inr (CheckLevelUp sid w2)
   | Some partyId \<Rightarrow>
       let w1 = ensure_party partyId w;
           members = pt_members (get_party w1 partyId);
           n = length members
       in if n = 0 then Inl DivideByZero
          else Inr (fold (share_with E sid (n_expReward target div word_of_nat n)
                            (n_goldReward target div word_of_nat n)) members w1))"

definition item_drop :: "'d env \<Rightarrow> SessionId \<Rightarrow> 'd world \<Rightarrow> 'd world result" where
  "item_drop E sid w = bind_result (RollDrop E (w_rand w)) (\<lambda>(dropId, ix).
     let w1 = w\<lparr>w_rand := ix\<rparr> in Inr (if dropId = 0 then w1 else grant_item E sid dropId w1))"

definition respawn :: "'d env \<Rightarrow> 'd world \<Rightarrow> 'd world" where
  "respawn E w = (case find (\<lambda>i. \<not> n_alive (w_npcs w ! i)) [0..<MAX_NPC] of
     None \<Rightarrow> w | Some i \<Rightarrow> SpawnNPC E i w)"

subsection \<open>The attack handler\<close>

definition on_kill :: "'d env \<Rightarrow> SessionId \<Rightarrow> nat \<Rightarrow> 'd world \<Rightarrow> 'd world result" where
  "on_kill E sid i w =
     (let target = w_npcs w ! i;
          w1 = Broadcast (P_NpcDeath \<lparr>nd_npcUid = n_uid target, nd_expReward = n_expReward target,
                 nd_goldReward = n_goldReward target\<rparr>) w;
          w2 = set_npc i (\<lambda>npc. npc\<lparr>n_alive := False\<rparr>) w1
      in bind_result (reward_kill E sid target w2) (\<lambda>w3.
           bind_result (item_drop E sid (UpdateQuestProgress E sid w3)) (\<lambda>w4. Inr (respawn E w4))))"

definition OnAttack :: "'d env \<Rightarrow> SessionId \<Rightarrow> CS_Attack \<Rightarrow> 'd world \<Rightarrow> 'd world result" where
  "OnAttack E sid atk w = (case attack_target w sid (at_targetUid atk) of
     None \<Rightarrow> Inr (Send sid (P_AttackResult \<lparr>ar_success = 0, ar_targetUid = 0, ar_damage = 0,
                    ar_targetHp = 0\<rparr>) w)
   | Some i \<Rightarrow>
       let target = w_npcs w ! i;
           damage = damage_of (p_atk (GetPlayer w sid)) (n_def target);
           hp = hp_left (n_hp target) damage;
           w1 = set_npc i (\<lambda>npc. npc\<lparr>n_hp := hp\<rparr>) w;
           w2 = Send sid (P_AttackResult \<lparr>ar_success = 1, ar_targetUid = n_uid target,
                  ar_damage = damage, ar_targetHp = hp\<rparr>) w1
       in if hp = 0 then on_kill E sid i w2 else Inr w2)"

subsection \<open>Frames\<close>

lemma set_npc_frame [simp, frame]:
  "w_sessions (set_npc i f w) = w_sessions w"
  "w_nextSessionId (set_npc i f w) = w_nextSessionId w"
  "w_nextNpcUid (set_npc i f w) = w_nextNpcUid w"
  "w_questProgress (set_npc i f w) = w_questProgress w"
  "w_nextPartyId (set_npc i f w) = w_nextPartyId w" "w_parties (set_npc i f w) = w_parties w"
  "w_playerParty (set_npc i f w) = w_playerParty w"
  "w_pendingInvites (set_npc i f w) = w_pendingInvites w"
  "w_inventories (set_npc i f w) = w_inventories w" "w_rand (set_npc i f w) = w_rand w"
  "w_db (set_npc i f w) = w_db w" "w_out (set_npc i f w) = w_out w"
  by (simp_all add: set_npc_def)

lemma SpawnNPC_frame [simp, frame]:
  "w_sessions (SpawnNPC E i w) = w_sessions w"
  "w_nextSessionId (SpawnNPC E i w) = w_nextSessionId w"
  "w_questProgress (SpawnNPC E i w) = w_questProgress w"
  "w_nextPartyId (SpawnNPC E i w) = w_nextPartyId w" "w_parties (SpawnNPC E i w) = w_parties w"
  "w_playerParty (SpawnNPC E i w) = w_playerParty w"
  "w_pendingInvites (SpawnNPC E i w) = w_pendingInvites w"
  "w_inventories (SpawnNPC E i w) = w_inventories w" "w_db (SpawnNPC E i w) = w_db w"
  by (simp_all add: SpawnNPC_def draw_def Let_def)

lemma SendAllNPCs_frame [simp, frame]:
  "w_sessions (SendAllNPCs sid w) = w_sessions w"
  "w_nextSessionId (SendAllNPCs sid w) = w_nextSessionId w"
  "w_npcs (SendAllNPCs sid w) = w_npcs w" "w_nextNpcUid (SendAllNPCs sid w) = w_nextNpcUid w"
  "w_questProgress (SendAllNPCs sid w) = w_questProgress w"
  "w_nextPartyId (SendAllNPCs sid w) = w_nextPartyId w"
  "w_parties (SendAllNPCs sid w) = w_parties w"
  "w_playerParty (SendAllNPCs sid w) = w_playerParty w"
  "w_pendingInvites (SendAllNPCs sid w) = w_pendingInvites w"
  "w_inventories (SendAllNPCs sid w) = w_inventories w" "w_rand (SendAllNPCs sid w) = w_rand w"
  "w_db (SendAllNPCs sid w) = w_db w"
  by (simp_all add: SendAllNPCs_def fold_keeps)

lemma share_with_frame [simp, frame]:
  "w_nextSessionId (share_with E k x g mid w) = w_nextSessionId w"
  "w_npcs (share_with E k x g mid w) = w_npcs w"
  "w_nextNpcUid (share_with E k x g mid w) = w_nextNpcUid w"
  "w_nextPartyId (share_with E k x g mid w) = w_nextPartyId w"
  "w_parties (share_with E k x g mid w) = w_parties w"
  "w_playerParty (share_with E k x g mid w) = w_playerParty w"
  "w_pendingInvites (share_with E k x g mid w) = w_pendingInvites w"
  "w_inventories (share_with E k x g mid w) = w_inventories w"
  "w_rand (share_with E k x g mid w) = w_rand w"
  by (simp_all add: share_with_def Let_def)

lemma respawn_frame [simp, frame]:
  "w_sessions (respawn E w) = w_sessions w" "w_nextSessionId (respawn E w) = w_nextSessionId w"
  "w_questProgress (respawn E w) = w_questProgress w"
  "w_nextPartyId (respawn E w) = w_nextPartyId w" "w_parties (respawn E w) = w_parties w"
  "w_playerParty (respawn E w) = w_playerParty w"
  "w_pendingInvites (respawn E w) = w_pendingInvites w"
  "w_inventories (respawn E w) = w_inventories w" "w_db (respawn E w) = w_db w"
  by (simp_all add: respawn_def split: option.split)

lemma reward_kill_frame:
  assumes "reward_kill E sid npc w = Inr w'"
  shows
  "w_nextSessionId w' = w_nextSessionId w" "w_npcs w' = w_npcs w"
  "w_nextNpcUid w' = w_nextNpcUid w" "w_nextPartyId w' = w_nextPartyId w"
  "w_playerParty w' = w_playerParty w" "w_pendingInvites w' = w_pendingInvites w"
  "w_inventories w' = w_inventories w" "w_rand w' = w_rand w"
  using assms
  by (auto simp: reward_kill_def Let_def fold_keeps split: option.splits if_splits)

lemma item_drop_frame:
  assumes "item_drop E sid w = Inr w'"
  shows
  "w_sessions w' = w_sessions w" "w_nextSessionId w' = w_nextSessionId w" "w_npcs w' = w_npcs w"
  "w_nextNpcUid w' = w_nextNpcUid w" "w_questProgress w' = w_questProgress w"
  "w_nextPartyId w' = w_nextPartyId w" "w_parties w' = w_parties w"
  "w_playerParty w' = w_playerParty w" "w_pendingInvites w' = w_pendingInvites w"
  using assms
  by (auto simp: item_drop_def bind_result_Inr Let_def split: prod.splits)

lemma combat_sessions [simp]:
  "GetPlayer (set_npc i f w) = GetPlayer w" "live (set_npc i f w) = live w"
  "GetPlayer (SpawnNPC E j w) = GetPlayer w" "live (SpawnNPC E j w) = live w"
  "GetPlayer (SendAllNPCs sid w) = GetPlayer w" "live (SendAllNPCs sid w) = live w"
  "GetPlayer (respawn E w) = GetPlayer w" "live (respawn E w) = live w"
  by (rule sessions_cong, simp)+

lemma item_drop_sessions: "item_drop E sid w = Inr w' \<Longrightarrow> w_sessions w' = w_sessions w"
  by (rule item_drop_frame)

subsection \<open>Damage\<close>

lemma damage_pos: "0 < unat (damage_of atk armor)"
  by (auto simp: damage_of_def unat_gt_0 word_less_nat_alt unat_sub_le)

lemma damage_exact: "unat (damage_of atk armor) = (if unat armor < unat atk then unat atk - unat armor else 1)"
  by (simp add: damage_of_def word_less_nat_alt unat_sub_le word_le_nat_alt)

lemma hp_left_exact: "unat (hp_left hp damage) = unat hp - unat damage"
  by (simp add: hp_left_def word_less_nat_alt unat_sub_le word_le_nat_alt)

lemma hp_left_zero: "hp_left hp damage = 0 \<longleftrightarrow> hp \<le> damage"
  using hp_left_exact [of hp damage] by (auto simp: word_le_nat_alt unat_eq_zero [symmetric])

subsection \<open>Sharing\<close>

definition level_gain :: "u32 \<Rightarrow> u32 \<Rightarrow> PlayerData \<Rightarrow> PlayerData" where
  "level_gain xp gold p = fst (level_ups (gain xp gold p))"

lemma level_gain_gold: "p_gold (level_gain xp gold p) = p_gold p + ucast gold"
  by (simp add: level_gain_def level_ups_frame gain_def)

lemma level_gain_gold_times: "p_gold ((level_gain xp gold ^^ n) p) = p_gold p + word_of_nat n * ucast gold"
  by (induction n) (simp_all add: level_gain_gold algebra_simps)

lemma live_share [simp]: "live (share_with E k xp gold mid w) i \<longleftrightarrow> live w i"
  by (simp add: share_with_def Let_def)

lemma GetPlayer_share:
  "GetPlayer (share_with E k xp gold mid w) i =
     (if i = mid \<and> live w mid then level_gain xp gold (GetPlayer w mid) else GetPlayer w i)"
  by (auto simp: share_with_def Let_def GetPlayer_CheckLevelUp GetPlayer_upd_player
      GetSession_upd_player live_def level_gain_def)

lemma live_shares [simp]: "live (fold (share_with E k xp gold) ms w) i \<longleftrightarrow> live w i"
  by (induction ms arbitrary: w) simp_all

lemma GetPlayer_shares:
  "GetPlayer (fold (share_with E k xp gold) ms w) i =
     (if live w i then (level_gain xp gold ^^ count_list ms i) (GetPlayer w i) else GetPlayer w i)"
  by (induction ms arbitrary: w) (auto simp: GetPlayer_share funpow_swap1)

lemma share_progress_ok: "progress_ok w \<Longrightarrow> progress_ok (share_with E k xp gold mid w)"
  by (auto simp: share_with_def Let_def intro!: UpdateQuestProgress_progress_ok)
    (simp_all add: progress_ok_def)

lemma quest_state_share:
  assumes "progress_ok w"
  shows "quest_state (share_with E k xp gold mid w) i q =
     (if i = mid \<and> live w mid \<and> mid \<noteq> k then kill_effect E q (quest_state w i q) else quest_state w i q)"
proof -
  have "progress_ok (CheckLevelUp mid (exp_update mid (upd_player mid (gain xp gold) w)))"
    using assms by (simp add: progress_ok_def)
  then show ?thesis
    by (auto simp: share_with_def Let_def live_def quest_state_UpdateQuestProgress)
qed

lemma quest_state_shares:
  assumes "progress_ok w"
  shows "quest_state (fold (share_with E k xp gold) ms w) i q =
     (if i \<noteq> k \<and> live w i then (kill_effect E q ^^ count_list ms i) (quest_state w i q)
      else quest_state w i q)"
  using assms
  by (induction ms arbitrary: w) (auto simp: quest_state_share funpow_swap1 share_progress_ok)

lemma shares_progress_ok: "progress_ok w \<Longrightarrow> progress_ok (fold (share_with E k xp gold) ms w)"
  by (rule fold_invariant) (simp_all add: share_progress_ok)

lemma get_inv_shares [simp]: "get_inv (fold (share_with E k xp gold) ms w) = get_inv w"
  by (rule get_inv_cong) (simp add: fold_keeps)

text \<open>What the members of a kill's party get, one share for each time they are listed.\<close>

definition kill_shares :: "'d world \<Rightarrow> SessionId \<Rightarrow> SessionId list" where
  "kill_shares w sid = (case party_of w sid of None \<Rightarrow> [sid]
     | Some p \<Rightarrow> (case party_at w p of None \<Rightarrow> [] | Some ms \<Rightarrow> ms))"

definition kill_share :: "'d world \<Rightarrow> SessionId \<Rightarrow> u32 \<Rightarrow> u32" where
  "kill_share w sid amount = (case party_of w sid of None \<Rightarrow> amount
     | Some p \<Rightarrow> amount div word_of_nat (length (kill_shares w sid)))"

lemma kill_shares_self: "members_ok w \<Longrightarrow> sid \<in> set (kill_shares w sid)"
  by (auto simp: kill_shares_def dest: members_okD split: option.split)

lemma reward_kill_Inr:
  assumes "members_ok w"
  shows "\<exists>w'. reward_kill E sid target w = Inr w'"
  using assms
  by (auto simp: reward_kill_def party_of_def [symmetric] Let_def get_party_members dest!: members_okD
      split: option.split)

lemma reward_kill_players:
  assumes "reward_kill E sid target w = Inr w'" and "members_ok w"
  shows "live w' i \<longleftrightarrow> live w i"
    and "GetPlayer w' i = (if live w i then (level_gain (kill_share w sid (n_expReward target))
      (kill_share w sid (n_goldReward target)) ^^ count_list (kill_shares w sid) i) (GetPlayer w i)
      else GetPlayer w i)"
proof -
  have ens: "GetPlayer (ensure_party p w) = GetPlayer w" "live (ensure_party p w) = live w" for p
    by (rule sessions_cong, simp)+
  show "live w' i \<longleftrightarrow> live w i"
    using assms(1) by (auto simp: reward_kill_def Let_def ens split: option.splits if_splits)
  show "GetPlayer w' i = (if live w i then (level_gain (kill_share w sid (n_expReward target))
      (kill_share w sid (n_goldReward target)) ^^ count_list (kill_shares w sid) i) (GetPlayer w i)
      else GetPlayer w i)"
  proof (cases "party_of w sid")
    case None
    then show ?thesis using assms(1)
      by (auto simp: reward_kill_def party_of_def [symmetric] Let_def kill_shares_def kill_share_def
          GetPlayer_CheckLevelUp GetPlayer_upd_player level_gain_def)
  next
    case (Some p)
    then obtain ms where ms: "party_at w p = Some ms" "sid \<in> set ms"
      using assms(2) by (auto dest: members_okD)
    then show ?thesis using assms(1) Some
      by (auto simp: reward_kill_def party_of_def [symmetric] Let_def kill_shares_def kill_share_def
          get_party_members GetPlayer_shares ens split: if_splits)
  qed
qed

lemma reward_kill_progress:
  assumes "reward_kill E sid target w = Inr w'" and "members_ok w" and "progress_ok w"
  shows "progress_ok w'"
    and "quest_state w' i q = (if i \<noteq> sid \<and> live w i
      then (kill_effect E q ^^ count_list (kill_shares w sid) i) (quest_state w i q) else quest_state w i q)"
proof -
  have ens: "quest_state (ensure_party p w) = quest_state w" "progress_ok (ensure_party p w)" for p
    using assms(3) by (auto simp: quest_state_def get_qp_def progress_ok_def fun_eq_iff)
  have ens_live: "live (ensure_party p w) = live w" for p
    by (rule sessions_cong) simp
  show "progress_ok w'"
    using assms(1,3)
    by (auto simp: reward_kill_def Let_def shares_progress_ok ens progress_ok_def [of "CheckLevelUp _ _"]
        split: option.splits if_splits)
  show "quest_state w' i q = (if i \<noteq> sid \<and> live w i
      then (kill_effect E q ^^ count_list (kill_shares w sid) i) (quest_state w i q) else quest_state w i q)"
  proof (cases "party_of w sid")
    case None
    then show ?thesis using assms(1)
      by (auto simp: reward_kill_def party_of_def [symmetric] Let_def kill_shares_def)
  next
    case (Some p)
    then obtain ms where ms: "party_at w p = Some ms" "sid \<in> set ms"
      using assms(2) by (auto dest: members_okD)
    then show ?thesis using assms(1) Some
      by (auto simp: reward_kill_def party_of_def [symmetric] Let_def kill_shares_def
          get_party_members quest_state_shares ens ens_live split: if_splits)
  qed
qed

lemma get_inv_reward_kill: "reward_kill E sid target w = Inr w' \<Longrightarrow> get_inv w' = get_inv w"
  by (auto simp: get_inv_cong [OF reward_kill_frame(7)])

subsection \<open>The NPC invariant\<close>

definition npc_ok :: "NPC \<Rightarrow> bool" where
  "npc_ok npc \<longleftrightarrow> n_alive npc \<and> 0 < n_hp npc \<and> n_hp npc \<le> n_maxHp npc \<and> n_maxHp npc = 30 \<and>
     in_map (n_posX npc) \<and> in_map (n_posY npc) \<and>
     n_atk npc = 5 \<and> n_def npc = 2 \<and> n_expReward npc = 30 \<and> n_goldReward npc = 10"

definition npcs_ok :: "'d world \<Rightarrow> bool" where
  "npcs_ok w \<longleftrightarrow> length (w_npcs w) = MAX_NPC \<and> list_all npc_ok (w_npcs w) \<and>
     distinct (map n_uid (w_npcs w)) \<and> (\<forall>npc \<in> set (w_npcs w). n_uid npc < w_nextNpcUid w)"

lemma npcs_ok_nth: "npcs_ok w \<Longrightarrow> i < MAX_NPC \<Longrightarrow> npc_ok (w_npcs w ! i)"
  by (simp add: npcs_ok_def list_all_length)

lemma npcs_ok_cong: "w_npcs w' = w_npcs w \<Longrightarrow> w_nextNpcUid w' = w_nextNpcUid w \<Longrightarrow> npcs_ok w' \<longleftrightarrow> npcs_ok w"
  by (simp add: npcs_ok_def)

lemma sint_small: "k < 20 \<Longrightarrow> sint (word_of_nat k :: i16) = int k"
  by (simp add: signed_of_nat signed_take_bit_int_eq_self)

lemma in_map_random: "in_map (word_of_nat (x mod MAP_SIZE))"
  using sint_small [of "x mod 20"] by (simp add: in_map_def MAP_SIZE_def)

lemma npc_born_ok:
  "n_atk npc = 5 \<Longrightarrow> n_def npc = 2 \<Longrightarrow> n_expReward npc = 30 \<Longrightarrow> n_goldReward npc = 10 \<Longrightarrow>
     npc_ok (npc_born uid x y npc)"
  by (simp add: npc_ok_def npc_born_def in_map_random)

lemma w_npcs_SpawnNPC:
  "w_npcs (SpawnNPC E i w) = (w_npcs w)[i := npc_born (w_nextNpcUid w)
     (rand_value E (w_rand w)) (rand_value E (Suc (w_rand w))) (w_npcs w ! i)]"
  by (simp add: SpawnNPC_def draw_def Let_def set_npc_def)

lemma w_nextNpcUid_SpawnNPC: "w_nextNpcUid (SpawnNPC E i w) = w_nextNpcUid w + 1"
  by (simp add: SpawnNPC_def draw_def Let_def)

lemma find_npc_Some:
  "find_npc npcs uid = Some i \<Longrightarrow> i < MAX_NPC \<and> n_alive (npcs ! i) \<and> n_uid (npcs ! i) = uid"
  by (auto simp: find_npc_def find_Some_iff)

lemma attack_target_Some:
  "attack_target w sid uid = Some i \<longleftrightarrow> find_npc (w_npcs w) uid = Some i \<and>
     adjacent (w_npcs w ! i) (GetPlayer w sid)"
  by (auto simp: attack_target_def split: option.splits)

lemma set_npc_npcs: "w_npcs (set_npc i f w) = (w_npcs w)[i := f (w_npcs w ! i)]"
  by (simp add: set_npc_def)

text \<open>A wound that does not kill keeps the invariant.\<close>

lemma npcs_ok_wound:
  assumes "npcs_ok w" and "i < MAX_NPC" and "0 < hp" and "hp \<le> n_hp (w_npcs w ! i)"
  shows "npcs_ok (set_npc i (\<lambda>npc. npc\<lparr>n_hp := hp\<rparr>) w)"
proof -
  have ok: "npc_ok (w_npcs w ! i)" by (rule npcs_ok_nth [OF assms(1,2)])
  then have "npc_ok ((w_npcs w ! i)\<lparr>n_hp := hp\<rparr>)"
    using assms(3,4) by (auto simp: npc_ok_def intro: order_trans)
  moreover have "map n_uid ((w_npcs w)[i := (w_npcs w ! i)\<lparr>n_hp := hp\<rparr>]) = map n_uid (w_npcs w)"
    using assms(1,2) by (simp add: map_update npcs_ok_def list_update_same_conv)
  moreover have "\<forall>npc \<in> set ((w_npcs w)[i := (w_npcs w ! i)\<lparr>n_hp := hp\<rparr>]). n_uid npc < w_nextNpcUid w"
    using assms(1,2) by (auto simp: npcs_ok_def dest!: set_update_subset_insert [THEN subsetD])
  ultimately show ?thesis
    using assms(1) by (simp add: npcs_ok_def set_npc_npcs list_all_update)
qed

text \<open>The dead one is the one that is found, and the newborn takes its place under a new id.\<close>

lemma respawn_dead:
  assumes "npcs_ok w" and "i < MAX_NPC" and "w_npcs v = (w_npcs w)[i := dead]" and "\<not> n_alive dead"
  shows "respawn E v = SpawnNPC E i v"
proof -
  have len: "length (w_npcs w) = MAX_NPC" using assms(1) by (simp add: npcs_ok_def)
  have "n_alive (w_npcs v ! j) \<longleftrightarrow> j \<noteq> i" if "j < MAX_NPC" for j
    using that assms len npcs_ok_nth [OF assms(1) that] by (auto simp: nth_list_update npc_ok_def)
  then have "find (\<lambda>j. \<not> n_alive (w_npcs v ! j)) [0..<MAX_NPC] = Some i"
    using assms(2) by (subst find_Some_iff) auto
  then show ?thesis by (simp add: respawn_def)
qed

lemma npcs_ok_reborn:
  assumes "npcs_ok w" and "i < MAX_NPC" and "w_npcs v = (w_npcs w)[i := dead]"
    and "w_nextNpcUid v = w_nextNpcUid w" and "w_nextNpcUid w \<noteq> - 1"
    and "n_atk dead = 5" "n_def dead = 2" "n_expReward dead = 30" "n_goldReward dead = 10"
  shows "npcs_ok (SpawnNPC E i v)"
proof -
  let ?born = "npc_born (w_nextNpcUid v) (rand_value E (w_rand v)) (rand_value E (Suc (w_rand v))) dead"
  have len: "length (w_npcs w) = MAX_NPC" using assms(1) by (simp add: npcs_ok_def)
  have npcs: "w_npcs (SpawnNPC E i v) = (w_npcs w)[i := ?born]"
    using assms(2,3) len by (simp add: w_npcs_SpawnNPC)
  have up: "w_nextNpcUid w < w_nextNpcUid w + 1" using assms(5) by (rule word_less_succ)
  have uid: "n_uid ?born = w_nextNpcUid w" using assms(4) by (simp add: npc_born_def)
  have fresh: "w_nextNpcUid w \<notin> set (map n_uid (w_npcs w))"
    using assms(1) by (auto simp: npcs_ok_def)
  have "distinct (map n_uid ((w_npcs w)[i := ?born]))"
    using fresh assms(1,2) len uid by (simp add: map_update npcs_ok_def distinct_list_update del: set_map)
  moreover have "npc_ok ?born" using assms(6-9) by (rule npc_born_ok)
  moreover have "n_uid npc < w_nextNpcUid w + 1" if "npc \<in> set ((w_npcs w)[i := ?born])" for npc
    using that up uid assms(1) by (auto simp: npcs_ok_def dest!: set_update_subset_insert [THEN subsetD] intro: less_trans)
  ultimately show ?thesis
    using assms(1,4) len by (simp add: npcs_ok_def npcs w_nextNpcUid_SpawnNPC list_all_update)
qed

subsection \<open>An attack\<close>

text \<open>The world right after the death message, and what is shared from then on.\<close>

definition after_death :: "SessionId \<Rightarrow> nat \<Rightarrow> 'd world \<Rightarrow> 'd world" where
  "after_death sid i w =
     set_npc i (\<lambda>npc. npc\<lparr>n_alive := False\<rparr>) (Broadcast (P_NpcDeath
       \<lparr>nd_npcUid = n_uid (w_npcs w ! i), nd_expReward = n_expReward (w_npcs w ! i),
        nd_goldReward = n_goldReward (w_npcs w ! i)\<rparr>) w)"

lemma after_death_frame [simp, frame]:
  "w_sessions (after_death sid i w) = w_sessions w" "w_nextNpcUid (after_death sid i w) = w_nextNpcUid w"
  "w_questProgress (after_death sid i w) = w_questProgress w" "w_parties (after_death sid i w) = w_parties w"
  "w_playerParty (after_death sid i w) = w_playerParty w" "w_nextPartyId (after_death sid i w) = w_nextPartyId w"
  "w_inventories (after_death sid i w) = w_inventories w" "w_rand (after_death sid i w) = w_rand w"
  "w_nextSessionId (after_death sid i w) = w_nextSessionId w" "w_db (after_death sid i w) = w_db w"
  "w_pendingInvites (after_death sid i w) = w_pendingInvites w"
  "w_npcs (after_death sid i w) = (w_npcs w)[i := (w_npcs w ! i)\<lparr>n_alive := False\<rparr>]"
  by (simp_all add: after_death_def set_npc_npcs)

lemma on_kill_eq:
  "on_kill E sid i w =
     bind_result (reward_kill E sid (w_npcs w ! i) (after_death sid i w)) (\<lambda>w3.
       bind_result (item_drop E sid (UpdateQuestProgress E sid w3)) (\<lambda>w4. Inr (respawn E w4)))"
  by (simp add: on_kill_def after_death_def Let_def)

lemma item_drop_Inr: "drop_table_ok E \<Longrightarrow> \<exists>w'. item_drop E sid w = Inr w'"
  using RollDrop_no_crash [of E "w_rand w"] by (auto simp: item_drop_def Let_def)

lemma on_kill_Inr:
  assumes "members_ok w" and "drop_table_ok E"
  shows "\<exists>w'. on_kill E sid i w = Inr w'"
proof -
  have "members_ok (after_death sid i w)"
    using assms(1) party_inv_cong(1) [of "after_death sid i w" w] by simp
  then obtain w3 where "reward_kill E sid (w_npcs w ! i) (after_death sid i w) = Inr w3"
    using reward_kill_Inr by blast
  moreover obtain w4 where "item_drop E sid (UpdateQuestProgress E sid w3) = Inr w4"
    using item_drop_Inr [OF assms(2)] by blast
  ultimately show ?thesis by (simp add: on_kill_eq)
qed

lemma OnAttack_Inr:
  assumes "members_ok w" and "drop_table_ok E"
  shows "\<exists>w'. OnAttack E sid atk w = Inr w'"
proof (cases "attack_target w sid (at_targetUid atk)")
  case (Some i)
  have "members_ok v" if "w_playerParty v = w_playerParty w" "w_parties v = w_parties w" for v :: "'a world"
    using that assms(1) party_inv_cong(1) [of v w] by simp
  with Some show ?thesis by (auto simp: OnAttack_def Let_def intro!: on_kill_Inr assms(2))
qed (simp add: OnAttack_def)

lemma on_kill_cases:
  assumes "on_kill E sid i w = Inr w'"
  obtains w3 w4 where "reward_kill E sid (w_npcs w ! i) (after_death sid i w) = Inr w3"
    and "item_drop E sid (UpdateQuestProgress E sid w3) = Inr w4" and "w' = respawn E w4"
  using assms by (auto simp: on_kill_eq bind_result_Inr)

lemma GetPlayer_item_drop: "item_drop E sid w = Inr w' \<Longrightarrow> GetPlayer w' = GetPlayer w"
  and live_item_drop: "item_drop E sid w = Inr w' \<Longrightarrow> live w' = live w"
  by (rule sessions_cong, rule item_drop_sessions, assumption)+

lemma after_death_sessions [simp]:
  "GetPlayer (after_death sid i w) = GetPlayer w" "live (after_death sid i w) = live w"
  by (rule sessions_cong, simp)+

lemma kill_shares_cong:
  assumes "w_playerParty v = w_playerParty w" and "w_parties v = w_parties w"
  shows "kill_shares v sid = kill_shares w sid" "kill_share v sid amount = kill_share w sid amount"
  using assms by (simp_all add: kill_shares_def kill_share_def party_of_def party_at_def cong: option.case_cong)

lemma on_kill_players:
  assumes "on_kill E sid i w = Inr w'" and "members_ok w"
  shows "live w' j \<longleftrightarrow> live w j"
    and "GetPlayer w' j = (if live w j then (level_gain (kill_share w sid (n_expReward (w_npcs w ! i)))
      (kill_share w sid (n_goldReward (w_npcs w ! i))) ^^ count_list (kill_shares w sid) j) (GetPlayer w j)
      else GetPlayer w j)"
proof -
  let ?v = "after_death sid i w"
  have mem: "members_ok ?v" using assms(2) party_inv_cong(1) [of ?v w] by simp
  from assms(1) obtain w3 w4 where r: "reward_kill E sid (w_npcs w ! i) ?v = Inr w3"
    and d: "item_drop E sid (UpdateQuestProgress E sid w3) = Inr w4" and w': "w' = respawn E w4"
    by (rule on_kill_cases)
  note p = reward_kill_players [OF r mem]
  show "live w' j \<longleftrightarrow> live w j" by (simp add: w' live_item_drop [OF d] p)
  show "GetPlayer w' j = (if live w j then (level_gain (kill_share w sid (n_expReward (w_npcs w ! i)))
      (kill_share w sid (n_goldReward (w_npcs w ! i))) ^^ count_list (kill_shares w sid) j) (GetPlayer w j)
      else GetPlayer w j)"
    by (simp add: w' GetPlayer_item_drop [OF d] p kill_shares_cong [of ?v w])
qed

lemma item_drop_progress:
  "item_drop E sid w = Inr w' \<Longrightarrow> progress_ok w' \<longleftrightarrow> progress_ok w"
  "item_drop E sid w = Inr w' \<Longrightarrow> quest_state w' = quest_state w"
  using item_drop_frame(5) [of E sid w w'] by (simp_all add: progress_ok_def quest_state_def get_qp_def fun_eq_iff)

lemma on_kill_progress:
  assumes "on_kill E sid i w = Inr w'" and "members_ok w" and "progress_ok w"
  shows "progress_ok w'"
    and "quest_state w' j q = (if j = sid then kill_effect E q (quest_state w j q)
      else if live w j then (kill_effect E q ^^ count_list (kill_shares w sid) j) (quest_state w j q)
      else quest_state w j q)"
proof -
  let ?v = "after_death sid i w"
  have mem: "members_ok ?v" using assms(2) party_inv_cong(1) [of ?v w] by simp
  have qp: "get_qp ?v = get_qp w" by (rule get_qp_cong) simp
  then have prog: "progress_ok ?v" and qs: "quest_state ?v = quest_state w"
    using assms(3) by (simp_all add: progress_ok_def quest_state_def fun_eq_iff)
  from assms(1) obtain w3 w4 where r: "reward_kill E sid (w_npcs w ! i) ?v = Inr w3"
    and d: "item_drop E sid (UpdateQuestProgress E sid w3) = Inr w4" and w': "w' = respawn E w4"
    by (rule on_kill_cases)
  note p = reward_kill_progress [OF r mem prog]
  have "get_qp w' = get_qp w4" by (rule get_qp_cong) (simp add: w')
  then have same: "progress_ok w' \<longleftrightarrow> progress_ok w4" "quest_state w' = quest_state w4"
    by (simp_all add: progress_ok_def quest_state_def fun_eq_iff)
  show "progress_ok w'"
    by (simp add: same item_drop_progress [OF d] UpdateQuestProgress_progress_ok p(1))
  show "quest_state w' j q = (if j = sid then kill_effect E q (quest_state w j q)
      else if live w j then (kill_effect E q ^^ count_list (kill_shares w sid) j) (quest_state w j q)
      else quest_state w j q)"
    by (simp add: same item_drop_progress(2) [OF d] quest_state_UpdateQuestProgress [OF p(1)] p(2)
        kill_shares_cong [of ?v w] qs)
qed

lemma on_kill_npcs:
  assumes "on_kill E sid i w = Inr w'" and "i < MAX_NPC" and "npcs_ok v" and "w_nextNpcUid v \<noteq> - 1"
    and "w_npcs w = (w_npcs v)[i := (w_npcs v ! i)\<lparr>n_hp := 0\<rparr>]" and "w_nextNpcUid w = w_nextNpcUid v"
  shows "npcs_ok w' \<and> n_uid (w_npcs w' ! i) = w_nextNpcUid v \<and> n_hp (w_npcs w' ! i) = 30
    \<and> (\<forall>j. j \<noteq> i \<longrightarrow> w_npcs w' ! j = w_npcs v ! j) \<and> w_nextNpcUid w' = w_nextNpcUid v + 1"
proof -
  have len: "length (w_npcs v) = MAX_NPC" using assms(3) by (simp add: npcs_ok_def)
  have ok: "npc_ok (w_npcs v ! i)" by (rule npcs_ok_nth [OF assms(3,2)])
  let ?dead = "(w_npcs v ! i)\<lparr>n_hp := 0, n_alive := False\<rparr>"
  from assms(1) obtain w3 w4 where r: "reward_kill E sid (w_npcs w ! i) (after_death sid i w) = Inr w3"
    and d: "item_drop E sid (UpdateQuestProgress E sid w3) = Inr w4" and w': "w' = respawn E w4"
    by (rule on_kill_cases)
  have npcs: "w_npcs w4 = (w_npcs v)[i := ?dead]"
    using assms(2,5) len item_drop_frame(3) [OF d] reward_kill_frame(2) [OF r] by simp
  have nxt: "w_nextNpcUid w4 = w_nextNpcUid v"
    using assms(6) item_drop_frame(4) [OF d] reward_kill_frame(3) [OF r] by simp
  have spawn: "w' = SpawnNPC E i w4"
    unfolding w' by (rule respawn_dead [OF assms(3,2) npcs]) simp
  have "npcs_ok (SpawnNPC E i w4)"
    by (rule npcs_ok_reborn [OF assms(3,2) npcs nxt assms(4)]) (use ok in \<open>simp_all add: npc_ok_def\<close>)
  then show ?thesis
    using assms(2) len by (simp add: spawn w_npcs_SpawnNPC w_nextNpcUid_SpawnNPC npcs nxt npc_born_def)
qed

lemma on_kill_inventories:
  assumes "on_kill E sid i w = Inr w'"
  shows "get_inv w' = get_inv w \<or> (\<exists>v tid. tid \<noteq> 0 \<and> get_inv v = get_inv w \<and>
    get_inv w' = get_inv (grant_item E sid tid v))"
proof -
  from assms obtain w3 w4 where r: "reward_kill E sid (w_npcs w ! i) (after_death sid i w) = Inr w3"
    and d: "item_drop E sid (UpdateQuestProgress E sid w3) = Inr w4" and w': "w' = respawn E w4"
    by (rule on_kill_cases)
  have start: "get_inv (UpdateQuestProgress E sid w3) = get_inv w"
    using get_inv_reward_kill [OF r] get_inv_cong [of "after_death sid i w" w] by simp
  have stop: "get_inv w' = get_inv w4" by (rule get_inv_cong) (simp add: w')
  have step: "get_inv (v\<lparr>w_rand := x\<rparr>) = get_inv v" for v :: "'a world" and x by (rule get_inv_cong) simp
  from d obtain tid ix where w4: "w4 = (let v = (UpdateQuestProgress E sid w3)\<lparr>w_rand := ix\<rparr>
      in if tid = 0 then v else grant_item E sid tid v)"
    by (auto simp: item_drop_def bind_result_Inr Let_def)
  show ?thesis
  proof (cases "tid = 0")
    case True
    with start stop step w4 show ?thesis by simp
  next
    case False
    moreover have "get_inv ((UpdateQuestProgress E sid w3)\<lparr>w_rand := ix\<rparr>) = get_inv w"
      by (simp only: step start)
    moreover have "get_inv w' = get_inv (grant_item E sid tid ((UpdateQuestProgress E sid w3)\<lparr>w_rand := ix\<rparr>))"
      using stop w4 False by simp
    ultimately show ?thesis by blast
  qed
qed

lemma on_kill_inventories_ok:
  assumes "on_kill E sid i w = Inr w'" and "inventories_ok w"
  shows "inventories_ok w'"
  using on_kill_inventories [OF assms(1)] assms(2) grant_item_inventories_ok
  unfolding inventories_ok_def by metis

text \<open>The parties are the same after a kill: the entry \<open>operator[]\<close> looks for is there.\<close>

lemma reward_kill_parties:
  assumes "reward_kill E sid target w = Inr w'" and "members_ok w"
  shows "w_parties w' = w_parties w"
proof (cases "party_of w sid")
  case None
  then show ?thesis using assms(1) by (auto simp: reward_kill_def party_of_def Let_def)
next
  case (Some p)
  then obtain party where "map_of (w_parties w) p = Some party"
    using members_okD [OF assms(2) Some] by (auto simp: party_at_def)
  then have "w_parties (ensure_party p w) = w_parties w" by (simp add: ensure_party_def om_ensure_def)
  with Some assms(1) show ?thesis
    by (auto simp: reward_kill_def party_of_def Let_def fold_keeps split: if_splits)
qed

lemma on_kill_frame:
  assumes "on_kill E sid i w = Inr w'"
  shows "w_nextSessionId w' = w_nextSessionId w" "w_nextPartyId w' = w_nextPartyId w"
    "w_playerParty w' = w_playerParty w" "w_pendingInvites w' = w_pendingInvites w"
proof -
  from assms obtain w3 w4 where r: "reward_kill E sid (w_npcs w ! i) (after_death sid i w) = Inr w3"
    and d: "item_drop E sid (UpdateQuestProgress E sid w3) = Inr w4" and w': "w' = respawn E w4"
    by (rule on_kill_cases)
  note [simp] = reward_kill_frame [OF r] item_drop_frame [OF d] w'
  show "w_nextSessionId w' = w_nextSessionId w" "w_nextPartyId w' = w_nextPartyId w"
    "w_playerParty w' = w_playerParty w" "w_pendingInvites w' = w_pendingInvites w"
    by simp_all
qed

lemma on_kill_parties:
  assumes "on_kill E sid i w = Inr w'" and "members_ok w"
  shows "w_parties w' = w_parties w"
proof -
  from assms(1) obtain w3 w4 where r: "reward_kill E sid (w_npcs w ! i) (after_death sid i w) = Inr w3"
    and d: "item_drop E sid (UpdateQuestProgress E sid w3) = Inr w4" and w': "w' = respawn E w4"
    by (rule on_kill_cases)
  have "members_ok (after_death sid i w)"
    using assms(2) party_inv_cong(1) [of "after_death sid i w" w] by simp
  from reward_kill_parties [OF r this] item_drop_frame(7) [OF d] show ?thesis by (simp add: w')
qed

text \<open>The blow itself.\<close>

definition blow :: "'d world \<Rightarrow> SessionId \<Rightarrow> nat \<Rightarrow> u16" where
  "blow w sid i = damage_of (p_atk (GetPlayer w sid)) (n_def (w_npcs w ! i))"

definition struck :: "SessionId \<Rightarrow> nat \<Rightarrow> 'd world \<Rightarrow> 'd world" where
  "struck sid i w =
     (let hp = hp_left (n_hp (w_npcs w ! i)) (blow w sid i) in
      Send sid (P_AttackResult \<lparr>ar_success = 1, ar_targetUid = n_uid (w_npcs w ! i),
        ar_damage = blow w sid i, ar_targetHp = hp\<rparr>) (set_npc i (\<lambda>npc. npc\<lparr>n_hp := hp\<rparr>) w))"

lemma struck_frame [simp, frame]:
  "w_sessions (struck sid i w) = w_sessions w" "w_nextNpcUid (struck sid i w) = w_nextNpcUid w"
  "w_questProgress (struck sid i w) = w_questProgress w" "w_parties (struck sid i w) = w_parties w"
  "w_playerParty (struck sid i w) = w_playerParty w" "w_nextPartyId (struck sid i w) = w_nextPartyId w"
  "w_inventories (struck sid i w) = w_inventories w" "w_rand (struck sid i w) = w_rand w"
  "w_nextSessionId (struck sid i w) = w_nextSessionId w" "w_db (struck sid i w) = w_db w"
  "w_pendingInvites (struck sid i w) = w_pendingInvites w"
  by (simp_all add: struck_def Let_def)

lemma struck_npcs:
  "w_npcs (struck sid i w) = (w_npcs w)[i := (w_npcs w ! i)\<lparr>n_hp :=
     hp_left (n_hp (w_npcs w ! i)) (blow w sid i)\<rparr>]"
  by (simp add: struck_def Let_def set_npc_npcs)

lemma struck_sessions [simp]: "GetPlayer (struck sid i w) = GetPlayer w" "live (struck sid i w) = live w"
  by (rule sessions_cong, simp)+

lemma struck_same [simp]: "get_inv (struck sid i w) = get_inv w" "get_qp (struck sid i w) = get_qp w"
  by (rule get_inv_cong, simp) (rule get_qp_cong, simp)

lemma members_ok_struck [simp]: "members_ok (struck sid i w) = members_ok w"
  by (rule party_inv_cong) simp_all

lemma OnAttack_cases:
  assumes "OnAttack E sid atk w = Inr w'"
  obtains (miss) "attack_target w sid (at_targetUid atk) = None"
      and "w' = Send sid (P_AttackResult \<lparr>ar_success = 0, ar_targetUid = 0, ar_damage = 0, ar_targetHp = 0\<rparr>) w"
  | (wound) i where "attack_target w sid (at_targetUid atk) = Some i"
      and "\<not> n_hp (w_npcs w ! i) \<le> blow w sid i" and "w' = struck sid i w"
  | (kill) i where "attack_target w sid (at_targetUid atk) = Some i"
      and "n_hp (w_npcs w ! i) \<le> blow w sid i" and "on_kill E sid i (struck sid i w) = Inr w'"
  using assms
  by (auto simp: OnAttack_def Let_def blow_def [symmetric] struck_def hp_left_zero split: option.splits if_splits)

lemma OnAttack_kill_eq:
  "attack_target w sid (at_targetUid atk) = Some i \<Longrightarrow> n_hp (w_npcs w ! i) \<le> blow w sid i \<Longrightarrow>
     OnAttack E sid atk w = on_kill E sid i (struck sid i w)"
  by (simp add: OnAttack_def Let_def blow_def [symmetric] struck_def hp_left_zero)

lemma attack_target_bound: "attack_target w sid uid = Some i \<Longrightarrow> i < MAX_NPC"
  by (auto simp: attack_target_Some dest: find_npc_Some)

lemma OnAttack_frame:
  assumes "OnAttack E sid atk w = Inr w'"
  shows "w_nextSessionId w' = w_nextSessionId w" "w_nextPartyId w' = w_nextPartyId w"
    "w_playerParty w' = w_playerParty w" "w_pendingInvites w' = w_pendingInvites w"
    "members_ok w \<Longrightarrow> w_parties w' = w_parties w"
  using assms by (cases rule: OnAttack_cases; auto simp: on_kill_frame on_kill_parties)+

lemma OnAttack_npcs_ok:
  assumes "npcs_ok w" and "w_nextNpcUid w \<noteq> - 1" and "OnAttack E sid atk w = Inr w'"
  shows "npcs_ok w'"
  using assms(3)
proof (cases rule: OnAttack_cases)
  case miss
  with assms(1) npcs_ok_cong [of w' w] show ?thesis by simp
next
  case (wound i)
  have hp: "0 < hp_left (n_hp (w_npcs w ! i)) (blow w sid i)"
    "hp_left (n_hp (w_npcs w ! i)) (blow w sid i) \<le> n_hp (w_npcs w ! i)"
    using wound(2) by (simp_all add: word_gt_0 hp_left_zero word_le_nat_alt hp_left_exact)
  have "npcs_ok (set_npc i (\<lambda>npc. npc\<lparr>n_hp := hp_left (n_hp (w_npcs w ! i)) (blow w sid i)\<rparr>) w)"
    by (rule npcs_ok_wound [OF assms(1) attack_target_bound [OF wound(1)] hp])
  with wound(3) npcs_ok_cong [of w' "set_npc i (\<lambda>npc. npc\<lparr>n_hp := hp_left (n_hp (w_npcs w ! i)) (blow w sid i)\<rparr>) w"]
  show ?thesis by (simp add: struck_def Let_def)
next
  case (kill i)
  have "hp_left (n_hp (w_npcs w ! i)) (blow w sid i) = 0" using kill(2) by (simp add: hp_left_zero)
  then show ?thesis
    using on_kill_npcs [OF kill(3) attack_target_bound [OF kill(1)] assms(1,2)] by (simp add: struck_npcs)
qed

lemma player_ok_level_gain: "player_ok p \<Longrightarrow> player_ok (level_gain x g p)"
  unfolding level_gain_def by (rule player_ok_level_ups) (simp add: player_ok_def gain_def on_map_def)

lemma player_ok_level_gains: "player_ok p \<Longrightarrow> player_ok ((level_gain x g ^^ n) p)"
  by (induction n) (simp_all add: player_ok_level_gain)

lemma OnAttack_players_ok:
  assumes "players_ok w" and "members_ok w" and "OnAttack E sid atk w = Inr w'"
  shows "players_ok w'"
  using assms(3)
proof (cases rule: OnAttack_cases)
  case (kill i)
  from on_kill_players(2) [OF kill(3)] assms(1,2) show ?thesis
    by (simp add: players_ok_def player_ok_level_gains)
qed (use assms(1) in \<open>simp_all add: players_ok_def\<close>)

lemma OnAttack_progress_ok:
  assumes "progress_ok w" and "members_ok w" and "OnAttack E sid atk w = Inr w'"
  shows "progress_ok w'"
  using assms(3)
proof (cases rule: OnAttack_cases)
  case (kill i)
  show ?thesis by (rule on_kill_progress(1) [OF kill(3)]) (use assms in \<open>simp_all add: progress_ok_def\<close>)
qed (use assms(1) in \<open>simp_all add: progress_ok_def\<close>)

lemma OnAttack_inventories_ok:
  assumes "inventories_ok w" and "OnAttack E sid atk w = Inr w'"
  shows "inventories_ok w'"
  using assms(2)
proof (cases rule: OnAttack_cases)
  case (kill i)
  show ?thesis by (rule on_kill_inventories_ok [OF kill(3)]) (use assms in \<open>simp add: inventories_ok_def\<close>)
qed (use assms(1) in \<open>simp_all add: inventories_ok_def\<close>)

lemma OnAttack_live: "OnAttack E sid atk w = Inr w' \<Longrightarrow> members_ok w \<Longrightarrow> live w' j \<longleftrightarrow> live w j"
  by (erule OnAttack_cases) (simp_all add: on_kill_players(1))

subsection \<open>Properties\<close>

text \<open>A hit that does not kill takes exactly the damage (the attacker's attack less the NPC's defence,
  at least 1) off the target's hit points, touches no other NPC and no player, and draws no random
  number.\<close>

theorem wound_exact:
  assumes "npcs_ok w" and "attack_target w sid (at_targetUid atk) = Some i"
    and "unat (damage_of (p_atk (GetPlayer w sid)) (n_def (w_npcs w ! i))) < unat (n_hp (w_npcs w ! i))"
  shows "\<exists>w'. OnAttack E sid atk w = Inr w' \<and>
    unat (n_hp (w_npcs w' ! i)) = unat (n_hp (w_npcs w ! i)) -
      (if unat (n_def (w_npcs w ! i)) < unat (p_atk (GetPlayer w sid))
       then unat (p_atk (GetPlayer w sid)) - unat (n_def (w_npcs w ! i)) else 1) \<and>
    (\<forall>j. j \<noteq> i \<longrightarrow> w_npcs w' ! j = w_npcs w ! j) \<and> GetPlayer w' = GetPlayer w \<and> w_rand w' = w_rand w"
proof -
  have alive: "hp_left (n_hp (w_npcs w ! i)) (blow w sid i) \<noteq> 0"
    using assms(3) by (simp add: hp_left_zero blow_def word_le_nat_alt)
  have "i < length (w_npcs w)"
    using attack_target_bound [OF assms(2)] assms(1) by (simp add: npcs_ok_def)
  moreover have "OnAttack E sid atk w = Inr (struck sid i w)"
    using assms(2) alive by (simp add: OnAttack_def Let_def blow_def [symmetric] struck_def)
  ultimately show ?thesis
    by (simp add: struck_npcs hp_left_exact blow_def damage_exact)
qed

lemma sample_npc_list:
  "w_npcs sample_party = [sample_npc 1 3 10, sample_npc 2 5 30, sample_npc 3 6 30, sample_npc 4 7 30, sample_npc 5 8 30]"
  "w_nextNpcUid sample_party = 6"
  by (simp_all add: sample_party_def sample_world_def)

lemma sample_adjacent: "attack_target sample_party 1 1 = Some 0"
  by (simp add: attack_target_def find_npc_def sample_npc_list MAX_NPC_def upt_rec adjacent_def sample_player_def
      sample_npc_def)

lemma sample_npcs: "npcs_ok sample_party"
  by (simp add: npcs_ok_def npc_ok_def sample_party_def sample_world_def sample_npc_def MAX_NPC_def in_map_def
      MAP_SIZE_def)

definition tough_world :: "nat world" where
  "tough_world = sample_party\<lparr>w_npcs := (w_npcs sample_party)[0 := sample_npc 1 3 30]\<rparr>"

lemma tough_world_facts:
  "npcs_ok tough_world" "attack_target tough_world 1 1 = Some 0" "GetPlayer tough_world = GetPlayer sample_party"
  "w_npcs tough_world ! 0 = sample_npc 1 3 30"
proof -
  show g: "GetPlayer tough_world = GetPlayer sample_party" by (rule sessions_cong) (simp add: tough_world_def)
  show "npcs_ok tough_world"
    by (simp add: npcs_ok_def npc_ok_def tough_world_def sample_party_def sample_world_def sample_npc_def MAX_NPC_def
        in_map_def MAP_SIZE_def)
  have npcs: "w_npcs tough_world = [sample_npc 1 3 30, sample_npc 2 5 30, sample_npc 3 6 30, sample_npc 4 7 30,
      sample_npc 5 8 30]"
    by (simp add: tough_world_def sample_npc_list)
  show "attack_target tough_world 1 1 = Some 0"
    by (simp add: attack_target_def find_npc_def npcs g adjacent_def sample_player_def sample_npc_def MAX_NPC_def upt_rec)
  show "w_npcs tough_world ! 0 = sample_npc 1 3 30" by (simp add: tough_world_def sample_party_def sample_world_def)
qed

theorem wound_exact_witness:
  "\<exists>w'. OnAttack sample_env 1 \<lparr>at_targetUid = 1\<rparr> tough_world = Inr w' \<and> unat (n_hp (w_npcs w' ! 0)) = 17"
  using wound_exact [OF tough_world_facts(1), of 1 "\<lparr>at_targetUid = 1\<rparr>" 0 sample_env]
  by (auto simp: tough_world_facts sample_npc_def sample_player_def new_player_def damage_of_def)

lemma struck_rewards:
  "n_goldReward (w_npcs (struck sid i w) ! i) = n_goldReward (w_npcs w ! i)"
  "n_expReward (w_npcs (struck sid i w) ! i) = n_expReward (w_npcs w ! i)"
  unfolding atomize_conj
  by (cases "i < length (w_npcs w)") (simp_all add: struck_npcs list_update_beyond)

lemma killing_blow:
  assumes "members_ok w" and "drop_table_ok E"
    and "attack_target w sid (at_targetUid atk) = Some i"
    and "n_hp (w_npcs w ! i) \<le> damage_of (p_atk (GetPlayer w sid)) (n_def (w_npcs w ! i))"
  obtains w' where "OnAttack E sid atk w = Inr w'" "on_kill E sid i (struck sid i w) = Inr w'"
  using OnAttack_Inr [OF assms(1,2), of sid atk] OnAttack_kill_eq [OF assms(3)] assms(4)
  by (auto simp: blow_def)

lemma kill_share_sum:
  assumes "sizes_ok w"
  shows "length (kill_shares w sid) * unat (kill_share w sid amount) \<le> unat amount"
proof (cases "party_of w sid")
  case (Some p)
  have "length (kill_shares w sid) < 2 ^ 32"
    using Some assms by (auto simp: kill_shares_def sizes_ok_def MAX_PARTY_def split: option.split)
      (use less_le_trans in fastforce)
  then have "unat (word_of_nat (length (kill_shares w sid)) :: u32) = length (kill_shares w sid)"
    by (simp add: unat_of_nat)
  then show ?thesis using Some by (simp add: kill_share_def unat_div)
qed (simp add: kill_share_def kill_shares_def)

text \<open>C9: When a blow kills, the reward is shared out exactly: each connected member of the killer's party
  (the killer alone without a party) gains, for each time it is listed, the kill's gold divided by the
  number of members, and all shares together are no more than the kill is worth.\<close>

theorem kill_gold_shared:
  assumes "members_ok w" and "sizes_ok w" and "drop_table_ok E"
    and "attack_target w sid (at_targetUid atk) = Some i"
    and "n_hp (w_npcs w ! i) \<le> damage_of (p_atk (GetPlayer w sid)) (n_def (w_npcs w ! i))"
  shows "\<exists>w'. OnAttack E sid atk w = Inr w' \<and>
    (\<forall>j. live w j \<longrightarrow> p_gold (GetPlayer w' j) = p_gold (GetPlayer w j) +
       word_of_nat (count_list (kill_shares w sid) j) * ucast (kill_share w sid (n_goldReward (w_npcs w ! i)))) \<and>
    length (kill_shares w sid) * unat (kill_share w sid (n_goldReward (w_npcs w ! i)))
      \<le> unat (n_goldReward (w_npcs w ! i))"
proof -
  obtain w' where w': "OnAttack E sid atk w = Inr w'" and k: "on_kill E sid i (struck sid i w) = Inr w'"
    by (rule killing_blow [OF assms(1,3-5)])
  have "members_ok (struck sid i w)" using assms(1) by simp
  note p = on_kill_players(2) [OF k this]
  have "kill_shares (struck sid i w) sid = kill_shares w sid" "kill_share (struck sid i w) sid a = kill_share w sid a" for a
    by (rule kill_shares_cong, simp_all)+
  with w' p kill_share_sum [OF assms(2)] show ?thesis
    by (simp add: level_gain_gold_times struck_rewards)
qed

theorem kill_gold_shared_witness:
  "\<exists>w'. OnAttack sample_env 1 \<lparr>at_targetUid = 1\<rparr> sample_party = Inr w' \<and>
     p_gold (GetPlayer w' 1) = 505 \<and> p_gold (GetPlayer w' 2) = 505"
proof -
  have npc: "w_npcs sample_party ! 0 = sample_npc 1 3 10" by (simp add: sample_npc_list)
  have sizes: "sizes_ok sample_party" by (auto simp: sizes_ok_def party_at_def sample_party_def MAX_PARTY_def split: if_splits)
  have share: "kill_shares sample_party 1 = [1, 2]" "kill_share sample_party 1 10 = 5"
    by (simp_all add: kill_shares_def kill_share_def sample_party_maps)
  from kill_gold_shared [OF sample_party_ok(1) sizes sample_drops, of 1 "\<lparr>at_targetUid = 1\<rparr>" 0] sample_adjacent
  show ?thesis
    by (auto simp: npc share sample_npc_def sample_player_def new_player_def damage_of_def)
qed

text \<open>C36: A killed NPC is replaced at once, in its own slot: the new one has a fresh id, 30 hit points and a
  place on the map, the other NPCs are as they were, and the NPC invariant holds again.\<close>

theorem kill_respawns:
  assumes "npcs_ok w" and "w_nextNpcUid w \<noteq> - 1" and "members_ok w" and "drop_table_ok E"
    and "attack_target w sid (at_targetUid atk) = Some i"
    and "n_hp (w_npcs w ! i) \<le> damage_of (p_atk (GetPlayer w sid)) (n_def (w_npcs w ! i))"
  shows "\<exists>w'. OnAttack E sid atk w = Inr w' \<and> npcs_ok w' \<and> n_uid (w_npcs w' ! i) = w_nextNpcUid w \<and>
    n_hp (w_npcs w' ! i) = 30 \<and> (\<forall>j. j \<noteq> i \<longrightarrow> w_npcs w' ! j = w_npcs w ! j)"
proof -
  obtain w' where w': "OnAttack E sid atk w = Inr w'" and k: "on_kill E sid i (struck sid i w) = Inr w'"
    by (rule killing_blow [OF assms(3-6)])
  have "hp_left (n_hp (w_npcs w ! i)) (blow w sid i) = 0" using assms(6) by (simp add: hp_left_zero blow_def)
  with on_kill_npcs [OF k attack_target_bound [OF assms(5)] assms(1,2)] w' show ?thesis
    by (simp add: struck_npcs)
qed

theorem kill_respawns_witness:
  "\<exists>w'. OnAttack sample_env 1 \<lparr>at_targetUid = 1\<rparr> sample_party = Inr w' \<and> npcs_ok w' \<and> n_uid (w_npcs w' ! 0) = 6"
proof -
  have npc: "w_npcs sample_party ! 0 = sample_npc 1 3 10" "w_nextNpcUid sample_party = 6"
    by (simp_all add: sample_npc_list)
  from kill_respawns [OF sample_npcs _ sample_party_ok(1) sample_drops, of 1 "\<lparr>at_targetUid = 1\<rparr>" 0] sample_adjacent
  show ?thesis
    by (auto simp: npc sample_npc_def sample_player_def new_player_def damage_of_def)
qed

text \<open>C37: A kill counts once for every accepted quest of the killer, and of every connected member of its
  party once for each time it is listed; nobody else's quests change.\<close>

theorem kill_counts_for_quests:
  assumes "progress_ok w" and "members_ok w" and "drop_table_ok E"
    and "attack_target w sid (at_targetUid atk) = Some i"
    and "n_hp (w_npcs w ! i) \<le> damage_of (p_atk (GetPlayer w sid)) (n_def (w_npcs w ! i))"
  shows "\<exists>w'. OnAttack E sid atk w = Inr w' \<and>
    (\<forall>j q. quest_state w' j q =
      (if j = sid then kill_effect E q (quest_state w j q)
       else if live w j then (kill_effect E q ^^ count_list (kill_shares w sid) j) (quest_state w j q)
       else quest_state w j q))"
proof -
  obtain w' where w': "OnAttack E sid atk w = Inr w'" and k: "on_kill E sid i (struck sid i w) = Inr w'"
    by (rule killing_blow [OF assms(2-5)])
  have "members_ok (struck sid i w)" using assms(2) by simp
  moreover have "progress_ok (struck sid i w)" using assms(1) by (simp add: progress_ok_def)
  moreover have "kill_shares (struck sid i w) sid = kill_shares w sid" by (rule kill_shares_cong) simp_all
  moreover have "quest_state (struck sid i w) = quest_state w" by (simp add: quest_state_def fun_eq_iff)
  ultimately show ?thesis using on_kill_progress(2) [OF k] w' by simp
qed

theorem kill_counts_for_quests_witness:
  "\<exists>w'. OnAttack sample_env 1 \<lparr>at_targetUid = 1\<rparr> sample_party = Inr w' \<and>
     quest_state w' 1 2 = \<lparr>qs_status = 2, qs_progress = 5\<rparr>"
proof -
  have npc: "w_npcs sample_party ! 0 = sample_npc 1 3 10" by (simp add: sample_party_def sample_world_def)
  have "get_qp sample_party = get_qp sample_world" by (rule get_qp_cong) (simp add: sample_party_def)
  then have qp: "progress_ok sample_party" "quest_state sample_party 1 2 = \<lparr>qs_status = 1, qs_progress = 4\<rparr>"
    using sample_progress by (simp_all add: progress_ok_def quest_state_def)
      (simp add: get_qp_def om_get_def sample_world_def)
  have count: "kill_effect sample_env 2 \<lparr>qs_status = 1, qs_progress = 4\<rparr> = \<lparr>qs_status = 2, qs_progress = 5\<rparr>"
    by (simp add: kill_effect_def count_kill_def sample_quest_def)
  from kill_counts_for_quests [OF qp(1) sample_party_ok(1) sample_drops, of 1 "\<lparr>at_targetUid = 1\<rparr>" 0] sample_adjacent
  show ?thesis
    by (auto simp: npc qp(2) count sample_npc_def sample_player_def new_player_def damage_of_def)
qed

text \<open>The drop table is a line of segments, one per entry and as long as its weight: the roll picks
  entry i exactly when it falls in the i-th segment, so a roll below the total weight always picks an
  entry.\<close>

theorem roll_picks_segment:
  assumes "drop_table_ok E" and "i < length (g_dropTable E)"
    and "total_weight (take i (g_dropTable E)) \<le> int (rand_value E ix) mod g_totalWeight E"
    and "int (rand_value E ix) mod g_totalWeight E < total_weight (take (Suc i) (g_dropTable E))"
  shows "RollDrop E ix = Inr (de_itemId (g_dropTable E ! i), Suc ix)"
proof -
  have "g_dropTable E \<noteq> []" using assms(2) by auto
  then have "0 < g_totalWeight E" using assms(1) total_weight_pos by (auto simp: drop_table_ok_def)
  with assms \<open>g_dropTable E \<noteq> []\<close> show ?thesis
    using roll_from_segment [of "g_dropTable E" i 0 "int (rand_value E ix) mod g_totalWeight E"]
    by (simp add: RollDrop_def drop_table_ok_def)
qed

theorem roll_picks_segment_witness: "RollDrop sample_env 3 = Inr (3, 4)"
  using roll_picks_segment [OF sample_drops, of 1 3] by (simp add: sample_env_def total_weight_def)

subsection \<open>Blow after blow\<close>

text \<open>Attacks one after the other by the same session on the same target.\<close>

fun attacks :: "'d env \<Rightarrow> SessionId \<Rightarrow> CS_Attack \<Rightarrow> nat \<Rightarrow> 'd world \<Rightarrow> 'd world result" where
  "attacks E sid atk 0 w = Inr w"
| "attacks E sid atk (Suc n) w = bind_result (OnAttack E sid atk w) (attacks E sid atk n)"

lemma OnAttack_wound_eq:
  "attack_target w sid (at_targetUid atk) = Some i \<Longrightarrow> \<not> n_hp (w_npcs w ! i) \<le> blow w sid i \<Longrightarrow>
     OnAttack E sid atk w = Inr (struck sid i w)"
  by (simp add: OnAttack_def Let_def blow_def [symmetric] struck_def hp_left_zero)

lemma struck_again:
  assumes "attack_target w sid uid = Some i" and i: "i < length (w_npcs w)"
  shows "attack_target (struck sid i w) sid uid = Some i" "blow (struck sid i w) sid i = blow w sid i"
    "unat (n_hp (w_npcs (struck sid i w) ! i)) = unat (n_hp (w_npcs w ! i)) - unat (blow w sid i)"
proof -
  have "n_uid (w_npcs (struck sid i w) ! j) = n_uid (w_npcs w ! j) \<and>
      n_alive (w_npcs (struck sid i w) ! j) = n_alive (w_npcs w ! j)" for j
    using i by (cases "j = i") (simp_all add: struck_npcs)
  then have find: "find_npc (w_npcs (struck sid i w)) uid = find_npc (w_npcs w) uid" by (simp add: find_npc_def)
  have "adjacent (w_npcs (struck sid i w) ! i) (GetPlayer w sid) = adjacent (w_npcs w ! i) (GetPlayer w sid)"
    using i by (simp add: adjacent_def struck_npcs)
  then show "attack_target (struck sid i w) sid uid = Some i" using assms(1) by (simp add: attack_target_Some find)
  show "blow (struck sid i w) sid i = blow w sid i" using i by (simp add: blow_def struck_npcs)
  show "unat (n_hp (w_npcs (struck sid i w) ! i)) = unat (n_hp (w_npcs w ! i)) - unat (blow w sid i)"
    using i by (simp add: struck_npcs hp_left_exact)
qed

text \<open>C17: An NPC within reach dies: as many blows as its hit points need at the attacker's damage, one after
  the other, all end well, and then it is replaced by a new NPC with a fresh id and 30 hit points.\<close>

theorem enough_blows_kill:
  assumes "npcs_ok w" and "w_nextNpcUid w \<noteq> - 1" and "members_ok w" and "drop_table_ok E"
    and "attack_target w sid (at_targetUid atk) = Some i"
    and "n = (unat (n_hp (w_npcs w ! i)) + unat (blow w sid i) - 1) div unat (blow w sid i)"
  shows "\<exists>w'. attacks E sid atk n w = Inr w' \<and> npcs_ok w' \<and> n_uid (w_npcs w' ! i) = w_nextNpcUid w \<and>
    n_hp (w_npcs w' ! i) = 30"
  using assms
proof (induction n arbitrary: w)
  case 0
  have "0 < unat (blow w sid i)" using damage_pos by (simp add: blow_def)
  moreover have "0 < unat (n_hp (w_npcs w ! i))"
    using npcs_ok_nth [OF 0(1) attack_target_bound [OF 0(5)]] by (simp add: npc_ok_def word_gt_0 unat_gt_0)
  ultimately show ?case using 0(6) by (auto simp: div_eq_0_iff)
next
  case (Suc n)
  let ?d = "unat (blow w sid i)" and ?h = "unat (n_hp (w_npcs w ! i))"
  have d: "0 < ?d" using damage_pos by (simp add: blow_def)
  have i: "i < length (w_npcs w)" using attack_target_bound [OF Suc.prems(5)] Suc.prems(1) by (simp add: npcs_ok_def)
  show ?case
  proof (cases "n_hp (w_npcs w ! i) \<le> blow w sid i")
    case True
    then obtain w' where w': "OnAttack E sid atk w = Inr w'" and k: "on_kill E sid i (struck sid i w) = Inr w'"
      using OnAttack_Inr [OF Suc.prems(3,4), of sid atk] OnAttack_kill_eq [OF Suc.prems(5)] by auto
    have "?h \<le> ?d" using True by (simp add: word_le_nat_alt)
    moreover have "0 < ?h"
      using npcs_ok_nth [OF Suc.prems(1) attack_target_bound [OF Suc.prems(5)]] by (simp add: npc_ok_def word_gt_0 unat_gt_0)
    ultimately have "?h + ?d - 1 < 2 * ?d" by linarith
    then have "(?h + ?d - 1) div ?d < 2" by (rule less_mult_imp_div_less)
    then have "n = 0" using Suc.prems(6) by linarith
    have "hp_left (n_hp (w_npcs w ! i)) (blow w sid i) = 0" using True by (simp add: hp_left_zero)
    with on_kill_npcs [OF k attack_target_bound [OF Suc.prems(5)] Suc.prems(1,2)] w' \<open>n = 0\<close> show ?thesis
      by (simp add: struck_npcs)
  next
    case False
    let ?w = "struck sid i w"
    have hit: "OnAttack E sid atk w = Inr ?w" by (rule OnAttack_wound_eq [OF Suc.prems(5) False])
    note again = struck_again [OF Suc.prems(5) i]
    have less: "?d < ?h" using False by (simp add: word_le_nat_alt)
    then have "?h + ?d - 1 = ?d + (?h - 1)" by simp
    then have "Suc n = Suc ((?h - 1) div ?d)" using Suc.prems(6) d div_add_self1 [of ?d "?h - 1"] by simp
    then have "n = (unat (n_hp (w_npcs ?w ! i)) + unat (blow ?w sid i) - 1) div unat (blow ?w sid i)"
      using less by (simp add: again)
    from Suc.IH [OF OnAttack_npcs_ok [OF Suc.prems(1,2) hit] _ _ Suc.prems(4) again(1) this] Suc.prems(2,3)
    show ?thesis by (simp add: hit)
  qed
qed

theorem enough_blows_kill_witness:
  "\<exists>w'. attacks sample_env 1 \<lparr>at_targetUid = 1\<rparr> 3 tough_world = Inr w' \<and> n_uid (w_npcs w' ! 0) = 6"
proof -
  have d: "blow tough_world 1 0 = 13"
    by (simp add: blow_def tough_world_facts sample_npc_def sample_player_def new_player_def damage_of_def)
  have "w_nextNpcUid tough_world = 6" by (simp add: tough_world_def sample_npc_list)
  moreover have "members_ok tough_world"
    using sample_party_ok(1) party_inv_cong(1) [of tough_world sample_party] by (simp add: tough_world_def)
  ultimately show ?thesis
    using enough_blows_kill [OF tough_world_facts(1) _ _ sample_drops, of 1 "\<lparr>at_targetUid = 1\<rparr>" 0 3] d
    by (auto simp: tough_world_facts sample_npc_def)
qed

end
