(* ===== verification/Decimal.thy ===== *)
theory Decimal
  imports Prelude
begin

text \<open>
  Decimal numbers as text: what \<open>std::to_string\<close> and \<open>operator<<\<close> write, and what
  \<open>atoll\<close>, \<open>atoi\<close> and \<open>std::stoi\<close> of the runtime read. Reading what was written gives the
  number back.
\<close>

subsection \<open>Writing\<close>

definition digit :: "nat \<Rightarrow> char" where
  "digit n = char_of (48 + n)"

fun dec :: "nat \<Rightarrow> string" where
  "dec n = (if n < 10 then [digit n] else dec (n div 10) @ [digit (n mod 10)])"

declare dec.simps [simp del]

definition dec_int :: "int \<Rightarrow> string" where
  "dec_int x = (if x < 0 then CHR ''-'' # dec (nat (- x)) else dec (nat x))"

subsection \<open>Reading\<close>

definition is_space :: "char \<Rightarrow> bool" where
  "is_space c \<longleftrightarrow> (let n = of_char c :: nat in n = 32 \<or> 9 \<le> n \<and> n \<le> 13)"

definition is_digit :: "char \<Rightarrow> bool" where
  "is_digit c \<longleftrightarrow> (let n = of_char c :: nat in 48 \<le> n \<and> n \<le> 57)"

fun digits :: "int \<Rightarrow> string \<Rightarrow> int" where
  "digits v [] = v"
| "digits v (c # s) = (if is_digit c then digits (10 * v + (of_char c - 48)) s else v)"

fun signed_part :: "string \<Rightarrow> bool \<times> string" where
  "signed_part [] = (False, [])"
| "signed_part (c # s) = (if c = CHR ''-'' then (True, s) else if c = CHR ''+'' then (False, s) else (False, c # s))"

text \<open>The runtime's \<open>atoll\<close> stops at the bounds of its type.\<close>

definition atoll :: "string \<Rightarrow> int" where
  "atoll s = (let (neg, t) = signed_part (dropWhile is_space (cstr s)); v = digits 0 t
     in if neg then max (- (2 ^ 63)) (- v) else min (2 ^ 63 - 1) v)"

definition atoi :: "string \<Rightarrow> int" where
  "atoi s = (let (neg, t) = signed_part (dropWhile is_space (cstr s)); v = digits 0 t
     in if neg then max (- (2 ^ 31)) (- v) else min (2 ^ 31 - 1) v)"

text \<open>\<open>std::stoi\<close> of a string of digits that is not empty.\<close>

definition stoi :: "string \<Rightarrow> int result" where
  "stoi s = (let v = digits 0 s in if v < 2 ^ 31 then Inr v else Inl OutOfRange)"

subsection \<open>Reading what was written\<close>

lemma nat_of_char_digit: "n < 10 \<Longrightarrow> of_char (digit n) = 48 + n"
  by (simp add: digit_def)

lemma int_of_char_digit: "n < 10 \<Longrightarrow> of_char (digit n) = 48 + int n"
proof -
  assume "n < 10"
  have "of_char (digit n) = int (of_char (digit n))" by (rule of_nat_of_char [symmetric])
  also have "\<dots> = of_nat (48 + n)" using \<open>n < 10\<close> by (simp only: nat_of_char_digit)
  finally show ?thesis by simp
qed

lemma is_digit_digit [simp]: "n < 10 \<Longrightarrow> is_digit (digit n)"
  by (simp add: is_digit_def nat_of_char_digit Let_def)

lemma dec_digits: "list_all is_digit (dec n)"
  by (induction n rule: dec.induct) (subst dec.simps, auto)

lemma dec_nonempty [simp]: "dec n \<noteq> []"
  by (subst dec.simps) simp

lemma digits_append: "list_all is_digit s \<Longrightarrow> digits v (s @ t) = digits (digits v s) t"
  by (induction s arbitrary: v) auto

lemma digits_dec: "digits v (dec n) = v * 10 ^ length (dec n) + int n"
proof (induction n arbitrary: v rule: dec.induct)
  case (1 n)
  show ?case
  proof (cases "n < 10")
    case True
    then show ?thesis by (subst (1 2) dec.simps) (simp add: int_of_char_digit)
  next
    case False
    then have "digits v (dec n) = digits (digits v (dec (n div 10))) [digit (n mod 10)]"
      by (subst dec.simps) (simp add: digits_append dec_digits)
    also have "\<dots> = 10 * (v * 10 ^ length (dec (n div 10)) + int (n div 10)) + int (n mod 10)"
      using 1 False int_of_char_digit [of "n mod 10"] by (simp del: of_nat_mod of_nat_div zdiv_int zmod_int)
    also have "\<dots> = v * 10 ^ Suc (length (dec (n div 10))) + (10 * int (n div 10) + int (n mod 10))"
      by (simp add: algebra_simps)
    also have "Suc (length (dec (n div 10))) = length (dec n)"
      using False by (subst (2) dec.simps) simp
    also have "10 * int (n div 10) + int (n mod 10) = int n" by presburger
    finally show ?thesis by simp
  qed
qed

lemma digits_stop: "(\<And>c u. t = c # u \<Longrightarrow> \<not> is_digit c) \<Longrightarrow> digits v t = v"
  by (cases t) auto

lemma digits_dec_stop:
  "(\<And>c u. t = c # u \<Longrightarrow> \<not> is_digit c) \<Longrightarrow> digits 0 (dec n @ t) = int n"
  by (simp add: digits_append dec_digits digits_dec digits_stop)

lemma dec_not_nul: "CHR 0x00 \<notin> set (dec n)"
proof
  assume "CHR 0x00 \<in> set (dec n)"
  then have "is_digit (CHR 0x00)" using dec_digits [of n] by (auto simp: list_all_iff)
  then show False by (simp add: is_digit_def)
qed

lemma digit_not_space: "is_digit c \<Longrightarrow> \<not> is_space c"
  by (auto simp: is_digit_def is_space_def Let_def)

lemma digit_not_sign: "is_digit c \<Longrightarrow> c \<noteq> CHR ''-'' \<and> c \<noteq> CHR ''+''"
  by (auto simp: is_digit_def Let_def)

lemma stoi_dec: "n < 2 ^ 31 \<Longrightarrow> stoi (dec n) = Inr (int n)"
  by (simp add: stoi_def digits_dec)

text \<open>A number followed by anything that does not go on with a digit.\<close>

lemma atoi_dec:
  assumes "n < 2 ^ 31" and "\<And>c u. t = c # u \<Longrightarrow> \<not> is_digit c" and "CHR 0x00 \<notin> set t"
  shows "atoi (dec n @ t) = int n"
proof -
  obtain c u where s: "dec n = c # u" by (cases "dec n") auto
  then have c: "is_digit c" using dec_digits [of n] by simp
  have "cstr (dec n @ t) = dec n @ t" using assms(3) dec_not_nul by (simp add: cstr_id)
  moreover have "dropWhile is_space (dec n @ t) = dec n @ t" using s digit_not_space [OF c] by simp
  moreover have "signed_part (dec n @ t) = (False, dec n @ t)" using s digit_not_sign [OF c] by simp
  ultimately show ?thesis
    using assms(1) by (simp add: atoi_def digits_dec_stop [OF assms(2)])
qed

end
