(* ===== verification/Account.thy ===== *)
theory Account
  imports Combat Decimal
begin

text \<open>
  Login, the character list, creating and selecting a character, attendance and heartbeat of
  \<open>GameServer/main.cpp\<close>. The account id of the login packet is parsed by \<open>std::atoll\<close>
  or, failing that, hashed; the rows of the database come from the parameter \<open>dbConn\<close>. A
  name of exactly twenty bytes in the database does not fit the list entry's twenty-byte field
  and ends the process.
\<close>

subsection \<open>Parsing the account id\<close>

text \<open>
  An array without a NUL is left by the scan when it is digits to the end, and by
  \<open>std::string\<close> in any case.
\<close>

definition scan_stops :: "string \<Rightarrow> bool" where
  "scan_stops s \<longleftrightarrow> terminated s \<or> (\<not> list_all is_digit (snd (signed_part (dropWhile is_space s))))"

definition channel_id :: "'d env \<Rightarrow> string \<Rightarrow> i64 result" where
  "channel_id E accountId =
     (if \<not> scan_stops accountId then Inl Unterminated
      else if 0 < atoll accountId then Inr (word_of_int (atoll accountId))
      else if \<not> terminated accountId then Inl Unterminated
      else Inr (hash_string E (cstr accountId) mod 900000000 + 100000000))"

subsection \<open>The character list\<close>

text \<open>
  One turn per fetched row. A name longer than the 21-byte column buffer is fetched with a
  warning, which the loop takes for the end.
\<close>

fun fetch_chars :: "(i64 \<times> string \<times> u8 \<times> i32 \<times> i64) list \<Rightarrow> SC_CharListEntry list \<Rightarrow>
    SC_CharListEntry list result" where
  "fetch_chars [] entries = Inr entries"
| "fetch_chars ((charUid, charName, charType, level, xp) # rows) entries =
     (if 20 < length charName \<or> 5 \<le> length entries then Inr entries
      else case strncpy_s 20 charName 20 of
        None \<Rightarrow> Inl InvalidParameter
      | Some name \<Rightarrow> fetch_chars rows (entries @
          [\<lparr>cle_charUid = charUid, cle_name = name, cle_charType = charType, cle_level = ucast level\<rparr>]))"

definition SendCharList :: "'d env \<Rightarrow> SessionId \<Rightarrow> 'd world \<Rightarrow> 'd world result" where
  "SendCharList E sid w =
     (case spCharacterList (dbConn E) (p_accountUid (GetPlayer w sid)) (w_db w) of (rows, db) \<Rightarrow>
        bind_result (fetch_chars (case rows of None \<Rightarrow> [] | Some rs \<Rightarrow> rs) []) (\<lambda>entries.
          Inr (Send sid (P_CharList \<lparr>cl_count = word_of_nat (length entries),
            cl_chars = entries @ replicate (5 - length entries) zero_SC_CharListEntry\<rparr>) (w\<lparr>w_db := db\<rparr>))))"

definition OnCharList :: "'d env \<Rightarrow> SessionId \<Rightarrow> 'd world \<Rightarrow> 'd world result" where
  "OnCharList E sid w = SendCharList E sid w"

subsection \<open>Login\<close>

text \<open>The account of the database row, or the channel id when there is none.\<close>

definition login_account :: "(i64 \<times> i64) list option \<Rightarrow> i64 \<Rightarrow> bool \<times> u64" where
  "login_account rows channelId =
     (let accountUid = (case rows of Some ((uid1, uid2) # _) \<Rightarrow> uid1 | _ \<Rightarrow> 0);
          ok = (rows \<noteq> None \<and> 0 < sint accountUid)
      in (ok, if ok then accountUid else channelId))"

definition OnLogin :: "'d env \<Rightarrow> SessionId \<Rightarrow> CS_Login \<Rightarrow> 'd world \<Rightarrow> 'd world result" where
  "OnLogin E sid login w = bind_result (channel_id E (lg_accountId login)) (\<lambda>channelId.
     case spAccountLogin (dbConn E) 0 channelId (w_db w) of (rows, db) \<Rightarrow>
       case login_account rows channelId of (ok, accountUid) \<Rightarrow>
         let w1 = upd_player sid (\<lambda>p. p\<lparr>p_accountUid := accountUid\<rparr>) (w\<lparr>w_db := db\<rparr>);
             w2 = Send sid (P_LoginResult \<lparr>lr_success = 1, lr_accountUid = p_accountUid (GetPlayer w1 sid),
                    lr_message = (if ok then ''Login successful'' else ''Login (no DB)'')\<rparr>) w1
         in SendCharList E sid w2)"

subsection \<open>Creating a character\<close>

definition OnCharCreate :: "'d env \<Rightarrow> SessionId \<Rightarrow> CS_CharCreate \<Rightarrow> 'd world \<Rightarrow> 'd world result" where
  "OnCharCreate E sid req w =
     (if \<not> terminated (cc_name req) then Inl Unterminated
      else case spCharacterCreate (dbConn E) (p_accountUid (GetPlayer w sid)) (cstr (cc_name req))
                  (cc_charType req) (w_db w) of (rows, db) \<Rightarrow>
        let charUid = (case rows of Some (uid # _) \<Rightarrow> uid | _ \<Rightarrow> 0);
            ok = (rows \<noteq> None \<and> 0 < charUid);
            w1 = Send sid (P_CharCreateResult \<lparr>ccr_success = (if ok then 1 else 0), ccr_charUid = charUid,
                   ccr_message = (if ok then ''Character created'' else ''Create failed'')\<rparr>) (w\<lparr>w_db := db\<rparr>)
        in if ok then SendCharList E sid w1 else Inr w1)"

subsection \<open>Attendance and heartbeat\<close>

definition SendAttendanceInfo :: "'d env \<Rightarrow> SessionId \<Rightarrow> 'd world \<Rightarrow> 'd world" where
  "SendAttendanceInfo E sid w =
     (case spAttendanceInfo (dbConn E) (p_charUid (GetPlayer w sid)) (w_db w) of (rows, db) \<Rightarrow>
        let (attended, gold) = (case rows of Some (r # _) \<Rightarrow> r | _ \<Rightarrow> (0, 0))
        in Send sid (P_AttendanceInfo \<lparr>ai_todayAttended = attended, ai_rewardGold = gold\<rparr>) (w\<lparr>w_db := db\<rparr>))"

definition OnAttendanceCheck :: "'d env \<Rightarrow> SessionId \<Rightarrow> 'd world \<Rightarrow> 'd world" where
  "OnAttendanceCheck E sid w =
     (case spAttendanceCheck (dbConn E) (p_charUid (GetPlayer w sid)) (w_db w) of (rows, db) \<Rightarrow>
        let (success, gold) = (case rows of Some (r # _) \<Rightarrow> r | _ \<Rightarrow> (0, 0))
        in Send sid (P_AttendanceResult \<lparr>atr_success = success, atr_rewardGold = gold\<rparr>) (w\<lparr>w_db := db\<rparr>))"

definition OnHeartbeat :: "SessionId \<Rightarrow> 'd world \<Rightarrow> 'd world" where
  "OnHeartbeat sid w = Send sid P_Heartbeat w"

subsection \<open>Selecting a character\<close>

text \<open>The level, experience and gold of the row; the other stats keep what they were.\<close>

definition enter_game :: "u64 \<Rightarrow> i32 \<times> i64 \<times> i64 \<Rightarrow> nat \<Rightarrow> nat \<Rightarrow> PlayerData \<Rightarrow> PlayerData" where
  "enter_game charUid row x y p = (case row of (level, xp, gold) \<Rightarrow>
     p\<lparr>p_charUid := charUid, p_loggedIn := True, p_level := ucast level, p_exp := xp, p_gold := gold,
       p_posX := word_of_nat (5 + x mod 10), p_posY := word_of_nat (5 + y mod 10)\<rparr>)"

definition fetch_name :: "'d env \<Rightarrow> SessionId \<Rightarrow> u64 \<Rightarrow> 'd world \<Rightarrow> 'd world" where
  "fetch_name E sid charUid w =
     (case selectCharName (dbConn E) charUid (w_db w) of (rows, db) \<Rightarrow>
        let w1 = w\<lparr>w_db := db\<rparr> in
        case rows of
          Some (charName # _) \<Rightarrow>
            if length charName \<le> 20 then upd_player sid (\<lambda>p. p\<lparr>p_name := ncopy 19 charName\<rparr>) w1 else w1
        | _ \<Rightarrow> w1)"

definition OnCharSelect :: "'d env \<Rightarrow> SessionId \<Rightarrow> CS_CharSelect \<Rightarrow> 'd world \<Rightarrow> 'd world" where
  "OnCharSelect E sid req w =
     (case spCharacterLogin (dbConn E) (p_accountUid (GetPlayer w sid)) (cs_charUid req) (w_db w) of (rows, db) \<Rightarrow>
        let w1 = w\<lparr>w_db := db\<rparr> in
        case rows of
          Some (row # _) \<Rightarrow>
            let (x, w2) = draw E w1;
                (y, w3) = draw E w2;
                w4 = upd_player sid (enter_game (cs_charUid req) row x y) w3;
                w5 = fetch_name E sid (cs_charUid req) w4
            in LoadQuestProgress E sid (LoadInventory E sid (SendAttendanceInfo E sid
                 (SendOtherPlayers sid (SendAllNPCs sid (SendCharInfo sid w5)))))
        | _ \<Rightarrow> Send sid (P_Error \<lparr>er_errorCode = 1, er_message = ''Character not found''\<rparr>) w1)"

subsection \<open>Frames\<close>

lemma SendCharList_frame:
  assumes "SendCharList E sid w = Inr w'"
  shows
  "w_sessions w' = w_sessions w" "w_nextSessionId w' = w_nextSessionId w" "w_npcs w' = w_npcs w"
  "w_nextNpcUid w' = w_nextNpcUid w" "w_questProgress w' = w_questProgress w"
  "w_nextPartyId w' = w_nextPartyId w" "w_parties w' = w_parties w"
  "w_playerParty w' = w_playerParty w" "w_pendingInvites w' = w_pendingInvites w"
  "w_inventories w' = w_inventories w" "w_rand w' = w_rand w"
  using assms
  by (auto simp: SendCharList_def bind_result_Inr split: prod.splits)

lemma OnLogin_cases:
  assumes "OnLogin E sid login w = Inr w'"
  obtains uid p db where "SendCharList E sid
    (Send sid p (upd_player sid (\<lambda>p. p\<lparr>p_accountUid := uid\<rparr>) (w\<lparr>w_db := db\<rparr>))) = Inr w'"
proof -
  from assms obtain c where c: "channel_id E (lg_accountId login) = Inr c"
    by (auto simp: OnLogin_def bind_result_Inr)
  obtain rows db where rows: "spAccountLogin (dbConn E) 0 c (w_db w) = (rows, db)" by fastforce
  obtain ok uid where "login_account rows c = (ok, uid)" by fastforce
  with assms c rows have "SendCharList E sid (Send sid (P_LoginResult \<lparr>lr_success = 1,
      lr_accountUid = p_accountUid (GetPlayer (upd_player sid (\<lambda>p. p\<lparr>p_accountUid := uid\<rparr>) (w\<lparr>w_db := db\<rparr>)) sid),
      lr_message = (if ok then ''Login successful'' else ''Login (no DB)'')\<rparr>)
      (upd_player sid (\<lambda>p. p\<lparr>p_accountUid := uid\<rparr>) (w\<lparr>w_db := db\<rparr>))) = Inr w'"
    by (simp add: OnLogin_def Let_def)
  then show thesis by (rule that)
qed

lemma OnLogin_frame:
  assumes "OnLogin E sid login w = Inr w'"
  shows
  "w_nextSessionId w' = w_nextSessionId w" "w_npcs w' = w_npcs w"
  "w_nextNpcUid w' = w_nextNpcUid w" "w_questProgress w' = w_questProgress w"
  "w_nextPartyId w' = w_nextPartyId w" "w_parties w' = w_parties w"
  "w_playerParty w' = w_playerParty w" "w_pendingInvites w' = w_pendingInvites w"
  "w_inventories w' = w_inventories w" "w_rand w' = w_rand w"
proof -
  from assms obtain uid p db where c: "SendCharList E sid
      (Send sid p (upd_player sid (\<lambda>p. p\<lparr>p_accountUid := uid\<rparr>) (w\<lparr>w_db := db\<rparr>))) = Inr w'"
    by (rule OnLogin_cases)
  show "w_nextSessionId w' = w_nextSessionId w" "w_npcs w' = w_npcs w" "w_nextNpcUid w' = w_nextNpcUid w" "w_questProgress w' = w_questProgress w" "w_nextPartyId w' = w_nextPartyId w"
    "w_parties w' = w_parties w" "w_playerParty w' = w_playerParty w" "w_pendingInvites w' = w_pendingInvites w" "w_inventories w' = w_inventories w" "w_rand w' = w_rand w"
    by (simp_all add: SendCharList_frame [OF c])
qed

lemma OnCharCreate_frame:
  assumes "OnCharCreate E sid req w = Inr w'"
  shows
  "w_sessions w' = w_sessions w" "w_nextSessionId w' = w_nextSessionId w" "w_npcs w' = w_npcs w"
  "w_nextNpcUid w' = w_nextNpcUid w" "w_questProgress w' = w_questProgress w"
  "w_nextPartyId w' = w_nextPartyId w" "w_parties w' = w_parties w"
  "w_playerParty w' = w_playerParty w" "w_pendingInvites w' = w_pendingInvites w"
  "w_inventories w' = w_inventories w" "w_rand w' = w_rand w"
  using assms
  by (auto simp: OnCharCreate_def SendCharList_def bind_result_Inr Let_def split: prod.splits if_splits)

lemma SendAttendanceInfo_frame [simp, frame]:
  "w_sessions (SendAttendanceInfo E sid w) = w_sessions w"
  "w_nextSessionId (SendAttendanceInfo E sid w) = w_nextSessionId w"
  "w_npcs (SendAttendanceInfo E sid w) = w_npcs w"
  "w_nextNpcUid (SendAttendanceInfo E sid w) = w_nextNpcUid w"
  "w_questProgress (SendAttendanceInfo E sid w) = w_questProgress w"
  "w_nextPartyId (SendAttendanceInfo E sid w) = w_nextPartyId w"
  "w_parties (SendAttendanceInfo E sid w) = w_parties w"
  "w_playerParty (SendAttendanceInfo E sid w) = w_playerParty w"
  "w_pendingInvites (SendAttendanceInfo E sid w) = w_pendingInvites w"
  "w_inventories (SendAttendanceInfo E sid w) = w_inventories w"
  "w_rand (SendAttendanceInfo E sid w) = w_rand w"
  by (simp_all add: SendAttendanceInfo_def split: prod.split)

lemma OnAttendanceCheck_frame [simp, frame]:
  "w_sessions (OnAttendanceCheck E sid w) = w_sessions w"
  "w_nextSessionId (OnAttendanceCheck E sid w) = w_nextSessionId w"
  "w_npcs (OnAttendanceCheck E sid w) = w_npcs w"
  "w_nextNpcUid (OnAttendanceCheck E sid w) = w_nextNpcUid w"
  "w_questProgress (OnAttendanceCheck E sid w) = w_questProgress w"
  "w_nextPartyId (OnAttendanceCheck E sid w) = w_nextPartyId w"
  "w_parties (OnAttendanceCheck E sid w) = w_parties w"
  "w_playerParty (OnAttendanceCheck E sid w) = w_playerParty w"
  "w_pendingInvites (OnAttendanceCheck E sid w) = w_pendingInvites w"
  "w_inventories (OnAttendanceCheck E sid w) = w_inventories w"
  "w_rand (OnAttendanceCheck E sid w) = w_rand w"
  by (simp_all add: OnAttendanceCheck_def split: prod.split)

lemma OnHeartbeat_frame [simp, frame]:
  "w_sessions (OnHeartbeat sid w) = w_sessions w"
  "w_nextSessionId (OnHeartbeat sid w) = w_nextSessionId w"
  "w_npcs (OnHeartbeat sid w) = w_npcs w" "w_nextNpcUid (OnHeartbeat sid w) = w_nextNpcUid w"
  "w_questProgress (OnHeartbeat sid w) = w_questProgress w"
  "w_nextPartyId (OnHeartbeat sid w) = w_nextPartyId w"
  "w_parties (OnHeartbeat sid w) = w_parties w"
  "w_playerParty (OnHeartbeat sid w) = w_playerParty w"
  "w_pendingInvites (OnHeartbeat sid w) = w_pendingInvites w"
  "w_inventories (OnHeartbeat sid w) = w_inventories w" "w_rand (OnHeartbeat sid w) = w_rand w"
  "w_db (OnHeartbeat sid w) = w_db w"
  by (simp_all add: OnHeartbeat_def)

lemma fetch_name_frame [simp, frame]:
  "w_nextSessionId (fetch_name E sid c w) = w_nextSessionId w"
  "w_npcs (fetch_name E sid c w) = w_npcs w"
  "w_nextNpcUid (fetch_name E sid c w) = w_nextNpcUid w"
  "w_questProgress (fetch_name E sid c w) = w_questProgress w"
  "w_nextPartyId (fetch_name E sid c w) = w_nextPartyId w"
  "w_parties (fetch_name E sid c w) = w_parties w"
  "w_playerParty (fetch_name E sid c w) = w_playerParty w"
  "w_pendingInvites (fetch_name E sid c w) = w_pendingInvites w"
  "w_inventories (fetch_name E sid c w) = w_inventories w"
  "w_rand (fetch_name E sid c w) = w_rand w"
  by (simp_all add: fetch_name_def Let_def split: prod.split option.split list.split)

lemma OnCharSelect_frame [simp, frame]:
  "w_nextSessionId (OnCharSelect E sid req w) = w_nextSessionId w"
  "w_npcs (OnCharSelect E sid req w) = w_npcs w"
  "w_nextNpcUid (OnCharSelect E sid req w) = w_nextNpcUid w"
  "w_nextPartyId (OnCharSelect E sid req w) = w_nextPartyId w"
  "w_parties (OnCharSelect E sid req w) = w_parties w"
  "w_playerParty (OnCharSelect E sid req w) = w_playerParty w"
  "w_pendingInvites (OnCharSelect E sid req w) = w_pendingInvites w"
  by (simp_all add: OnCharSelect_def draw_def Let_def split: prod.split option.split list.split)

subsection \<open>Players and the character list\<close>

lemma SendCharList_sessions:
  assumes "SendCharList E sid w = Inr w'"
  shows "GetPlayer w' = GetPlayer w" "live w' = live w"
  by (rule sessions_cong, rule SendCharList_frame(1) [OF assms])+

lemma live_OnLogin: "OnLogin E sid login w = Inr w' \<Longrightarrow> live w' i \<longleftrightarrow> live w i"
  by (erule OnLogin_cases) (simp add: SendCharList_sessions)

lemma GetPlayer_OnLogin:
  assumes "OnLogin E sid login w = Inr w'"
  shows "\<exists>uid. \<forall>i. GetPlayer w' i =
     (if i = sid \<and> live w sid then (GetPlayer w sid)\<lparr>p_accountUid := uid\<rparr> else GetPlayer w i)"
proof -
  from assms obtain uid p db where c: "SendCharList E sid
      (Send sid p (upd_player sid (\<lambda>p. p\<lparr>p_accountUid := uid\<rparr>) (w\<lparr>w_db := db\<rparr>))) = Inr w'"
    by (rule OnLogin_cases)
  show ?thesis
    by (rule exI [of _ uid]) (simp add: SendCharList_sessions [OF c] GetPlayer_upd_player)
qed

lemma OnLogin_players_ok:
  assumes "OnLogin E sid login w = Inr w'" and "players_ok w"
  shows "players_ok w'"
  using GetPlayer_OnLogin [OF assms(1)] assms(2) by (auto simp: players_ok_def player_ok_def on_map_def)

lemma in_map_start: "in_map (word_of_nat (5 + x mod 10))"
proof -
  have "sint (word_of_nat (5 + x mod 10) :: i16) = int (5 + x mod 10)" by (rule sint_small) simp
  then show ?thesis by (simp only: in_map_def MAP_SIZE_def) simp
qed

lemma in_map_start': "in_map (5 + word_of_nat (x mod 10))"
  using in_map_start [of x] by simp

lemma player_ok_enter: "player_ok p \<Longrightarrow> player_ok (enter_game c row x y p)"
  by (simp add: player_ok_def enter_game_def on_map_def in_map_start' split: prod.split)

lemma fetch_name_players_ok: "players_ok w \<Longrightarrow> players_ok (fetch_name E sid c w)"
  by (auto simp: players_ok_def fetch_name_def Let_def GetPlayer_upd_player player_ok_def on_map_def
      split: prod.split option.split list.split)

lemma upd_player_players_ok:
  "players_ok w \<Longrightarrow> (\<And>p. player_ok p \<Longrightarrow> player_ok (f p)) \<Longrightarrow> players_ok (upd_player sid f w)"
  by (simp add: players_ok_def GetPlayer_upd_player)

lemma SendAttendanceInfo_sessions [simp]:
  "GetPlayer (SendAttendanceInfo E sid w) = GetPlayer w" "live (SendAttendanceInfo E sid w) = live w"
  "GetPlayer (OnAttendanceCheck E sid w) = GetPlayer w" "live (OnAttendanceCheck E sid w) = live w"
  "GetPlayer (OnHeartbeat sid w) = GetPlayer w" "live (OnHeartbeat sid w) = live w"
  by (rule sessions_cong, simp)+

lemma OnCharSelect_players_ok: "players_ok w \<Longrightarrow> players_ok (OnCharSelect E sid req w)"
proof -
  assume "players_ok w"
  then have start: "players_ok v" if "w_sessions v = w_sessions w" for v :: "'a world"
    using that sessions_cong(2) [of v w] by (simp add: players_ok_def)
  have entered: "players_ok (LoadInventory E sid (SendAttendanceInfo E sid (SendOtherPlayers sid
      (SendAllNPCs sid (SendCharInfo sid (fetch_name E sid c (upd_player sid (enter_game c row x y) v)))))))"
    if "players_ok v" for v c row x y
  proof -
    have "players_ok (fetch_name E sid c (upd_player sid (enter_game c row x y) v))"
      by (intro fetch_name_players_ok upd_player_players_ok that player_ok_enter)
    then show ?thesis by (intro LoadInventory_players_ok) (simp add: players_ok_def)
  qed
  show ?thesis
    using start entered [OF start]
    by (auto simp: OnCharSelect_def draw_def Let_def players_ok_def split: prod.split option.split list.split)
qed

lemma live_fetch_name [simp]: "live (fetch_name E sid c w) i \<longleftrightarrow> live w i"
  by (simp add: fetch_name_def Let_def split: prod.split option.split list.split)

lemma live_OnCharSelect [simp]: "live (OnCharSelect E sid req w) i \<longleftrightarrow> live w i"
  by (simp add: OnCharSelect_def draw_def Let_def split: prod.split option.split list.split)

lemma OnCharSelect_inventories_ok: "inventories_ok w \<Longrightarrow> inventories_ok (OnCharSelect E sid req w)"
proof -
  have keep: "inventories_ok v" if "w_inventories v = w_inventories w" "inventories_ok w" for v :: "'a world"
    using that get_inv_cong [of v w] by (simp add: inventories_ok_def)
  assume ok: "inventories_ok w"
  have load: "inventories_ok (LoadQuestProgress E sid (LoadInventory E sid v))" if "inventories_ok v" for v :: "'a world"
    using LoadInventory_inventories_ok [OF that, of E sid] by (simp add: inventories_ok_def)
  show ?thesis
    by (auto simp: OnCharSelect_def draw_def Let_def split: prod.split option.split list.split
        intro!: load intro: keep [OF _ ok])
qed

lemma OnCharSelect_progress_ok: "progress_ok w \<Longrightarrow> progress_ok (OnCharSelect E sid req w)"
proof -
  have keep: "progress_ok v" if "w_questProgress v = w_questProgress w" "progress_ok w" for v :: "'a world"
    using that get_qp_cong [of v w] by (simp add: progress_ok_def)
  assume ok: "progress_ok w"
  show ?thesis
    by (auto simp: OnCharSelect_def draw_def Let_def split: prod.split option.split list.split
        intro!: LoadQuestProgress_progress_ok intro: keep [OF _ ok])
qed

text \<open>The list sent: a prefix of the rows, at most five, every name as stored.\<close>

lemma fetch_chars_Inr:
  assumes "fetch_chars rows entries = Inr res" and "length entries \<le> 5"
  shows "length res \<le> 5 \<and> (\<exists>n. res = entries @ map (\<lambda>(uid, name, ty, level, xp).
    \<lparr>cle_charUid = uid, cle_name = cstr name, cle_charType = ty, cle_level = ucast level\<rparr>) (take n rows))"
  using assms
proof (induction rows entries rule: fetch_chars.induct)
  case (1 entries)
  then show ?case by auto
next
  case (2 uid name ty level xp rows entries)
  show ?case
  proof (cases "20 < length name \<or> 5 \<le> length entries")
    case True
    with 2(2,3) have "res = entries" by auto
    with 2(3) show ?thesis by (auto intro: exI [of _ 0])
  next
    case False
    with 2(2) obtain n where n: "strncpy_s 20 name 20 = Some n"
      and rest: "fetch_chars rows (entries @ [\<lparr>cle_charUid = uid, cle_name = n, cle_charType = ty,
        cle_level = ucast level\<rparr>]) = Inr res"
      by (auto split: option.splits)
    have "length (cstr name) \<le> length name" unfolding cstr_def by (rule length_takeWhile_le)
    with n False have "n = cstr name" by (auto simp: strncpy_s_def Let_def split: if_splits)
    from 2(1) [OF False n rest] False obtain m where "length res \<le> 5"
      "res = entries @ map (\<lambda>(uid, name, ty, level, xp). \<lparr>cle_charUid = uid, cle_name = cstr name,
        cle_charType = ty, cle_level = ucast level\<rparr>) (take (Suc m) ((uid, name, ty, level, xp) # rows))"
      unfolding \<open>n = cstr name\<close> by auto
    then show ?thesis by blast
  qed
qed

lemma fetch_chars_crash:
  assumes "length entries < 5" and "list_all (\<lambda>(uid, name, ty, level, xp). length (cstr name) < 20 \<and> length name \<le> 20) rows"
    and "length entries + length rows < 5" and "length (cstr name) = 20" and "length name = 20"
  shows "fetch_chars (rows @ (uid, name, ty, level, xp) # more_rows) entries = Inl InvalidParameter"
  using assms
proof (induction rows arbitrary: entries)
  case Nil
  then show ?case by (simp add: strncpy_s_def)
next
  case (Cons row rows)
  obtain u n t l x where row: "row = (u, n, t, l, x)" by (cases row)
  with Cons show ?case by (simp add: strncpy_s_def)
qed

subsection \<open>Properties\<close>

text \<open>A character whose name has exactly twenty bytes ends the process when the list of its account is
  sent: the copy into the twenty-byte field of the entry leaves no room for the terminator.\<close>

theorem long_name_crashes:
  assumes "spCharacterList (dbConn E) (p_accountUid (GetPlayer w sid)) (w_db w) =
      (Some (rows @ (uid, name, ty, level, xp) # more_rows), db)"
    and "list_all (\<lambda>(uid, name, ty, level, xp). length (cstr name) < 20 \<and> length name \<le> 20) rows"
    and "length rows < 5" and "length (cstr name) = 20" and "length name = 20"
  shows "OnCharList E sid w = Inl InvalidParameter"
  using fetch_chars_crash [of "[]" rows name uid ty level xp more_rows] assms
  by (simp add: OnCharList_def SendCharList_def)

definition long_name_env :: "nat env" where
  "long_name_env = sample_env\<lparr>dbConn := sample_db\<lparr>spCharacterList := (\<lambda>accountUid n.
     (Some [(100, ''Alice'', 1, 3, 0), (101, replicate 20 (CHR ''b''), 2, 1, 0)], n))\<rparr>\<rparr>"

theorem long_name_crashes_witness: "OnCharList long_name_env 1 sample_world = Inl InvalidParameter"
  by (rule long_name_crashes [where rows = "[(100, ''Alice'', 1, 3, 0)]" and name = "replicate 20 (CHR ''b'')"
        and uid = 101 and ty = 2 and level = 1 and xp = 0 and more_rows = "[]"])
    (simp_all add: long_name_env_def cstr_def)

end
