(* ===== verification/Chat.thy ===== *)
theory Chat
  imports Party
begin

text \<open>
  \<open>OnChat\<close> of \<open>GameServer/main.cpp\<close>: to the world, to the players of a name (with an echo
  to the sender for each one), or to the sender's party. Another channel is ignored.
\<close>

definition chat_error :: "SessionId \<Rightarrow> string \<Rightarrow> 'd world \<Rightarrow> 'd world" where
  "chat_error sid message w = Send sid (P_Error \<lparr>er_errorCode = 2, er_message = message\<rparr>) w"

definition chat_reply :: "'d world \<Rightarrow> SessionId \<Rightarrow> CS_Chat \<Rightarrow> SC_Chat" where
  "chat_reply w sid chat = \<lparr>sch_channel = cch_channel chat,
     sch_senderName = ncopy 19 (p_name (GetPlayer w sid)), sch_message = ncopy 127 (cch_message chat)\<rparr>"

definition named :: "string \<Rightarrow> Session \<Rightarrow> bool" where
  "named name s \<longleftrightarrow> strncmp_eq (p_name (s_player s)) name 20"

definition whisper :: "SessionId \<Rightarrow> CS_Chat \<Rightarrow> SC_Chat \<Rightarrow> 'd world \<Rightarrow> 'd world" where
  "whisper sid chat reply w =
     (let (found, w1) = fold (\<lambda>(oid, other) (found, w).
            if named (cch_targetName chat) other
            then (True, Send sid (P_Chat reply) (Send oid (P_Chat reply) w)) else (found, w))
            (w_sessions w) (False, w)
      in if found then w1 else chat_error sid ''Player not found'' w1)"

definition route_chat :: "SessionId \<Rightarrow> CS_Chat \<Rightarrow> 'd world \<Rightarrow> 'd world" where
  "route_chat sid chat w =
     (let reply = chat_reply w sid chat in
      if cch_channel chat = 0 then Broadcast (P_Chat reply) w
      else if cch_channel chat = 1 then whisper sid chat reply w
      else if cch_channel chat = 2 then
        (case map_of (w_playerParty w) sid of
           Some partyId \<Rightarrow>
             let w1 = ensure_party partyId w
             in send_each (pt_members (get_party w1 partyId)) (P_Chat reply) w1
         | None \<Rightarrow> chat_error sid ''Not in a party'' w)
      else w)"

text \<open>At the end of each channel's branch the texts of the packet are printed.\<close>

definition chat_log :: "CS_Chat \<Rightarrow> string list" where
  "chat_log chat = (if cch_channel chat = 1 then [cch_targetName chat, cch_message chat]
     else if cch_channel chat = 0 \<or> cch_channel chat = 2 then [cch_message chat] else [])"

definition OnChat :: "SessionId \<Rightarrow> CS_Chat \<Rightarrow> 'd world \<Rightarrow> 'd world result" where
  "OnChat sid chat w = c_print (chat_log chat) (route_chat sid chat w)"

lemma OnChat_iff [simp]:
  "OnChat sid chat w = Inr w' \<longleftrightarrow> list_all terminated (chat_log chat) \<and> w' = route_chat sid chat w"
  "OnChat sid chat w = Inl c \<longleftrightarrow> \<not> list_all terminated (chat_log chat) \<and> c = Unterminated"
  by (simp_all add: OnChat_def)

subsection \<open>Chat changes nothing but what is sent\<close>

lemma chat_error_frame [simp, frame]:
  "w_sessions (chat_error sid m w) = w_sessions w" "w_parties (chat_error sid m w) = w_parties w"
  by (simp_all add: chat_error_def)

lemma whisper_fold:
  "fold (\<lambda>(oid, other) (found, w). if named name other
      then (True, Send sid p (Send oid p w)) else (found, w)) xs (b, w) =
   (b \<or> (\<exists>(oid, other) \<in> set xs. named name other),
    fold (\<lambda>(oid, other) w. if named name other then Send sid p (Send oid p w) else w) xs w)"
  by (induction xs arbitrary: b w) auto

lemma whisper_frame [simp, frame]:
  "w_sessions (whisper sid chat reply w) = w_sessions w"
  "w_nextSessionId (whisper sid chat reply w) = w_nextSessionId w"
  "w_npcs (whisper sid chat reply w) = w_npcs w"
  "w_nextNpcUid (whisper sid chat reply w) = w_nextNpcUid w"
  "w_questProgress (whisper sid chat reply w) = w_questProgress w"
  "w_nextPartyId (whisper sid chat reply w) = w_nextPartyId w"
  "w_parties (whisper sid chat reply w) = w_parties w"
  "w_playerParty (whisper sid chat reply w) = w_playerParty w"
  "w_pendingInvites (whisper sid chat reply w) = w_pendingInvites w"
  "w_inventories (whisper sid chat reply w) = w_inventories w"
  "w_rand (whisper sid chat reply w) = w_rand w" "w_db (whisper sid chat reply w) = w_db w"
  by (simp_all add: whisper_def whisper_fold chat_error_def fold_keeps case_prod_beta)

lemma route_chat_frame [simp, frame]:
  "w_sessions (route_chat sid chat w) = w_sessions w"
  "w_nextSessionId (route_chat sid chat w) = w_nextSessionId w"
  "w_npcs (route_chat sid chat w) = w_npcs w" "w_nextNpcUid (route_chat sid chat w) = w_nextNpcUid w"
  "w_questProgress (route_chat sid chat w) = w_questProgress w"
  "w_nextPartyId (route_chat sid chat w) = w_nextPartyId w"
  "w_playerParty (route_chat sid chat w) = w_playerParty w"
  "w_pendingInvites (route_chat sid chat w) = w_pendingInvites w"
  "w_inventories (route_chat sid chat w) = w_inventories w" "w_rand (route_chat sid chat w) = w_rand w"
  "w_db (route_chat sid chat w) = w_db w"
  by (simp_all add: route_chat_def chat_error_def Let_def split: option.split)

subsection \<open>Who hears what\<close>

definition deliver :: "'d world \<Rightarrow> sc_packet \<Rightarrow> SessionId \<Rightarrow> (SessionId \<times> sc_packet) list" where
  "deliver w p sid = (case GetSession w sid of None \<Rightarrow> [] | Some s \<Rightarrow> session_send sid s p)"

lemma deliver_cong: "w_sessions w' = w_sessions w \<Longrightarrow> deliver w' = deliver w"
  by (simp add: deliver_def GetSession_def fun_eq_iff)

lemma deliver_to: "(i, q) \<in> set (deliver w p sid) \<Longrightarrow> i = sid \<and> q = p"
  by (auto simp: deliver_def session_send_def split: option.splits if_splits)

lemma out_Send: "w_out (Send sid p w) = w_out w @ deliver w p sid"
  by (simp add: w_out_Send deliver_def)

lemma out_send_each: "w_out (send_each mids p w) = w_out w @ concat (map (deliver w p) mids)"
  unfolding send_each_def
proof (induction mids arbitrary: w)
  case (Cons mid mids)
  then show ?case using deliver_cong [of "Send mid p w" w] by (simp add: out_Send)
qed simp

lemma out_whisper_fold:
  "w_out (fold (\<lambda>(oid, other) w. if named name other then Send sid p (Send oid p w) else w) xs w) =
   w_out w @ concat (map (\<lambda>(oid, other). deliver w p oid @ deliver w p sid)
     (filter (\<lambda>(oid, other). named name other) xs))"
proof (induction xs arbitrary: w)
  case (Cons x xs)
  obtain oid other where x: "x = (oid, other)" by (cases x)
  have "deliver (Send sid p (Send oid p w)) = deliver w" "deliver (Send oid p w) = deliver w"
    by (rule deliver_cong, simp)+
  then show ?case using Cons x by (simp add: out_Send)
qed simp

text \<open>A whisper reaches the sessions of that name and, once for each of them, the sender.\<close>

lemma out_whisper:
  assumes "\<exists>(oid, other) \<in> set (w_sessions w). named (cch_targetName chat) other"
  shows "w_out (whisper sid chat reply w) = w_out w @
    concat (map (\<lambda>(oid, other). deliver w (P_Chat reply) oid @ deliver w (P_Chat reply) sid)
      (filter (\<lambda>(oid, other). named (cch_targetName chat) other) (w_sessions w)))"
  using assms by (simp add: whisper_def whisper_fold out_whisper_fold)

lemma out_whisper_nobody:
  assumes "\<not> (\<exists>(oid, other) \<in> set (w_sessions w). named (cch_targetName chat) other)"
  shows "w_out (whisper sid chat reply w) = w_out w @
    deliver w (P_Error \<lparr>er_errorCode = 2, er_message = ''Player not found''\<rparr>) sid"
proof -
  have "fold (\<lambda>(oid, other) w. if named name other then f oid w else w) xs w = w"
    if "\<not> (\<exists>(oid, other) \<in> set xs. named name other)" for name and f :: "SessionId \<Rightarrow> 'a world \<Rightarrow> 'a world" and xs
    using that by (induction xs) auto
  with assms show ?thesis by (simp add: whisper_def whisper_fold chat_error_def out_Send)
qed

lemma out_route_chat_party:
  assumes "cch_channel chat = 2" and "party_of w sid = Some p" and "party_at w p = Some ms"
  shows "w_out (route_chat sid chat w) = w_out w @ concat (map (deliver w (P_Chat (chat_reply w sid chat))) ms)"
proof -
  have "deliver (ensure_party p w) = deliver w" by (rule deliver_cong) simp
  moreover have "w_out (ensure_party p w) = w_out w" by simp
  ultimately show ?thesis
    using assms by (simp add: route_chat_def party_of_def [symmetric] out_send_each get_party_members)
qed

lemma route_chat_maps:
  assumes "members_ok w"
  shows "w_parties (route_chat sid chat w) = w_parties w"
proof (cases "cch_channel chat = 2")
  case True
  show ?thesis
  proof (cases "party_of w sid")
    case (Some p)
    then obtain party where "map_of (w_parties w) p = Some party"
      using members_okD [OF assms Some] by (auto simp: party_at_def)
    then have "w_parties (ensure_party p w) = w_parties w" by (simp add: ensure_party_def om_ensure_def)
    with Some True show ?thesis by (simp add: route_chat_def party_of_def Let_def)
  qed (use True in \<open>simp add: route_chat_def party_of_def\<close>)
qed (simp add: route_chat_def Let_def)

subsection \<open>Properties\<close>

text \<open>A whisper to a name some session has is sent to the connected sessions of that name and, once for
  each of them, echoed to the sender; to a name nobody has, the sender alone is told so.\<close>

theorem whisper_reaches:
  assumes "cch_channel chat = 1"
  shows "w_out (route_chat sid chat w) = w_out w @
    (let reply = P_Chat (chat_reply w sid chat);
         targets = filter (\<lambda>(oid, other). named (cch_targetName chat) other) (w_sessions w)
     in if targets = [] then deliver w (P_Error \<lparr>er_errorCode = 2, er_message = ''Player not found''\<rparr>) sid
        else concat (map (\<lambda>(oid, other). deliver w reply oid @ deliver w reply sid) targets))"
proof -
  have "filter (\<lambda>(oid, other). named (cch_targetName chat) other) (w_sessions w) = [] \<longleftrightarrow>
      \<not> (\<exists>(oid, other) \<in> set (w_sessions w). named (cch_targetName chat) other)"
    by (auto simp: filter_empty_conv)
  then show ?thesis
    using assms out_whisper [of w chat sid "chat_reply w sid chat"]
      out_whisper_nobody [of w chat sid "chat_reply w sid chat"]
    by (simp add: route_chat_def Let_def)
qed

definition sample_whisper :: CS_Chat where
  "sample_whisper = \<lparr>cch_channel = 1, cch_targetName = ''Bob'' @ replicate 17 (CHR 0x00),
     cch_message = ''hi'' @ replicate 126 (CHR 0x00)\<rparr>"

theorem whisper_reaches_witness:
  "w_out (route_chat 1 sample_whisper sample_world) =
     [(2, P_Chat \<lparr>sch_channel = 1, sch_senderName = ''Alice'', sch_message = ''hi''\<rparr>),
      (1, P_Chat \<lparr>sch_channel = 1, sch_senderName = ''Alice'', sch_message = ''hi''\<rparr>)]"
proof -
  have reply: "chat_reply sample_world 1 sample_whisper =
      \<lparr>sch_channel = 1, sch_senderName = ''Alice'', sch_message = ''hi''\<rparr>"
    by (simp add: chat_reply_def sample_whisper_def sample_player_def ncopy_def cstr_def)
  have world: "w_sessions sample_world = [(1, sample_session ''Alice'' 100), (2, sample_session ''Bob'' 101)]"
    "w_out sample_world = []" by (simp_all add: sample_world_def)
  have up: "deliver sample_world p 1 = [(1, p)]" "deliver sample_world p 2 = [(2, p)]" for p
    by (simp_all add: deliver_def session_send_def sample_session_def new_session_def)
  have targets: "filter (\<lambda>(oid, other). named (cch_targetName sample_whisper) other) (w_sessions sample_world) =
      [(2, sample_session ''Bob'' 101)]"
    by (simp add: world named_def sample_whisper_def sample_session_def sample_player_def strncmp_eq_def cstr_def)
  have "cch_channel sample_whisper = 1" by (simp add: sample_whisper_def)
  from whisper_reaches [OF this, of 1 sample_world] show ?thesis
    unfolding targets reply by (simp add: world up Let_def)
qed

end
