(* ===== verification/Shop.thy ===== *)
theory Shop
  imports Inventory
begin

text \<open>
  The shop of \<open>GameServer/main.cpp\<close>: the list of goods (at most ten), buying into the
  first empty slot, selling a slot for a fifth of the price. Buying and selling copy the
  item's name into a 32-byte message with \<open>strcpy_s\<close>, which ends the process when the
  name does not fit.
\<close>

definition shop_entry :: "ItemData \<Rightarrow> SC_ShopEntry" where
  "shop_entry item = \<lparr>she_itemId = it_id item, she_itemName = ncopy 31 (it_name item),
     she_price = it_price item\<rparr>"

definition OnShopOpen :: "'d env \<Rightarrow> SessionId \<Rightarrow> 'd world \<Rightarrow> 'd world" where
  "OnShopOpen E sid w =
     (let n = min (length (g_items E)) 10
      in Send sid (P_ShopList \<lparr>shl_count = word_of_nat n,
           shl_items = map shop_entry (take n (g_items E)) @ replicate (10 - n) zero_SC_ShopEntry\<rparr>) w)"

definition shop_refusal :: "SessionId \<Rightarrow> string \<Rightarrow> u64 \<Rightarrow> 'd world \<Rightarrow> 'd world" where
  "shop_refusal sid message remainGold w =
     Send sid (P_ShopResult \<lparr>shr_success = 0, shr_itemId = 0, shr_remainGold = remainGold,
       shr_message = message\<rparr>) w"

definition OnShopBuy :: "'d env \<Rightarrow> SessionId \<Rightarrow> CS_ShopBuy \<Rightarrow> 'd world \<Rightarrow> 'd world result" where
  "OnShopBuy E sid req w =
     (let gold = p_gold (GetPlayer w sid) in
      case FindItem E (sb_itemId req) of
        None \<Rightarrow> Inr (shop_refusal sid ''Item not found'' gold w)
      | Some item \<Rightarrow>
          if gold < ucast (it_price item) then Inr (shop_refusal sid ''Not enough gold'' gold w)
          else
            let w1 = ensure_inv sid w; iv = get_inv w1 sid in
            case FindEmptySlot iv of
              None \<Rightarrow> Inr (shop_refusal sid ''Inventory full'' gold w1)
            | Some slot \<Rightarrow>
                let w2 = upd_player sid (\<lambda>p. p\<lparr>p_gold := p_gold p - ucast (it_price item)\<rparr>) w1;
                    (newUid, w3) = AddItemToDB E (p_charUid (GetPlayer w2 sid)) (sb_itemId req) w2;
                    w4 = set_inv sid (set_slot slot (item_slot newUid (sb_itemId req)) iv) w3
                in case strcpy_s 32 (it_name item) of
                     None \<Rightarrow> Inl InvalidParameter
                   | Some message \<Rightarrow>
                       let w5 = Send sid (P_InventoryUpdate \<lparr>iu_slot = word_of_nat slot,
                              iu_itemId = it_id item, iu_itemName = ncopy 31 (it_name item)\<rparr>) w4
                       in Inr (Send sid (P_ShopResult \<lparr>shr_success = 1, shr_itemId = sb_itemId req,
                              shr_remainGold = p_gold (GetPlayer w5 sid),
                              shr_message = message\<rparr>) w5))"

definition sell_price :: "ItemData option \<Rightarrow> u32" where
  "sell_price item = (case item of None \<Rightarrow> 0 | Some i \<Rightarrow> it_price i div 5)"

text \<open>The refusal of \<open>OnShopSell\<close> leaves \<open>remainGold\<close> at zero.\<close>

definition OnShopSell :: "'d env \<Rightarrow> SessionId \<Rightarrow> CS_ShopSell \<Rightarrow> 'd world \<Rightarrow> 'd world result" where
  "OnShopSell E sid req w0 =
     (let w = ensure_inv sid w0; iv = get_inv w sid; slot = unat (ss_slot req) in
      if MAX_INVENTORY \<le> slot \<or> sl_itemTid (get_slot iv slot) = 0
      then Inr (shop_refusal sid ''Invalid slot'' 0 w)
      else
        let item = FindItem E (sl_itemTid (get_slot iv slot));
            uid = sl_itemUid (get_slot iv slot);
            w1 = (if uid \<noteq> 0 then RemoveItemFromDB E uid w else w);
            w2 = upd_player sid (\<lambda>p. p\<lparr>p_gold := p_gold p + ucast (sell_price item)\<rparr>) w1
        in case strcpy_s 32 (case item of None \<Rightarrow> ''Unknown'' | Some i \<Rightarrow> it_name i) of
             None \<Rightarrow> Inl InvalidParameter
           | Some message \<Rightarrow>
               let w3 = set_inv sid (set_slot slot empty_slot iv) w2;
                   w4 = Send sid (P_InventoryUpdate \<lparr>iu_slot = ss_slot req, iu_itemId = 0,
                          iu_itemName = []\<rparr>) w3
               in Inr (Send sid (P_ShopResult \<lparr>shr_success = 2,
                      shr_itemId = sl_itemTid (get_slot iv slot),
                      shr_remainGold = p_gold (GetPlayer w2 sid), shr_message = message\<rparr>) w4))"

subsection \<open>What buying and selling leave alone\<close>

lemma shop_refusal_frame [simp, frame]:
  "w_sessions (shop_refusal sid m g w) = w_sessions w" "w_inventories (shop_refusal sid m g w) = w_inventories w"
  "w_db (shop_refusal sid m g w) = w_db w" "GetPlayer (shop_refusal sid m g w) = GetPlayer w"
  "get_inv (shop_refusal sid m g w) = get_inv w" "live (shop_refusal sid m g w) = live w"
  by (simp_all add: shop_refusal_def)

lemma OnShopOpen_frame [simp, frame]:
  "w_sessions (OnShopOpen E sid w) = w_sessions w"
  "w_nextSessionId (OnShopOpen E sid w) = w_nextSessionId w"
  "w_npcs (OnShopOpen E sid w) = w_npcs w" "w_nextNpcUid (OnShopOpen E sid w) = w_nextNpcUid w"
  "w_questProgress (OnShopOpen E sid w) = w_questProgress w"
  "w_nextPartyId (OnShopOpen E sid w) = w_nextPartyId w"
  "w_parties (OnShopOpen E sid w) = w_parties w"
  "w_playerParty (OnShopOpen E sid w) = w_playerParty w"
  "w_pendingInvites (OnShopOpen E sid w) = w_pendingInvites w"
  "w_inventories (OnShopOpen E sid w) = w_inventories w" "w_rand (OnShopOpen E sid w) = w_rand w"
  "w_db (OnShopOpen E sid w) = w_db w"
  by (simp_all add: OnShopOpen_def Let_def)

lemma OnShopBuy_frame:
  assumes "OnShopBuy E sid req w = Inr w'"
  shows
  "w_nextSessionId w' = w_nextSessionId w" "w_npcs w' = w_npcs w"
  "w_nextNpcUid w' = w_nextNpcUid w" "w_questProgress w' = w_questProgress w"
  "w_nextPartyId w' = w_nextPartyId w" "w_parties w' = w_parties w"
  "w_playerParty w' = w_playerParty w" "w_pendingInvites w' = w_pendingInvites w"
  "w_rand w' = w_rand w"
  using assms
  by (auto simp: OnShopBuy_def shop_refusal_def AddItemToDB_def Let_def split: option.splits if_splits prod.splits)

lemma OnShopSell_frame:
  assumes "OnShopSell E sid req w = Inr w'"
  shows
  "w_nextSessionId w' = w_nextSessionId w" "w_npcs w' = w_npcs w"
  "w_nextNpcUid w' = w_nextNpcUid w" "w_questProgress w' = w_questProgress w"
  "w_nextPartyId w' = w_nextPartyId w" "w_parties w' = w_parties w"
  "w_playerParty w' = w_playerParty w" "w_pendingInvites w' = w_pendingInvites w"
  "w_rand w' = w_rand w"
  using assms
  by (auto simp: OnShopSell_def shop_refusal_def Let_def split: option.splits if_splits prod.splits)


subsection \<open>Buying\<close>

text \<open>The conditions under which the purchase goes through, up to the copy of the name.\<close>

definition buyable :: "'d env \<Rightarrow> SessionId \<Rightarrow> u16 \<Rightarrow> 'd world \<Rightarrow> ItemData \<Rightarrow> nat \<Rightarrow> bool" where
  "buyable E sid tid w item slot \<longleftrightarrow> FindItem E tid = Some item \<and>
     ucast (it_price item) \<le> p_gold (GetPlayer w sid) \<and> FindEmptySlot (get_inv w sid) = Some slot"

definition paid :: "u64 \<Rightarrow> PlayerData \<Rightarrow> PlayerData" where
  "paid price p = p\<lparr>p_gold := p_gold p - price\<rparr>"

lemma OnShopBuy_bought:
  assumes "buyable E sid (sb_itemId req) w item slot" and "length (cstr (it_name item)) < 32"
  shows "\<exists>w'. OnShopBuy E sid req w = Inr w'
    \<and> (\<forall>i. GetPlayer w' i = (if i = sid \<and> live w sid
         then paid (ucast (it_price item)) (GetPlayer w sid) else GetPlayer w i))
    \<and> (\<forall>i. get_inv w' i = (if i = sid then set_slot slot (item_slot (new_item_uid E
         (p_charUid (GetPlayer w sid)) (sb_itemId req) (w_db w)) (sb_itemId req)) (get_inv w sid)
         else get_inv w i))
    \<and> w_db w' = snd (spInventoryAdd (dbConn E) (p_charUid (GetPlayer w sid)) (sb_itemId req) (w_db w))"
  using assms
  by (auto simp: OnShopBuy_def buyable_def Let_def AddItemToDB_eq strcpy_s_fits GetPlayer_upd_player
      paid_def leD)

lemma OnShopBuy_refused:
  assumes "\<And>item slot. \<not> buyable E sid (sb_itemId req) w item slot"
  shows "\<exists>w'. OnShopBuy E sid req w = Inr w' \<and> GetPlayer w' = GetPlayer w \<and> get_inv w' = get_inv w
    \<and> w_db w' = w_db w"
  using assms by (auto simp: OnShopBuy_def buyable_def Let_def not_less fun_eq_iff split: option.split)

lemma OnShopBuy_Inl_iff:
  "OnShopBuy E sid req w = Inl c \<longleftrightarrow> c = InvalidParameter \<and>
     (\<exists>item slot. buyable E sid (sb_itemId req) w item slot \<and> 32 \<le> length (cstr (it_name item)))"
  by (auto simp: OnShopBuy_def buyable_def Let_def strcpy_s_def not_less AddItemToDB_eq
      split: option.split if_splits)

lemma paid_exact: "ucast (price :: u32) \<le> p_gold p \<Longrightarrow>
    unat (p_gold (paid (ucast price) p)) = unat (p_gold p) - unat price"
  by (simp add: paid_def unat_sub_le unat_ucast_up)

subsection \<open>Selling\<close>

definition sellable :: "SessionId \<Rightarrow> u8 \<Rightarrow> 'd world \<Rightarrow> InvSlot \<Rightarrow> bool" where
  "sellable sid slot w s \<longleftrightarrow> unat slot < MAX_INVENTORY \<and> get_slot (get_inv w sid) (unat slot) = s \<and>
     sl_itemTid s \<noteq> 0"

definition sold_name :: "ItemData option \<Rightarrow> string" where
  "sold_name item = (case item of None \<Rightarrow> ''Unknown'' | Some i \<Rightarrow> it_name i)"

lemma OnShopSell_sold:
  assumes "sellable sid (ss_slot req) w s"
    and "length (cstr (sold_name (FindItem E (sl_itemTid s)))) < 32"
  shows "\<exists>w'. OnShopSell E sid req w = Inr w'
    \<and> (\<forall>i. GetPlayer w' i = (if i = sid \<and> live w sid then (GetPlayer w sid)\<lparr>p_gold :=
         p_gold (GetPlayer w sid) + ucast (sell_price (FindItem E (sl_itemTid s)))\<rparr> else GetPlayer w i))
    \<and> (\<forall>i. get_inv w' i = (if i = sid then set_slot (unat (ss_slot req)) empty_slot (get_inv w sid)
         else get_inv w i))
    \<and> w_db w' = (if sl_itemUid s \<noteq> 0 then spInventoryRemove (dbConn E) (sl_itemUid s) (w_db w) else w_db w)"
  using assms
  by (auto simp: OnShopSell_def sellable_def sold_name_def Let_def strcpy_s_fits GetPlayer_upd_player
      RemoveItemFromDB_def split: option.split)

lemma OnShopSell_refused:
  assumes "\<And>s. \<not> sellable sid (ss_slot req) w s"
  shows "\<exists>w'. OnShopSell E sid req w = Inr w' \<and> GetPlayer w' = GetPlayer w \<and> get_inv w' = get_inv w
    \<and> w_db w' = w_db w"
  using assms by (auto simp: OnShopSell_def sellable_def Let_def not_less fun_eq_iff)

lemma OnShopSell_Inl_iff:
  "OnShopSell E sid req w = Inl c \<longleftrightarrow> c = InvalidParameter \<and> (\<exists>s. sellable sid (ss_slot req) w s \<and>
     32 \<le> length (cstr (sold_name (FindItem E (sl_itemTid s)))))"
  by (auto simp: OnShopSell_def sellable_def sold_name_def Let_def strcpy_s_def not_less
      split: option.split if_splits)

lemma live_OnShopBuy: "OnShopBuy E sid req w = Inr w' \<Longrightarrow> live w' = live w"
  by (auto simp: OnShopBuy_def Let_def AddItemToDB_eq fun_eq_iff split: option.splits if_splits)

lemma live_OnShopSell: "OnShopSell E sid req w = Inr w' \<Longrightarrow> live w' = live w"
  by (auto simp: OnShopSell_def Let_def fun_eq_iff split: option.splits if_splits)

subsection \<open>Inventories stay well formed\<close>

lemma OnShopBuy_inventories_ok:
  assumes "inventories_ok w" and "OnShopBuy E sid req w = Inr w'"
  shows "inventories_ok w'"
proof (cases "\<exists>item slot. buyable E sid (sb_itemId req) w item slot")
  case True
  then obtain item slot where b: "buyable E sid (sb_itemId req) w item slot" by blast
  show ?thesis
  proof (cases "length (cstr (it_name item)) < 32")
    case True
    from OnShopBuy_bought [OF b True] assms show ?thesis by (auto simp: inventories_ok_def)
  next
    case False
    with b have "OnShopBuy E sid req w = Inl InvalidParameter"
      by (subst OnShopBuy_Inl_iff) (auto simp: not_less)
    with assms(2) show ?thesis by simp
  qed
next
  case False
  with OnShopBuy_refused [of E sid req w] assms show ?thesis by (auto simp: inventories_ok_def)
qed

lemma OnShopSell_inventories_ok:
  assumes "inventories_ok w" and "OnShopSell E sid req w = Inr w'"
  shows "inventories_ok w'"
proof (cases "\<exists>s. sellable sid (ss_slot req) w s")
  case True
  then obtain s where b: "sellable sid (ss_slot req) w s" by blast
  show ?thesis
  proof (cases "length (cstr (sold_name (FindItem E (sl_itemTid s)))) < 32")
    case True
    from OnShopSell_sold [OF b True] assms show ?thesis by (auto simp: inventories_ok_def)
  next
    case False
    with b have "OnShopSell E sid req w = Inl InvalidParameter"
      by (subst OnShopSell_Inl_iff) (auto simp: not_less)
    with assms(2) show ?thesis by simp
  qed
next
  case False
  with OnShopSell_refused [of sid req w E] assms show ?thesis by (auto simp: inventories_ok_def)
qed

lemma OnShopBuy_players_ok:
  assumes "players_ok w" and "OnShopBuy E sid req w = Inr w'"
  shows "players_ok w'"
  using assms
  by (auto simp: OnShopBuy_def players_ok_def player_ok_def on_map_def Let_def AddItemToDB_eq
      GetPlayer_upd_player split: option.splits if_splits)

lemma OnShopSell_players_ok:
  assumes "players_ok w" and "OnShopSell E sid req w = Inr w'"
  shows "players_ok w'"
  using assms
  by (auto simp: OnShopSell_def players_ok_def player_ok_def on_map_def Let_def
      GetPlayer_upd_player split: option.splits if_splits)

subsection \<open>Properties\<close>

lemma buy_then_sell:
  assumes "buyable E sid (sb_itemId req) w item slot" and "length (cstr (it_name item)) < 32"
    and "live w sid" and "inventories_ok w" and "sb_itemId req \<noteq> 0"
  obtains w1 w2 where "OnShopBuy E sid req w = Inr w1" "OnShopSell E sid \<lparr>ss_slot = word_of_nat slot\<rparr> w1 = Inr w2"
    "p_gold (GetPlayer w2 sid) =
       p_gold (GetPlayer w sid) - ucast (it_price item) + ucast (it_price item div 5)"
proof -
  have slot: "FindEmptySlot (get_inv w sid) = Some slot" and item: "FindItem E (sb_itemId req) = Some item"
    using assms(1) by (simp_all add: buyable_def)
  obtain w1 uid where w1: "OnShopBuy E sid req w = Inr w1"
      "GetPlayer w1 sid = paid (ucast (it_price item)) (GetPlayer w sid)"
      "get_inv w1 sid = set_slot slot (item_slot uid (sb_itemId req)) (get_inv w sid)"
    using OnShopBuy_bought [OF assms(1,2)] assms(3) by auto
  define s where "s = get_slot (get_inv w1 sid) slot"
  have tid: "sl_itemTid s = sb_itemId req"
    unfolding s_def w1(3) using found_slot_stores [OF _ slot assms(5)] assms(4) by simp
  have small: "slot < 20" using FindEmptySlot_Some [OF slot] by (simp add: MAX_INVENTORY_def)
  then have "unat (word_of_nat slot :: u8) = slot" by (simp add: unat_of_nat)
  then have sell: "sellable sid (ss_slot \<lparr>ss_slot = word_of_nat slot\<rparr>) w1 s"
    using small tid assms(5) by (simp add: sellable_def s_def MAX_INVENTORY_def)
  have short: "length (cstr (sold_name (FindItem E (sl_itemTid s)))) < 32"
    using assms(2) by (simp add: tid item sold_name_def)
  have "live w1 sid" using live_OnShopBuy [OF w1(1)] assms(3) by simp
  with OnShopSell_sold [OF sell short] obtain w2 where
    "OnShopSell E sid \<lparr>ss_slot = word_of_nat slot\<rparr> w1 = Inr w2"
    "p_gold (GetPlayer w2 sid) = p_gold (GetPlayer w1 sid) + ucast (it_price item div 5)"
    by (auto simp: tid item sell_price_def)
  with w1(1,2) that show ?thesis by (simp add: paid_def)
qed

lemma resale_le: "ucast (price :: u32) \<le> (gold :: u64) \<Longrightarrow> gold - ucast price + ucast (price div 5) \<le> gold"
proof -
  assume le: "ucast price \<le> gold"
  have up: "unat (ucast price :: u64) = unat price" "unat (ucast (price div 5) :: u64) = unat price div 5"
    by (simp_all add: unat_ucast_up unat_div)
  have "unat gold - unat price + unat price div 5 \<le> unat gold" using le up by (simp add: word_le_nat_alt)
  moreover have "unat gold < 2 ^ 64" using unsigned_less [of gold, where 'a=nat] by simp
  ultimately show ?thesis
    using le up by (simp add: word_le_nat_alt unat_word_ariths(1) unat_sub_le)
qed

text \<open>C33: A purchase that goes through takes exactly the price from the buyer's gold (no underflow), puts
  the item into the first empty slot and occupies exactly one slot more, and leaves every other
  player and inventory alone.\<close>

theorem buy_effect:
  assumes "buyable E sid (sb_itemId req) w item slot" and "length (cstr (it_name item)) < 32"
    and "live w sid" and "inventories_ok w" and "sb_itemId req \<noteq> 0"
  shows "\<exists>w'. OnShopBuy E sid req w = Inr w' \<and>
    unat (p_gold (GetPlayer w' sid)) + unat (it_price item) = unat (p_gold (GetPlayer w sid)) \<and>
    sl_itemTid (get_slot (get_inv w' sid) slot) = sb_itemId req \<and>
    card (bag.occupied (get_inv w' sid)) = Suc (card (bag.occupied (get_inv w sid))) \<and>
    (\<forall>i. i \<noteq> sid \<longrightarrow> GetPlayer w' i = GetPlayer w i \<and> get_inv w' i = get_inv w i)"
proof -
  have price: "ucast (it_price item) \<le> p_gold (GetPlayer w sid)"
    and slot: "FindEmptySlot (get_inv w sid) = Some slot" using assms(1) by (simp_all add: buyable_def)
  have "inv_wf (get_inv w sid)" using assms(4) by simp
  note stored = found_slot_stores [OF this slot assms(5)]
  have "unat (it_price item) \<le> unat (p_gold (GetPlayer w sid))"
    using price by (simp add: word_le_nat_alt unat_ucast_up)
  then have gold: "unat (p_gold (paid (ucast (it_price item)) (GetPlayer w sid))) + unat (it_price item) =
      unat (p_gold (GetPlayer w sid))"
    by (simp add: paid_exact [OF price])
  from OnShopBuy_bought [OF assms(1,2)] obtain w' where "OnShopBuy E sid req w = Inr w'"
    "\<forall>i. GetPlayer w' i = (if i = sid \<and> live w sid then paid (ucast (it_price item)) (GetPlayer w sid)
       else GetPlayer w i)"
    "\<forall>i. get_inv w' i = (if i = sid then set_slot slot (item_slot (new_item_uid E
       (p_charUid (GetPlayer w sid)) (sb_itemId req) (w_db w)) (sb_itemId req)) (get_inv w sid)
       else get_inv w i)" by blast
  with assms(3) stored gold show ?thesis by (intro exI [of _ w']) simp
qed

theorem buy_effect_witness:
  "\<exists>w'. OnShopBuy sample_env 1 \<lparr>sb_itemId = 2\<rparr> sample_world = Inr w' \<and>
     unat (p_gold (GetPlayer w' 1)) + 200 = 500"
proof -
  have "buyable sample_env 1 2 sample_world (sample_item 2 ''Steel Sword'' ''weapon'' 12 0 0 200) 2"
    by (simp add: buyable_def sample_item_def sample_player_def sample_free_slot)
  from buy_effect [of sample_env 1 "\<lparr>sb_itemId = 2\<rparr>" sample_world, simplified, OF this _ sample_inventories]
  show ?thesis by (auto simp: sample_item_def sample_player_def cstr_def)
qed

text \<open>C34: Buying an item and selling it back pays the buyer a fifth of the price (rounded down) of what
  was taken, so it never leaves a player with more gold than before.\<close>

theorem buy_then_sell_no_profit:
  assumes "buyable E sid (sb_itemId req) w item slot" and "length (cstr (it_name item)) < 32"
    and "live w sid" and "inventories_ok w" and "sb_itemId req \<noteq> 0"
  shows "\<exists>w1 w2. OnShopBuy E sid req w = Inr w1 \<and>
    OnShopSell E sid \<lparr>ss_slot = word_of_nat slot\<rparr> w1 = Inr w2 \<and>
    p_gold (GetPlayer w2 sid) = p_gold (GetPlayer w sid) - ucast (it_price item) + ucast (it_price item div 5) \<and>
    p_gold (GetPlayer w2 sid) \<le> p_gold (GetPlayer w sid)"
proof -
  have "ucast (it_price item) \<le> p_gold (GetPlayer w sid)" using assms(1) by (simp add: buyable_def)
  with buy_then_sell [OF assms] resale_le show ?thesis by metis
qed

theorem buy_then_sell_no_profit_witness:
  "\<exists>w1 w2. OnShopBuy sample_env 1 \<lparr>sb_itemId = 2\<rparr> sample_world = Inr w1 \<and>
     OnShopSell sample_env 1 \<lparr>ss_slot = 2\<rparr> w1 = Inr w2 \<and> p_gold (GetPlayer w2 1) = 340"
proof -
  have "buyable sample_env 1 2 sample_world (sample_item 2 ''Steel Sword'' ''weapon'' 12 0 0 200) 2"
    by (simp add: buyable_def sample_item_def sample_player_def sample_free_slot)
  from buy_then_sell_no_profit [of sample_env 1 "\<lparr>sb_itemId = 2\<rparr>" sample_world, simplified, OF this _ sample_inventories]
  show ?thesis by (auto simp: sample_item_def sample_player_def cstr_def)
qed

text \<open>\<open>OnShopBuy\<close> brings the process down exactly when the purchase goes through and the item's name
  needs more than the 32 bytes of the result message.\<close>

theorem buy_crash_exactly:
  "OnShopBuy E sid req w = Inl c \<longleftrightarrow> c = InvalidParameter \<and>
     (\<exists>item slot. buyable E sid (sb_itemId req) w item slot \<and> 32 \<le> length (cstr (it_name item)))"
  by (rule OnShopBuy_Inl_iff)

end
