(* ===== verification/Connections.thy ===== *)
theory Connections
  imports Account Chat Shop
begin

text \<open>
  What no packet handler of \<open>GameServer/main.cpp\<close> changes: the set of sessions, their
  connections and receive buffers. And whom the per-session maps know: a handler adds entries
  to \<open>g_inventories\<close> and \<open>g_questProgress\<close> for the session it serves and, on a kill, for
  the living members of its party, so that a session's entries can all be dropped when it
  disconnects.
\<close>

subsection \<open>Connections\<close>

definition conn :: "'d world \<Rightarrow> SessionId \<Rightarrow> (bool \<times> u8 list \<times> nat) option" where
  "conn w i = map_option (\<lambda>s. (s_connected s, s_recvBuffer s, s_recvSize s)) (GetSession w i)"

lemma live_conn: "live w i \<longleftrightarrow> conn w i \<noteq> None"
  by (simp add: live_def conn_def)

definition sessions_wf :: "'d world \<Rightarrow> bool" where
  "sessions_wf w \<longleftrightarrow> om_wf (w_sessions w)"

text \<open>The sessions of the second world are those of the first, with other players.\<close>

definition same_sessions :: "'d world \<Rightarrow> 'd world \<Rightarrow> bool" where
  "same_sessions w w' \<longleftrightarrow> conn w' = conn w \<and> (sessions_wf w \<longrightarrow> sessions_wf w')"

lemma same_sessions_eq: "w_sessions w' = w_sessions w \<Longrightarrow> same_sessions w w'"
  by (simp add: same_sessions_def conn_def sessions_wf_def sessions_cong(1) [of w' w] fun_eq_iff)

lemma same_sessions_trans: "same_sessions w v \<Longrightarrow> same_sessions v w' \<Longrightarrow> same_sessions w w'"
  by (auto simp: same_sessions_def)

lemma same_sessions_refl [simp]: "same_sessions w w"
  by (simp add: same_sessions_def)

lemma same_sessions_live: "same_sessions w w' \<Longrightarrow> live w' i \<longleftrightarrow> live w i"
  by (simp add: same_sessions_def live_conn)

lemma same_upd_player: "same_sessions w (upd_player sid f w)"
  by (auto simp: same_sessions_def conn_def sessions_wf_def GetSession_upd_player fun_eq_iff
      option.map_comp comp_def)

lemma same_after: "same_sessions v w \<Longrightarrow> w_sessions w' = w_sessions w \<Longrightarrow> same_sessions v w'"
  by (rule same_sessions_trans [OF _ same_sessions_eq])

lemma same_player: "same_sessions v w \<Longrightarrow> same_sessions v (upd_player sid f w)"
  by (rule same_sessions_trans [OF _ same_upd_player])

lemma same_level_up: "same_sessions v w \<Longrightarrow> same_sessions v (CheckLevelUp sid w)"
  by (rule same_after [OF same_player sessions_CheckLevelUp])

text \<open>The operations of a handler, from the last one back to the first.\<close>

lemmas same_back =
  same_after [where w' = "Send i p w" and w = w for i p w]
  same_after [where w' = "Broadcast p w" and w = w for p w]
  same_after [where w' = "BroadcastExcept i p w" and w = w for i p w]
  same_after [where w' = "SendCharInfo i w" and w = w for i w]
  same_after [where w' = "SendOtherPlayers i w" and w = w for i w]
  same_after [where w' = "SendAllNPCs i w" and w = w for i w]
  same_after [where w' = "exp_update i w" and w = w for i w]
  same_after [where w' = "set_inv i iv w" and w = w for i iv w]
  same_after [where w' = "ensure_inv i w" and w = w for i w]
  same_after [where w' = "ensure_qp i w" and w = w for i w]
  same_after [where w' = "set_progress i q st w" and w = w for i q st w]
  same_after [where w' = "reward_item E i q w" and w = w for E i q w]
  same_after [where w' = "quest_refusal i q m w" and w = w for i q m w]
  same_after [where w' = "shop_refusal i m g w" and w = w for i m g w]
  same_after [where w' = "SaveQuestProgress E c q b n w" and w = w for E c q b n w]
  same_after [where w' = "RemoveItemFromDB E u w" and w = w for E u w]
  same_after [where w' = "EquipItemDB E c s u w" and w = w for E c s u w]
  same_after [where w' = "UpdateQuestProgress E i w" and w = w for E i w]
  same_after [where w' = "LoadQuestProgress E i w" and w = w for E i w]
  same_after [where w' = "SendAttendanceInfo E i w" and w = w for E i w]
  same_after [where w' = "set_npc j f w" and w = w for j f w]
  same_after [where w' = "ensure_party q w" and w = w for q w]
  same_after [where w' = "w\<lparr>w_db := d\<rparr>" and w = w for d w]
  same_after [where w' = "w\<lparr>w_rand := r\<rparr>" and w = w for r w]
  same_player same_level_up

lemma same_OnMove: "same_sessions w (OnMove sid m w)"
  by (auto simp: OnMove_def Let_def intro!: same_back)

lemma same_OnItemUse: "same_sessions w (OnItemUse E sid req w)"
  by (auto simp: OnItemUse_def Let_def intro!: same_back split: option.split)

lemma same_OnItemEquip: "same_sessions w (OnItemEquip E sid req w)"
  by (auto simp: OnItemEquip_def Let_def intro!: same_back split: option.split)

lemma same_OnShopBuy: "OnShopBuy E sid req w = Inr w' \<Longrightarrow> same_sessions w w'"
  by (auto simp: OnShopBuy_def AddItemToDB_eq Let_def intro!: same_back split: option.splits if_splits)

lemma same_OnShopSell: "OnShopSell E sid req w = Inr w' \<Longrightarrow> same_sessions w w'"
  by (auto simp: OnShopSell_def Let_def intro!: same_back split: option.splits if_splits)

lemma same_OnQuestComplete: "same_sessions w (OnQuestComplete E sid req w)"
  by (auto simp: OnQuestComplete_def Let_def intro!: same_back split: option.split)

lemma same_LoadInventory: "same_sessions v w \<Longrightarrow> same_sessions v (LoadInventory E sid w)"
  by (auto simp: LoadInventory_def Let_def intro!: same_back split: option.split prod.split)

lemma same_fetch_name: "same_sessions v w \<Longrightarrow> same_sessions v (fetch_name E sid c w)"
  by (auto simp: fetch_name_def Let_def intro!: same_back split: option.split prod.split list.split)

lemma same_OnCharSelect: "same_sessions w (OnCharSelect E sid req w)"
  by (auto simp: OnCharSelect_def draw_def Let_def intro!: same_back same_LoadInventory same_fetch_name
      split: option.split prod.split list.split)

lemma same_OnLogin:
  assumes "OnLogin E sid login w = Inr w'"
  shows "same_sessions w w'"
proof -
  from assms obtain uid p db where c: "SendCharList E sid
      (Send sid p (upd_player sid (\<lambda>p. p\<lparr>p_accountUid := uid\<rparr>) (w\<lparr>w_db := db\<rparr>))) = Inr w'"
    by (rule OnLogin_cases)
  show ?thesis
    by (rule same_after [OF _ SendCharList_frame(1) [OF c]]) (auto intro!: same_back)
qed

lemma same_share: "same_sessions v w \<Longrightarrow> same_sessions v (share_with E k x g mid w)"
  by (auto simp: share_with_def Let_def intro!: same_back)

lemma same_shares: "same_sessions v w \<Longrightarrow> same_sessions v (fold (share_with E k x g) ms w)"
  by (induction ms arbitrary: w) (simp_all add: same_share)

lemma same_on_kill:
  assumes "on_kill E sid i w = Inr w'"
  shows "same_sessions w w'"
proof -
  from assms obtain w3 w4 where r: "reward_kill E sid (w_npcs w ! i) (after_death sid i w) = Inr w3"
    and d: "item_drop E sid (UpdateQuestProgress E sid w3) = Inr w4" and w': "w' = respawn E w4"
    by (rule on_kill_cases)
  have "same_sessions w w3"
    using r by (auto simp: reward_kill_def Let_def after_death_def intro!: same_back same_shares
        split: option.splits if_splits)
  moreover have "w_sessions w' = w_sessions w3" using item_drop_sessions [OF d] by (simp add: w')
  ultimately show ?thesis by (rule same_after)
qed

lemma same_OnAttack:
  assumes "OnAttack E sid atk w = Inr w'"
  shows "same_sessions w w'"
  using assms
proof (cases rule: OnAttack_cases)
  case (kill i)
  show ?thesis by (rule same_sessions_trans [OF same_sessions_eq same_on_kill [OF kill(3)]]) simp
qed (simp_all add: same_sessions_eq)

subsection \<open>The keys of the per-session maps\<close>

definition inv_keys :: "'d world \<Rightarrow> SessionId set" where
  "inv_keys w = fst ` set (w_inventories w)"

definition quest_keys :: "'d world \<Rightarrow> SessionId set" where
  "quest_keys w = fst ` set (w_questProgress w)"

definition party_keys :: "'d world \<Rightarrow> SessionId set" where
  "party_keys w = fst ` set (w_playerParty w)"

definition invite_keys :: "'d world \<Rightarrow> SessionId set" where
  "invite_keys w = fst ` set (w_pendingInvites w)"

definition keys_live :: "'d world \<Rightarrow> bool" where
  "keys_live w \<longleftrightarrow> (\<forall>i \<in> inv_keys w \<union> quest_keys w \<union> party_keys w \<union> invite_keys w. live w i)"

lemma keys_om_ensure: "fst ` set (om_ensure d k m) = insert k (fst ` set m)"
  by (auto simp: om_ensure_def split: option.split intro: rev_image_eqI dest!: map_of_SomeD)

lemma keys_om_erase: "fst ` set (om_erase k m) = fst ` set m - {k}"
  by (auto simp: om_erase_def)

lemma keys_base [simp]:
  "inv_keys (ensure_inv sid w) = insert sid (inv_keys w)" "inv_keys (set_inv sid iv w) = insert sid (inv_keys w)"
  "quest_keys (ensure_qp sid w) = insert sid (quest_keys w)" "quest_keys (set_qp sid qp w) = insert sid (quest_keys w)"
  "quest_keys (set_progress sid q st w) = insert sid (quest_keys w)"
  by (simp_all add: inv_keys_def quest_keys_def ensure_inv_def set_inv_def ensure_qp_def set_qp_def
      set_progress_def keys_om_ensure)

lemma keys_frame:
  "w_inventories w' = w_inventories w \<Longrightarrow> inv_keys w' = inv_keys w"
  "w_questProgress w' = w_questProgress w \<Longrightarrow> quest_keys w' = quest_keys w"
  "w_playerParty w' = w_playerParty w \<Longrightarrow> party_keys w' = party_keys w"
  "w_pendingInvites w' = w_pendingInvites w \<Longrightarrow> invite_keys w' = invite_keys w"
  by (simp_all add: inv_keys_def quest_keys_def party_keys_def invite_keys_def)

lemma inv_keys_same [simp]:
  "inv_keys (Send i p w) = inv_keys w" "inv_keys (Broadcast p w) = inv_keys w"
  "inv_keys (upd_player i f w) = inv_keys w" "inv_keys (SendCharInfo i w) = inv_keys w"
  "inv_keys (RemoveItemFromDB E u w) = inv_keys w" "inv_keys (EquipItemDB E c s u w) = inv_keys w"
  "inv_keys (exp_update i w) = inv_keys w" "inv_keys (CheckLevelUp i w) = inv_keys w"
  "inv_keys (UpdateQuestProgress E i w) = inv_keys w" "inv_keys (w\<lparr>w_db := d\<rparr>) = inv_keys w"
  "inv_keys (w\<lparr>w_rand := r\<rparr>) = inv_keys w" "inv_keys (ensure_qp i w) = inv_keys w"
  "inv_keys (set_progress i q st w) = inv_keys w" "inv_keys (SaveQuestProgress E c q b n w) = inv_keys w"
  "inv_keys (quest_refusal i q m w) = inv_keys w" "inv_keys (shop_refusal i m g w) = inv_keys w"
  "inv_keys (respawn E w) = inv_keys w" "inv_keys (SendAttendanceInfo E i w) = inv_keys w"
  "inv_keys (SendOtherPlayers i w) = inv_keys w" "inv_keys (SendAllNPCs i w) = inv_keys w"
  "inv_keys (fetch_name E i c w) = inv_keys w" "inv_keys (LoadQuestProgress E i w) = inv_keys w"
  by (rule keys_frame, simp add: shop_refusal_def)+

lemma quest_keys_same [simp]:
  "quest_keys (Send i p w) = quest_keys w" "quest_keys (upd_player i f w) = quest_keys w"
  "quest_keys (SendCharInfo i w) = quest_keys w" "quest_keys (exp_update i w) = quest_keys w"
  "quest_keys (CheckLevelUp i w) = quest_keys w" "quest_keys (w\<lparr>w_db := d\<rparr>) = quest_keys w"
  "quest_keys (SaveQuestProgress E c q b n w) = quest_keys w" "quest_keys (reward_item E i quest w) = quest_keys w"
  "quest_keys (quest_refusal i q m w) = quest_keys w" "quest_keys (accept_result i b q m w) = quest_keys w"
  "quest_keys (respawn E w) = quest_keys w" "quest_keys (after_death i j w) = quest_keys w"
  "quest_keys (struck i j w) = quest_keys w" "quest_keys (ensure_party k w) = quest_keys w"
  "quest_keys (LoadInventory E i w) = quest_keys w" "quest_keys (SendAttendanceInfo E i w) = quest_keys w"
  "quest_keys (SendOtherPlayers i w) = quest_keys w" "quest_keys (SendAllNPCs i w) = quest_keys w"
  "quest_keys (fetch_name E i c w) = quest_keys w"
  by (rule keys_frame, simp)+

lemma inv_keys_grant: "inv_keys (grant_item E sid t w) = insert sid (inv_keys w)"
  by (auto simp: grant_item_def Let_def AddItemToDB_eq split: option.split)

lemma inv_keys_handlers:
  "inv_keys (OnItemUse E sid ru w) = insert sid (inv_keys w)"
  "inv_keys (OnItemEquip E sid re w) = insert sid (inv_keys w)"
  "inv_keys (LoadInventory E sid w) = insert sid (inv_keys w)"
  "inv_keys (reward_item E sid quest w) \<subseteq> insert sid (inv_keys w)"
  "OnShopBuy E sid rb w = Inr w' \<Longrightarrow> inv_keys w' \<subseteq> insert sid (inv_keys w)"
  "OnShopSell E sid rs w = Inr w' \<Longrightarrow> inv_keys w' \<subseteq> insert sid (inv_keys w)"
  by (auto simp: OnItemUse_def OnItemEquip_def LoadInventory_def reward_item_def OnShopBuy_def
      OnShopSell_def Let_def inv_keys_grant AddItemToDB_eq split: option.splits prod.splits if_splits)

lemma inv_keys_OnQuestComplete: "inv_keys (OnQuestComplete E sid req w) \<subseteq> insert sid (inv_keys w)"
proof -
  have "inv_keys (reward_item E sid quest v) \<subseteq> insert sid (inv_keys w)" if "inv_keys v = inv_keys w" for v quest
    using inv_keys_handlers(4) [of E sid quest v] that by simp
  then show ?thesis by (auto simp: OnQuestComplete_def Let_def split: option.split)
qed

lemma inv_keys_OnCharSelect: "inv_keys (OnCharSelect E sid req w) \<subseteq> insert sid (inv_keys w)"
  by (auto simp: OnCharSelect_def draw_def Let_def inv_keys_handlers
      split: prod.split option.split list.split)

lemma quest_keys_fold:
  "quest_keys (fold (\<lambda>(q, st). update_quest E sid q st) m w) \<subseteq> insert sid (quest_keys w)"
proof (induction m arbitrary: w)
  case (Cons a m)
  obtain q st where a: "a = (q, st)" by (cases a)
  have "quest_keys (update_quest E sid q st w) \<subseteq> insert sid (quest_keys w)"
    by (auto simp: update_quest_def Let_def split: option.split)
  with Cons.IH [of "update_quest E sid q st w"] show ?case by (auto simp: a)
qed auto

lemma quest_keys_handlers:
  "quest_keys (OnQuestList E sid w) \<subseteq> insert sid (quest_keys w)"
  "quest_keys (OnQuestAccept E sid ra w) \<subseteq> insert sid (quest_keys w)"
  "quest_keys (OnQuestComplete E sid rc w) \<subseteq> insert sid (quest_keys w)"
  "quest_keys (LoadQuestProgress E sid w) = insert sid (quest_keys w)"
  "quest_keys (UpdateQuestProgress E sid w) \<subseteq> insert sid (quest_keys w)"
  using quest_keys_fold [of E sid "get_qp (ensure_qp sid w) sid" "ensure_qp sid w"]
  by (auto simp: OnQuestList_def OnQuestAccept_def OnQuestComplete_def LoadQuestProgress_def
      UpdateQuestProgress_def Let_def split: option.split prod.split)

lemma quest_keys_OnCharSelect: "quest_keys (OnCharSelect E sid req w) \<subseteq> insert sid (quest_keys w)"
proof -
  have "quest_keys (w\<lparr>w_db := d, w_rand := r\<rparr>) = quest_keys w" for d r by (rule keys_frame) simp
  then show ?thesis
    by (auto simp: OnCharSelect_def draw_def Let_def quest_keys_handlers(4)
        split: prod.split option.split list.split)
qed

text \<open>A kill adds entries for the killer and for living members.\<close>

lemma quest_keys_share:
  "quest_keys (share_with E k x g mid w) \<subseteq> quest_keys w \<union> {i. live w i}"
  using quest_keys_handlers(5) [of E mid "CheckLevelUp mid (exp_update mid (upd_player mid (gain x g) w))"]
  by (auto simp: share_with_def Let_def live_def)

lemma quest_keys_shares:
  "quest_keys (fold (share_with E k x g) ms w) \<subseteq> quest_keys w \<union> {i. live w i}"
proof (induction ms arbitrary: w)
  case (Cons mid ms)
  then show ?case
    using Cons.IH [of "share_with E k x g mid w"] quest_keys_share [of E k x g mid w] by auto
qed auto

lemma quest_keys_on_kill:
  assumes "on_kill E sid i w = Inr w'" and "live w sid"
  shows "quest_keys w' \<subseteq> quest_keys w \<union> {i. live w i}"
proof -
  from assms(1) obtain w3 w4 where r: "reward_kill E sid (w_npcs w ! i) (after_death sid i w) = Inr w3"
    and d: "item_drop E sid (UpdateQuestProgress E sid w3) = Inr w4" and w': "w' = respawn E w4"
    by (rule on_kill_cases)
  have live: "live (ensure_party p v) = live v" for p and v :: "'a world" by (rule sessions_cong) simp
  have shares: "quest_keys (fold (share_with E sid x g) ms (ensure_party p (after_death sid i w)))
      \<subseteq> quest_keys w \<union> {i. live w i}" for x g ms p
    using quest_keys_shares [of E sid x g ms "ensure_party p (after_death sid i w)"] by (simp add: live)
  have "quest_keys w3 \<subseteq> quest_keys w \<union> {i. live w i}"
  proof (cases "party_of w sid")
    case None
    with r show ?thesis by (auto simp: reward_kill_def party_of_def Let_def)
  next
    case (Some p)
    with r obtain x g ms where "w3 = fold (share_with E sid x g) ms (ensure_party p (after_death sid i w))"
      by (auto simp: reward_kill_def party_of_def Let_def split: if_splits)
    then show ?thesis using shares by blast
  qed
  moreover have "quest_keys w4 = quest_keys (UpdateQuestProgress E sid w3)"
    by (rule keys_frame) (rule item_drop_frame(5) [OF d])
  ultimately show ?thesis using quest_keys_handlers(5) [of E sid w3] assms(2) by (auto simp: w')
qed

lemma inv_keys_on_kill:
  assumes "on_kill E sid i w = Inr w'"
  shows "inv_keys w' \<subseteq> insert sid (inv_keys w)"
proof -
  from assms obtain w3 w4 where r: "reward_kill E sid (w_npcs w ! i) (after_death sid i w) = Inr w3"
    and d: "item_drop E sid (UpdateQuestProgress E sid w3) = Inr w4" and w': "w' = respawn E w4"
    by (rule on_kill_cases)
  have "inv_keys w3 = inv_keys w" by (rule keys_frame) (simp add: reward_kill_frame(7) [OF r])
  then show ?thesis
    using d by (auto simp: w' item_drop_def bind_result_Inr Let_def inv_keys_grant split: if_splits)
qed

lemma party_keys_of: "i \<in> party_keys w \<longleftrightarrow> party_of w i \<noteq> None"
  by (simp add: party_keys_def party_of_def map_of_eq_None_iff)

lemma party_keys_leave: "members_ok w \<Longrightarrow> party_keys (RemoveFromParty sid w) \<subseteq> party_keys w - {sid}"
proof (cases "party_of w sid")
  case (Some p)
  assume "members_ok w"
  with Some obtain ms where ms: "party_at w p = Some ms" by (auto dest: members_okD)
  show ?thesis by (auto simp: party_keys_of RemoveFromParty_maps(1) [OF Some ms refl] split: if_splits)
qed (auto simp: RemoveFromParty_none party_keys_of)

lemma party_keys_accept:
  "party_keys (OnPartyAccept sid req w) \<subseteq> insert sid (party_keys w \<union> {i. live w i})"
proof (cases "\<exists>inviterId. accepts w sid req inviterId")
  case True
  then obtain inviterId where a: "accepts w sid req inviterId" by blast
  then have "live w inviterId" by (simp add: accepts_def)
  then show ?thesis by (auto simp: party_keys_of OnPartyAccept_maps(1) [OF a] split: if_splits)
qed (auto simp: party_keys_of OnPartyAccept_ignored)

lemma invite_keys_accept: "invite_keys (OnPartyAccept sid req w) \<subseteq> invite_keys w"
  by (auto simp: OnPartyAccept_def invite_keys_def Let_def keys_om_erase case_prod_beta split: option.splits)

lemma find_target_live:
  assumes "find_target w name = Some i"
  shows "live w i"
proof -
  have "find_target w name = Some i \<Longrightarrow> i \<in> fst ` set (w_sessions w)"
  proof -
    have "fold (\<lambda>(oid, other) t. if P other then Some oid else t) xs t0 = Some i \<Longrightarrow>
        t0 = Some i \<or> i \<in> fst ` set xs" for P t0 and xs :: "(SessionId \<times> Session) list"
      by (induction xs arbitrary: t0) (auto split: if_splits, fastforce)
    then show "find_target w name = Some i \<Longrightarrow> i \<in> fst ` set (w_sessions w)"
      by (fastforce simp: find_target_def)
  qed
  with assms show ?thesis by (simp add: live_def GetSession_def map_of_eq_None_iff)
qed

lemma invite_keys_invite: "invite_keys (snd (try_invite sid req w)) \<subseteq> invite_keys w \<union> {i. live w i}"
proof -
  have "find_target (ensure_party p w) n = find_target w n" for p n by (simp add: find_target_def)
  then show ?thesis
    by (auto simp: try_invite_def invite_keys_def Let_def dest: find_target_live split: option.splits if_splits)
qed

end
