(* ===== verification/Layout.thy ===== *)
theory Layout
  imports Prelude
begin

text \<open>
  Packed byte layouts (\<open>#pragma pack(push, 1)\<close>, little endian): what \<open>memcpy\<close> between
  a struct and a byte buffer does. A layout is a size, the bytes a value is stored as, the
  value the first bytes of a buffer are read as, and the values that a store and a load
  keep (strings shorter than their array, arrays of the declared length). Combinators build
  the layout of a struct from those of its fields; the locale \<open>packed\<close> is their contract.
\<close>

record 'a layout =
  lsize :: nat
  lput :: "'a \<Rightarrow> u8 list"
  lget :: "u8 list \<Rightarrow> 'a"
  lok :: "'a \<Rightarrow> bool"

locale packed =
  fixes L :: "'a layout"
  assumes length_put: "length (lput L x) = lsize L"
    and get_put: "lok L x \<Longrightarrow> lget L (lput L x @ rest) = x"
begin

lemma get_put_exact: "lok L x \<Longrightarrow> lget L (lput L x) = x"
  using get_put [of x "[]"] by simp

lemma put_inject: "lok L x \<Longrightarrow> lok L y \<Longrightarrow> lput L x = lput L y \<Longrightarrow> x = y"
  by (metis get_put_exact)

lemma put_append_inject:
  "lok L x \<Longrightarrow> lok L y \<Longrightarrow> lput L x @ bs = lput L y @ bs' \<Longrightarrow> x = y \<and> bs = bs'"
  by (metis get_put append_eq_append_conv length_put)

lemma drop_put: "drop (lsize L) (lput L x @ rest) = rest"
  by (simp add: length_put)

lemma take_put: "take (lsize L) (lput L x @ rest) = lput L x"
  by (simp add: length_put)

end

subsection \<open>Little-endian numbers\<close>

fun le_put :: "nat \<Rightarrow> nat \<Rightarrow> u8 list" where
  "le_put 0 v = []"
| "le_put (Suc n) v = word_of_nat v # le_put n (v div 256)"

fun le_get :: "u8 list \<Rightarrow> nat" where
  "le_get [] = 0"
| "le_get (b # bs) = unat b + 256 * le_get bs"

lemma length_le_put [simp]: "length (le_put n v) = n"
  by (induction n v rule: le_put.induct) simp_all

lemma le_get_put: "le_get (le_put n v) = v mod 256 ^ n"
proof (induction n v rule: le_put.induct)
  case (2 n v)
  have "v mod (256 * 256 ^ n) = 256 * (v div 256 mod 256 ^ n) + v mod 256"
    by (rule mod_mult2_eq)
  then show ?case using 2 by (simp add: unat_of_nat)
qed simp

lemma le_get_bound: "le_get bs < 256 ^ length bs"
proof (induction bs)
  case (Cons b bs)
  have "unat b < 256" using unsigned_less [of b, where 'a=nat] by simp
  with Cons show ?case by simp
qed simp

definition wordL :: "nat \<Rightarrow> 'a::len word layout" where
  "wordL n = \<lparr>lsize = n, lput = (\<lambda>x. le_put n (unat x)),
     lget = (\<lambda>bs. word_of_nat (le_get (take n bs))), lok = (\<lambda>_. True)\<rparr>"

lemma packed_wordL:
  assumes "LENGTH('a::len) = 8 * n"
  shows "packed (wordL n :: 'a word layout)"
proof
  fix x :: "'a word" and rest
  have "unat x < 2 ^ (8 * n)" using assms unsigned_less [of x, where 'a=nat] by simp
  then have "unat x < 256 ^ n" by (simp add: power_mult)
  then show "lget (wordL n) (lput (wordL n) x @ rest) = x"
    by (simp add: wordL_def le_get_put)
qed (simp add: wordL_def)

abbreviation u8L :: "u8 layout" where "u8L \<equiv> wordL (Suc 0)"
abbreviation u16L :: "u16 layout" where "u16L \<equiv> wordL 2"
abbreviation u32L :: "u32 layout" where "u32L \<equiv> wordL 4"
abbreviation u64L :: "u64 layout" where "u64L \<equiv> wordL 8"

subsection \<open>Character arrays\<close>

definition char_byte :: "char \<Rightarrow> u8" where
  "char_byte c = word_of_nat (of_char c)"

definition byte_char :: "u8 \<Rightarrow> char" where
  "byte_char b = char_of (unat b)"

lemma byte_char_byte [simp]: "byte_char (char_byte c) = c"
proof -
  have "of_char c < (256 :: nat)" by (rule nat_of_char_less_256)
  then show ?thesis by (simp add: byte_char_def char_byte_def unat_of_nat)
qed

text \<open>
  \<open>arrayL n\<close> keeps the whole array, as the receiver of an untrusted packet must;
  \<open>textL n\<close> is a zero-initialised array that holds a C string.
\<close>

definition pad :: "nat \<Rightarrow> string \<Rightarrow> string" where
  "pad n s = take n (s @ replicate n CHR 0x00)"

lemma length_pad [simp]: "length (pad n s) = n"
  by (simp add: pad_def)

definition arrayL :: "nat \<Rightarrow> string layout" where
  "arrayL n = \<lparr>lsize = n, lput = (\<lambda>s. map char_byte (pad n s)),
     lget = (\<lambda>bs. map byte_char (take n bs)), lok = (\<lambda>s. length s = n)\<rparr>"

definition textL :: "nat \<Rightarrow> string layout" where
  "textL n = \<lparr>lsize = n, lput = (\<lambda>s. map char_byte (pad n s)),
     lget = (\<lambda>bs. cstr (map byte_char (take n bs))),
     lok = (\<lambda>s. length s < n \<and> CHR 0x00 \<notin> set s)\<rparr>"

lemma packed_arrayL [simp]: "packed (arrayL n)"
  by unfold_locales (auto simp: arrayL_def pad_def comp_def map_replicate_const)

lemma cstr_pad: "length s < n \<Longrightarrow> CHR 0x00 \<notin> set s \<Longrightarrow> cstr (pad n s) = s"
proof -
  assume len: "length s < n" and nul: "CHR 0x00 \<notin> set s"
  from nul have "\<And>c. c \<in> set s \<Longrightarrow> c \<noteq> CHR 0x00" by auto
  then have "takeWhile (\<lambda>c. c \<noteq> CHR 0x00) (s @ replicate (n - length s) CHR 0x00) = s"
    by (subst takeWhile_append2) auto
  with len show ?thesis by (simp add: cstr_def pad_def)
qed

lemma packed_textL [simp]: "packed (textL n)"
proof
  fix s rest
  assume "lok (textL n) s"
  then show "lget (textL n) (lput (textL n) s @ rest) = s"
    by (simp add: textL_def cstr_pad comp_def)
qed (simp add: textL_def)

subsection \<open>Structs and arrays of structs\<close>

definition pairL :: "'a layout \<Rightarrow> 'b layout \<Rightarrow> ('a \<times> 'b) layout" where
  "pairL A B = \<lparr>lsize = lsize A + lsize B,
     lput = (\<lambda>(a, b). lput A a @ lput B b),
     lget = (\<lambda>bs. (lget A bs, lget B (drop (lsize A) bs))),
     lok = (\<lambda>(a, b). lok A a \<and> lok B b)\<rparr>"

definition viaL :: "('a \<Rightarrow> 'b) \<Rightarrow> ('b \<Rightarrow> 'a) \<Rightarrow> 'a layout \<Rightarrow> 'b layout" where
  "viaL mk un L = \<lparr>lsize = lsize L, lput = (\<lambda>x. lput L (un x)),
     lget = (\<lambda>bs. mk (lget L bs)), lok = (\<lambda>x. lok L (un x))\<rparr>"

fun get_n :: "'a layout \<Rightarrow> nat \<Rightarrow> u8 list \<Rightarrow> 'a list" where
  "get_n L 0 bs = []"
| "get_n L (Suc n) bs = lget L bs # get_n L n (drop (lsize L) bs)"

fun put_n :: "'a layout \<Rightarrow> nat \<Rightarrow> 'a list \<Rightarrow> u8 list" where
  "put_n L 0 xs = []"
| "put_n L (Suc n) [] = replicate (lsize L) 0 @ put_n L n []"
| "put_n L (Suc n) (x # xs) = lput L x @ put_n L n xs"

definition nL :: "nat \<Rightarrow> 'a layout \<Rightarrow> 'a list layout" where
  "nL n L = \<lparr>lsize = n * lsize L, lput = put_n L n, lget = get_n L n,
     lok = (\<lambda>xs. length xs = n \<and> list_all (lok L) xs)\<rparr>"

lemma packed_pairL [simp]:
  assumes "packed A" and "packed B"
  shows "packed (pairL A B)"
proof -
  note A = assms(1) and B = assms(2)
  show ?thesis
    by unfold_locales
      (auto simp: pairL_def packed.length_put [OF A] packed.length_put [OF B]
         packed.get_put [OF A] packed.get_put [OF B])
qed

lemma packed_viaL: "packed L \<Longrightarrow> (\<And>x. mk (un x) = x) \<Longrightarrow> packed (viaL mk un L)"
  by unfold_locales (simp_all add: viaL_def packed.length_put packed.get_put)

lemma length_put_n: "packed L \<Longrightarrow> length (put_n L n xs) = n * lsize L"
  by (induction L n xs rule: put_n.induct) (simp_all add: packed.length_put)

lemma get_put_n:
  "packed L \<Longrightarrow> length xs = n \<Longrightarrow> list_all (lok L) xs \<Longrightarrow> get_n L n (put_n L n xs @ rest) = xs"
  by (induction L n xs rule: put_n.induct) (simp_all add: packed.length_put packed.get_put)

lemma packed_nL [simp]: "packed L \<Longrightarrow> packed (nL n L)"
  by unfold_locales (simp_all add: nL_def length_put_n get_put_n)

lemma lsize_layout [simp]:
  "lsize (wordL n :: 'a::len word layout) = n" "lsize (arrayL n) = n" "lsize (textL n) = n"
  "lsize (pairL A B) = lsize A + lsize B" "lsize (viaL mk un L) = lsize L"
  "lsize (nL n L) = n * lsize L"
  by (simp_all add: wordL_def arrayL_def textL_def pairL_def viaL_def nL_def)

lemma lok_layout [simp]:
  "lok (wordL n :: 'a::len word layout) x \<longleftrightarrow> True"
  "lok (arrayL n) s \<longleftrightarrow> length s = n"
  "lok (textL n) s \<longleftrightarrow> length s < n \<and> CHR 0x00 \<notin> set s"
  "lok (pairL A B) (a, b) \<longleftrightarrow> lok A a \<and> lok B b"
  "lok (viaL mk un L) y \<longleftrightarrow> lok L (un y)"
  "lok (nL n L) xs \<longleftrightarrow> length xs = n \<and> list_all (lok L) xs"
  by (simp_all add: wordL_def arrayL_def textL_def pairL_def viaL_def nL_def)

lemma packed_words [simp]: "packed u8L" "packed u16L" "packed u32L" "packed u64L"
  by (simp_all add: packed_wordL)

interpretation u16_layout: packed "u16L" by simp
interpretation u64_layout: packed "u64L" by simp

end
