(* ===== verification/Wire.thy ===== *)
theory Wire
  imports Protocol Layout
begin

text \<open>
  The bytes of each packet: the layout of every payload struct of \<open>Common/Protocol.h\<close>,
  field by field in declaration order, and the frame that \<open>Session::Send\<close> and
  \<open>TcpClient::Send\<close> put around it (total length and type, 16 bit little endian). The
  lemmas give each struct its \<open>sizeof\<close>, and decoding what was encoded gives it back.
\<close>

subsection \<open>Struct layouts\<close>

definition CS_Login_L :: "CS_Login layout" where
  "CS_Login_L = viaL
     (\<lambda>(accountId, password). \<lparr>lg_accountId = accountId, lg_password = password\<rparr>)
     (\<lambda>r. (lg_accountId r, lg_password r))
     (pairL (arrayL 32) (arrayL 32))"

definition SC_LoginResult_L :: "SC_LoginResult layout" where
  "SC_LoginResult_L = viaL
     (\<lambda>(success, accountUid, message). \<lparr>lr_success = success, lr_accountUid = accountUid, lr_message = message\<rparr>)
     (\<lambda>r. (lr_success r, lr_accountUid r, lr_message r))
     (pairL u8L (pairL u64L (textL 64)))"

definition SC_CharListEntry_L :: "SC_CharListEntry layout" where
  "SC_CharListEntry_L = viaL
     (\<lambda>(charUid, name, charType, level). \<lparr>cle_charUid = charUid, cle_name = name, cle_charType = charType, cle_level = level\<rparr>)
     (\<lambda>r. (cle_charUid r, cle_name r, cle_charType r, cle_level r))
     (pairL u64L (pairL (textL 20) (pairL u8L u16L)))"

definition SC_CharList_L :: "SC_CharList layout" where
  "SC_CharList_L = viaL
     (\<lambda>(count, chars). \<lparr>cl_count = count, cl_chars = chars\<rparr>)
     (\<lambda>r. (cl_count r, cl_chars r))
     (pairL u8L (nL 5 SC_CharListEntry_L))"

definition CS_CharCreate_L :: "CS_CharCreate layout" where
  "CS_CharCreate_L = viaL
     (\<lambda>(name, charType). \<lparr>cc_name = name, cc_charType = charType\<rparr>)
     (\<lambda>r. (cc_name r, cc_charType r))
     (pairL (arrayL 20) u8L)"

definition SC_CharCreateResult_L :: "SC_CharCreateResult layout" where
  "SC_CharCreateResult_L = viaL
     (\<lambda>(success, charUid, message). \<lparr>ccr_success = success, ccr_charUid = charUid, ccr_message = message\<rparr>)
     (\<lambda>r. (ccr_success r, ccr_charUid r, ccr_message r))
     (pairL u8L (pairL u64L (textL 32)))"

definition CS_CharSelect_L :: "CS_CharSelect layout" where
  "CS_CharSelect_L = viaL
     (\<lambda>charUid. \<lparr>cs_charUid = charUid\<rparr>)
     (\<lambda>r. cs_charUid r)
     u64L"

definition SC_CharInfo_L :: "SC_CharInfo layout" where
  "SC_CharInfo_L = viaL
     (\<lambda>(charUid, name, level, exp, posX, posY, hp, maxHp, gold). \<lparr>ci_charUid = charUid, ci_name = name, ci_level = level, ci_exp = exp, ci_posX = posX, ci_posY = posY, ci_hp = hp, ci_maxHp = maxHp, ci_gold = gold\<rparr>)
     (\<lambda>r. (ci_charUid r, ci_name r, ci_level r, ci_exp r, ci_posX r, ci_posY r, ci_hp r, ci_maxHp r, ci_gold r))
     (pairL u64L (pairL (textL 32) (pairL u16L (pairL u32L (pairL u16L (pairL u16L (pairL u16L (pairL u16L u64L))))))))"

definition SC_CharLeave_L :: "SC_CharLeave layout" where
  "SC_CharLeave_L = viaL
     (\<lambda>charUid. \<lparr>clv_charUid = charUid\<rparr>)
     (\<lambda>r. clv_charUid r)
     u64L"

definition CS_Move_L :: "CS_Move layout" where
  "CS_Move_L = viaL
     (\<lambda>(dirX, dirY). \<lparr>mv_dirX = dirX, mv_dirY = dirY\<rparr>)
     (\<lambda>r. (mv_dirX r, mv_dirY r))
     (pairL u8L u8L)"

definition SC_MoveResult_L :: "SC_MoveResult layout" where
  "SC_MoveResult_L = viaL
     (\<lambda>(success, posX, posY). \<lparr>mr_success = success, mr_posX = posX, mr_posY = posY\<rparr>)
     (\<lambda>r. (mr_success r, mr_posX r, mr_posY r))
     (pairL u8L (pairL u16L u16L))"

definition CS_Attack_L :: "CS_Attack layout" where
  "CS_Attack_L = viaL
     (\<lambda>targetUid. \<lparr>at_targetUid = targetUid\<rparr>)
     (\<lambda>r. at_targetUid r)
     u64L"

definition SC_AttackResult_L :: "SC_AttackResult layout" where
  "SC_AttackResult_L = viaL
     (\<lambda>(success, targetUid, damage, targetHp). \<lparr>ar_success = success, ar_targetUid = targetUid, ar_damage = damage, ar_targetHp = targetHp\<rparr>)
     (\<lambda>r. (ar_success r, ar_targetUid r, ar_damage r, ar_targetHp r))
     (pairL u8L (pairL u64L (pairL u16L u16L)))"

definition SC_Error_L :: "SC_Error layout" where
  "SC_Error_L = viaL
     (\<lambda>(errorCode, message). \<lparr>er_errorCode = errorCode, er_message = message\<rparr>)
     (\<lambda>r. (er_errorCode r, er_message r))
     (pairL u16L (textL 64))"

definition SC_NpcSpawn_L :: "SC_NpcSpawn layout" where
  "SC_NpcSpawn_L = viaL
     (\<lambda>(npcUid, posX, posY, hp, maxHp). \<lparr>ns_npcUid = npcUid, ns_posX = posX, ns_posY = posY, ns_hp = hp, ns_maxHp = maxHp\<rparr>)
     (\<lambda>r. (ns_npcUid r, ns_posX r, ns_posY r, ns_hp r, ns_maxHp r))
     (pairL u64L (pairL u16L (pairL u16L (pairL u16L u16L))))"

definition SC_NpcDeath_L :: "SC_NpcDeath layout" where
  "SC_NpcDeath_L = viaL
     (\<lambda>(npcUid, expReward, goldReward). \<lparr>nd_npcUid = npcUid, nd_expReward = expReward, nd_goldReward = goldReward\<rparr>)
     (\<lambda>r. (nd_npcUid r, nd_expReward r, nd_goldReward r))
     (pairL u64L (pairL u32L u32L))"

definition SC_ExpUpdate_L :: "SC_ExpUpdate layout" where
  "SC_ExpUpdate_L = viaL
     (\<lambda>(exp, maxExp). \<lparr>eu_exp = exp, eu_maxExp = maxExp\<rparr>)
     (\<lambda>r. (eu_exp r, eu_maxExp r))
     (pairL u32L u32L)"

definition SC_LevelUp_L :: "SC_LevelUp layout" where
  "SC_LevelUp_L = viaL
     (\<lambda>(level, hp, maxHp, atk, def). \<lparr>lu_level = level, lu_hp = hp, lu_maxHp = maxHp, lu_atk = atk, lu_def = def\<rparr>)
     (\<lambda>r. (lu_level r, lu_hp r, lu_maxHp r, lu_atk r, lu_def r))
     (pairL u16L (pairL u16L (pairL u16L (pairL u16L u16L))))"

definition CS_Chat_L :: "CS_Chat layout" where
  "CS_Chat_L = viaL
     (\<lambda>(channel, targetName, message). \<lparr>cch_channel = channel, cch_targetName = targetName, cch_message = message\<rparr>)
     (\<lambda>r. (cch_channel r, cch_targetName r, cch_message r))
     (pairL u8L (pairL (arrayL 20) (arrayL 128)))"

definition SC_Chat_L :: "SC_Chat layout" where
  "SC_Chat_L = viaL
     (\<lambda>(channel, senderName, message). \<lparr>sch_channel = channel, sch_senderName = senderName, sch_message = message\<rparr>)
     (\<lambda>r. (sch_channel r, sch_senderName r, sch_message r))
     (pairL u8L (pairL (textL 20) (textL 128)))"

definition SC_ItemDrop_L :: "SC_ItemDrop layout" where
  "SC_ItemDrop_L = viaL
     (\<lambda>(slot, itemId, itemName). \<lparr>idr_slot = slot, idr_itemId = itemId, idr_itemName = itemName\<rparr>)
     (\<lambda>r. (idr_slot r, idr_itemId r, idr_itemName r))
     (pairL u8L (pairL u16L (textL 32)))"

definition CS_ItemUse_L :: "CS_ItemUse layout" where
  "CS_ItemUse_L = viaL
     (\<lambda>slot. \<lparr>ciu_slot = slot\<rparr>)
     (\<lambda>r. ciu_slot r)
     u8L"

definition SC_ItemUseResult_L :: "SC_ItemUseResult layout" where
  "SC_ItemUseResult_L = viaL
     (\<lambda>(charUid, charName, itemName, effectType, effectValue). \<lparr>iur_charUid = charUid, iur_charName = charName, iur_itemName = itemName, iur_effectType = effectType, iur_effectValue = effectValue\<rparr>)
     (\<lambda>r. (iur_charUid r, iur_charName r, iur_itemName r, iur_effectType r, iur_effectValue r))
     (pairL u64L (pairL (textL 20) (pairL (textL 32) (pairL u8L u16L))))"

definition CS_ItemEquip_L :: "CS_ItemEquip layout" where
  "CS_ItemEquip_L = viaL
     (\<lambda>slot. \<lparr>cie_slot = slot\<rparr>)
     (\<lambda>r. cie_slot r)
     u8L"

definition SC_EquipResult_L :: "SC_EquipResult layout" where
  "SC_EquipResult_L = viaL
     (\<lambda>(success, slot, atk, def, weaponName, armorName, message). \<lparr>eqr_success = success, eqr_slot = slot, eqr_atk = atk, eqr_def = def, eqr_weaponName = weaponName, eqr_armorName = armorName, eqr_message = message\<rparr>)
     (\<lambda>r. (eqr_success r, eqr_slot r, eqr_atk r, eqr_def r, eqr_weaponName r, eqr_armorName r, eqr_message r))
     (pairL u8L (pairL u8L (pairL u16L (pairL u16L (pairL (textL 32) (pairL (textL 32) (textL 32)))))))"

definition SC_InventoryUpdate_L :: "SC_InventoryUpdate layout" where
  "SC_InventoryUpdate_L = viaL
     (\<lambda>(slot, itemId, itemName). \<lparr>iu_slot = slot, iu_itemId = itemId, iu_itemName = itemName\<rparr>)
     (\<lambda>r. (iu_slot r, iu_itemId r, iu_itemName r))
     (pairL u8L (pairL u16L (textL 32)))"

definition SC_InventoryList_L :: "SC_InventoryList layout" where
  "SC_InventoryList_L = viaL
     (\<lambda>(count, items). \<lparr>il_count = count, il_items = items\<rparr>)
     (\<lambda>r. (il_count r, il_items r))
     (pairL u8L (nL 20 SC_InventoryUpdate_L))"

definition SC_AttendanceInfo_L :: "SC_AttendanceInfo layout" where
  "SC_AttendanceInfo_L = viaL
     (\<lambda>(todayAttended, rewardGold). \<lparr>ai_todayAttended = todayAttended, ai_rewardGold = rewardGold\<rparr>)
     (\<lambda>r. (ai_todayAttended r, ai_rewardGold r))
     (pairL u8L u32L)"

definition SC_AttendanceResult_L :: "SC_AttendanceResult layout" where
  "SC_AttendanceResult_L = viaL
     (\<lambda>(success, rewardGold). \<lparr>atr_success = success, atr_rewardGold = rewardGold\<rparr>)
     (\<lambda>r. (atr_success r, atr_rewardGold r))
     (pairL u8L u32L)"

definition SC_ShopEntry_L :: "SC_ShopEntry layout" where
  "SC_ShopEntry_L = viaL
     (\<lambda>(itemId, itemName, price). \<lparr>she_itemId = itemId, she_itemName = itemName, she_price = price\<rparr>)
     (\<lambda>r. (she_itemId r, she_itemName r, she_price r))
     (pairL u16L (pairL (textL 32) u32L))"

definition SC_ShopList_L :: "SC_ShopList layout" where
  "SC_ShopList_L = viaL
     (\<lambda>(count, items). \<lparr>shl_count = count, shl_items = items\<rparr>)
     (\<lambda>r. (shl_count r, shl_items r))
     (pairL u8L (nL 10 SC_ShopEntry_L))"

definition CS_ShopBuy_L :: "CS_ShopBuy layout" where
  "CS_ShopBuy_L = viaL
     (\<lambda>itemId. \<lparr>sb_itemId = itemId\<rparr>)
     (\<lambda>r. sb_itemId r)
     u16L"

definition SC_ShopResult_L :: "SC_ShopResult layout" where
  "SC_ShopResult_L = viaL
     (\<lambda>(success, itemId, remainGold, message). \<lparr>shr_success = success, shr_itemId = itemId, shr_remainGold = remainGold, shr_message = message\<rparr>)
     (\<lambda>r. (shr_success r, shr_itemId r, shr_remainGold r, shr_message r))
     (pairL u8L (pairL u16L (pairL u64L (textL 32))))"

definition CS_ShopSell_L :: "CS_ShopSell layout" where
  "CS_ShopSell_L = viaL
     (\<lambda>slot. \<lparr>ss_slot = slot\<rparr>)
     (\<lambda>r. ss_slot r)
     u8L"

definition CS_QuestList_L :: "CS_QuestList layout" where
  "CS_QuestList_L = viaL
     (\<lambda>npcUid. \<lparr>cql_npcUid = npcUid\<rparr>)
     (\<lambda>r. cql_npcUid r)
     u64L"

definition SC_QuestEntry_L :: "SC_QuestEntry layout" where
  "SC_QuestEntry_L = viaL
     (\<lambda>(questId, name, status, progress, target). \<lparr>qe_questId = questId, qe_name = name, qe_status = status, qe_progress = progress, qe_target = target\<rparr>)
     (\<lambda>r. (qe_questId r, qe_name r, qe_status r, qe_progress r, qe_target r))
     (pairL u16L (pairL (textL 32) (pairL u8L (pairL u16L u16L))))"

definition SC_QuestList_L :: "SC_QuestList layout" where
  "SC_QuestList_L = viaL
     (\<lambda>(count, quests). \<lparr>ql_count = count, ql_quests = quests\<rparr>)
     (\<lambda>r. (ql_count r, ql_quests r))
     (pairL u8L (nL 10 SC_QuestEntry_L))"

definition CS_QuestAccept_L :: "CS_QuestAccept layout" where
  "CS_QuestAccept_L = viaL
     (\<lambda>questId. \<lparr>qa_questId = questId\<rparr>)
     (\<lambda>r. qa_questId r)
     u16L"

definition SC_QuestAcceptResult_L :: "SC_QuestAcceptResult layout" where
  "SC_QuestAcceptResult_L = viaL
     (\<lambda>(success, questId, message). \<lparr>qar_success = success, qar_questId = questId, qar_message = message\<rparr>)
     (\<lambda>r. (qar_success r, qar_questId r, qar_message r))
     (pairL u8L (pairL u16L (textL 64)))"

definition SC_QuestProgress_L :: "SC_QuestProgress layout" where
  "SC_QuestProgress_L = viaL
     (\<lambda>(questId, progress, target). \<lparr>qpr_questId = questId, qpr_progress = progress, qpr_target = target\<rparr>)
     (\<lambda>r. (qpr_questId r, qpr_progress r, qpr_target r))
     (pairL u16L (pairL u16L u16L))"

definition CS_QuestComplete_L :: "CS_QuestComplete layout" where
  "CS_QuestComplete_L = viaL
     (\<lambda>questId. \<lparr>qc_questId = questId\<rparr>)
     (\<lambda>r. qc_questId r)
     u16L"

definition SC_QuestReward_L :: "SC_QuestReward layout" where
  "SC_QuestReward_L = viaL
     (\<lambda>(success, questId, rewardGold, rewardExp, rewardItemId, message). \<lparr>qr_success = success, qr_questId = questId, qr_rewardGold = rewardGold, qr_rewardExp = rewardExp, qr_rewardItemId = rewardItemId, qr_message = message\<rparr>)
     (\<lambda>r. (qr_success r, qr_questId r, qr_rewardGold r, qr_rewardExp r, qr_rewardItemId r, qr_message r))
     (pairL u8L (pairL u16L (pairL u32L (pairL u32L (pairL u16L (textL 64))))))"

definition CS_PartyInvite_L :: "CS_PartyInvite layout" where
  "CS_PartyInvite_L = viaL
     (\<lambda>targetName. \<lparr>cpi_targetName = targetName\<rparr>)
     (\<lambda>r. cpi_targetName r)
     (arrayL 20)"

definition SC_PartyInvite_L :: "SC_PartyInvite layout" where
  "SC_PartyInvite_L = viaL
     (\<lambda>inviterName. \<lparr>spi_inviterName = inviterName\<rparr>)
     (\<lambda>r. spi_inviterName r)
     (textL 20)"

definition CS_PartyAccept_L :: "CS_PartyAccept layout" where
  "CS_PartyAccept_L = viaL
     (\<lambda>accept. \<lparr>pa_accept = accept\<rparr>)
     (\<lambda>r. pa_accept r)
     u8L"

definition SC_PartyMember_L :: "SC_PartyMember layout" where
  "SC_PartyMember_L = viaL
     (\<lambda>(charUid, name, hp, maxHp, posX, posY). \<lparr>pm_charUid = charUid, pm_name = name, pm_hp = hp, pm_maxHp = maxHp, pm_posX = posX, pm_posY = posY\<rparr>)
     (\<lambda>r. (pm_charUid r, pm_name r, pm_hp r, pm_maxHp r, pm_posX r, pm_posY r))
     (pairL u64L (pairL (textL 20) (pairL u16L (pairL u16L (pairL u16L u16L)))))"

definition SC_PartyUpdate_L :: "SC_PartyUpdate layout" where
  "SC_PartyUpdate_L = viaL
     (\<lambda>(memberCount, members). \<lparr>pu_memberCount = memberCount, pu_members = members\<rparr>)
     (\<lambda>r. (pu_memberCount r, pu_members r))
     (pairL u8L (nL 4 SC_PartyMember_L))"

definition SC_PartyLeave_L :: "SC_PartyLeave layout" where
  "SC_PartyLeave_L = viaL
     (\<lambda>charUid. \<lparr>pl_charUid = charUid\<rparr>)
     (\<lambda>r. pl_charUid r)
     u64L"

lemmas layout_defs =
  CS_Login_L_def
  SC_LoginResult_L_def
  SC_CharListEntry_L_def
  SC_CharList_L_def
  CS_CharCreate_L_def
  SC_CharCreateResult_L_def
  CS_CharSelect_L_def
  SC_CharInfo_L_def
  SC_CharLeave_L_def
  CS_Move_L_def
  SC_MoveResult_L_def
  CS_Attack_L_def
  SC_AttackResult_L_def
  SC_Error_L_def
  SC_NpcSpawn_L_def
  SC_NpcDeath_L_def
  SC_ExpUpdate_L_def
  SC_LevelUp_L_def
  CS_Chat_L_def
  SC_Chat_L_def
  SC_ItemDrop_L_def
  CS_ItemUse_L_def
  SC_ItemUseResult_L_def
  CS_ItemEquip_L_def
  SC_EquipResult_L_def
  SC_InventoryUpdate_L_def
  SC_InventoryList_L_def
  SC_AttendanceInfo_L_def
  SC_AttendanceResult_L_def
  SC_ShopEntry_L_def
  SC_ShopList_L_def
  CS_ShopBuy_L_def
  SC_ShopResult_L_def
  CS_ShopSell_L_def
  CS_QuestList_L_def
  SC_QuestEntry_L_def
  SC_QuestList_L_def
  CS_QuestAccept_L_def
  SC_QuestAcceptResult_L_def
  SC_QuestProgress_L_def
  CS_QuestComplete_L_def
  SC_QuestReward_L_def
  CS_PartyInvite_L_def
  SC_PartyInvite_L_def
  CS_PartyAccept_L_def
  SC_PartyMember_L_def
  SC_PartyUpdate_L_def
  SC_PartyLeave_L_def

lemma packed_structs [simp]:
  "packed CS_Login_L"
  "packed SC_LoginResult_L"
  "packed SC_CharListEntry_L"
  "packed SC_CharList_L"
  "packed CS_CharCreate_L"
  "packed SC_CharCreateResult_L"
  "packed CS_CharSelect_L"
  "packed SC_CharInfo_L"
  "packed SC_CharLeave_L"
  "packed CS_Move_L"
  "packed SC_MoveResult_L"
  "packed CS_Attack_L"
  "packed SC_AttackResult_L"
  "packed SC_Error_L"
  "packed SC_NpcSpawn_L"
  "packed SC_NpcDeath_L"
  "packed SC_ExpUpdate_L"
  "packed SC_LevelUp_L"
  "packed CS_Chat_L"
  "packed SC_Chat_L"
  "packed SC_ItemDrop_L"
  "packed CS_ItemUse_L"
  "packed SC_ItemUseResult_L"
  "packed CS_ItemEquip_L"
  "packed SC_EquipResult_L"
  "packed SC_InventoryUpdate_L"
  "packed SC_InventoryList_L"
  "packed SC_AttendanceInfo_L"
  "packed SC_AttendanceResult_L"
  "packed SC_ShopEntry_L"
  "packed SC_ShopList_L"
  "packed CS_ShopBuy_L"
  "packed SC_ShopResult_L"
  "packed CS_ShopSell_L"
  "packed CS_QuestList_L"
  "packed SC_QuestEntry_L"
  "packed SC_QuestList_L"
  "packed CS_QuestAccept_L"
  "packed SC_QuestAcceptResult_L"
  "packed SC_QuestProgress_L"
  "packed CS_QuestComplete_L"
  "packed SC_QuestReward_L"
  "packed CS_PartyInvite_L"
  "packed SC_PartyInvite_L"
  "packed CS_PartyAccept_L"
  "packed SC_PartyMember_L"
  "packed SC_PartyUpdate_L"
  "packed SC_PartyLeave_L"
  by (simp_all add: layout_defs packed_viaL)

lemma sizeof_structs [simp]:
  "lsize CS_Login_L = 64"
  "lsize SC_LoginResult_L = 73"
  "lsize SC_CharListEntry_L = 31"
  "lsize SC_CharList_L = 156"
  "lsize CS_CharCreate_L = 21"
  "lsize SC_CharCreateResult_L = 41"
  "lsize CS_CharSelect_L = 8"
  "lsize SC_CharInfo_L = 62"
  "lsize SC_CharLeave_L = 8"
  "lsize CS_Move_L = 2"
  "lsize SC_MoveResult_L = 5"
  "lsize CS_Attack_L = 8"
  "lsize SC_AttackResult_L = 13"
  "lsize SC_Error_L = 66"
  "lsize SC_NpcSpawn_L = 16"
  "lsize SC_NpcDeath_L = 16"
  "lsize SC_ExpUpdate_L = 8"
  "lsize SC_LevelUp_L = 10"
  "lsize CS_Chat_L = 149"
  "lsize SC_Chat_L = 149"
  "lsize SC_ItemDrop_L = 35"
  "lsize CS_ItemUse_L = 1"
  "lsize SC_ItemUseResult_L = 63"
  "lsize CS_ItemEquip_L = 1"
  "lsize SC_EquipResult_L = 102"
  "lsize SC_InventoryUpdate_L = 35"
  "lsize SC_InventoryList_L = 701"
  "lsize SC_AttendanceInfo_L = 5"
  "lsize SC_AttendanceResult_L = 5"
  "lsize SC_ShopEntry_L = 38"
  "lsize SC_ShopList_L = 381"
  "lsize CS_ShopBuy_L = 2"
  "lsize SC_ShopResult_L = 43"
  "lsize CS_ShopSell_L = 1"
  "lsize CS_QuestList_L = 8"
  "lsize SC_QuestEntry_L = 39"
  "lsize SC_QuestList_L = 391"
  "lsize CS_QuestAccept_L = 2"
  "lsize SC_QuestAcceptResult_L = 67"
  "lsize SC_QuestProgress_L = 6"
  "lsize CS_QuestComplete_L = 2"
  "lsize SC_QuestReward_L = 77"
  "lsize CS_PartyInvite_L = 20"
  "lsize SC_PartyInvite_L = 20"
  "lsize CS_PartyAccept_L = 1"
  "lsize SC_PartyMember_L = 36"
  "lsize SC_PartyUpdate_L = 145"
  "lsize SC_PartyLeave_L = 8"
  by (simp_all add: layout_defs)

subsection \<open>Payload bytes by packet\<close>

fun sc_payload :: "sc_packet \<Rightarrow> u8 list" where
  "sc_payload (P_LoginResult x) = lput SC_LoginResult_L x"
| "sc_payload (P_CharList x) = lput SC_CharList_L x"
| "sc_payload (P_CharCreateResult x) = lput SC_CharCreateResult_L x"
| "sc_payload (P_CharInfo x) = lput SC_CharInfo_L x"
| "sc_payload (P_CharLeave x) = lput SC_CharLeave_L x"
| "sc_payload (P_AttendanceInfo x) = lput SC_AttendanceInfo_L x"
| "sc_payload (P_AttendanceResult x) = lput SC_AttendanceResult_L x"
| "sc_payload (P_MoveResult x) = lput SC_MoveResult_L x"
| "sc_payload (P_AttackResult x) = lput SC_AttackResult_L x"
| "sc_payload (P_NpcSpawn x) = lput SC_NpcSpawn_L x"
| "sc_payload (P_NpcDeath x) = lput SC_NpcDeath_L x"
| "sc_payload (P_ExpUpdate x) = lput SC_ExpUpdate_L x"
| "sc_payload (P_LevelUp x) = lput SC_LevelUp_L x"
| "sc_payload (P_Chat x) = lput SC_Chat_L x"
| "sc_payload (P_ItemDrop x) = lput SC_ItemDrop_L x"
| "sc_payload (P_ItemUseResult x) = lput SC_ItemUseResult_L x"
| "sc_payload (P_EquipResult x) = lput SC_EquipResult_L x"
| "sc_payload (P_InventoryUpdate x) = lput SC_InventoryUpdate_L x"
| "sc_payload (P_InventoryList x) = lput SC_InventoryList_L x"
| "sc_payload (P_ShopList x) = lput SC_ShopList_L x"
| "sc_payload (P_ShopResult x) = lput SC_ShopResult_L x"
| "sc_payload (P_QuestList x) = lput SC_QuestList_L x"
| "sc_payload (P_QuestAcceptResult x) = lput SC_QuestAcceptResult_L x"
| "sc_payload (P_QuestProgress x) = lput SC_QuestProgress_L x"
| "sc_payload (P_QuestReward x) = lput SC_QuestReward_L x"
| "sc_payload (P_PartyInvite x) = lput SC_PartyInvite_L x"
| "sc_payload (P_PartyUpdate x) = lput SC_PartyUpdate_L x"
| "sc_payload (P_PartyLeave x) = lput SC_PartyLeave_L x"
| "sc_payload (P_Error x) = lput SC_Error_L x"
| "sc_payload P_Heartbeat = []"

fun sc_read :: "PacketType \<Rightarrow> u8 list \<Rightarrow> sc_packet option" where
  "sc_read SC_LOGIN_RESULT bs = Some (P_LoginResult (lget SC_LoginResult_L bs))"
| "sc_read SC_CHAR_LIST bs = Some (P_CharList (lget SC_CharList_L bs))"
| "sc_read SC_CHAR_CREATE_RESULT bs = Some (P_CharCreateResult (lget SC_CharCreateResult_L bs))"
| "sc_read SC_CHAR_INFO bs = Some (P_CharInfo (lget SC_CharInfo_L bs))"
| "sc_read SC_CHAR_LEAVE bs = Some (P_CharLeave (lget SC_CharLeave_L bs))"
| "sc_read SC_ATTENDANCE_INFO bs = Some (P_AttendanceInfo (lget SC_AttendanceInfo_L bs))"
| "sc_read SC_ATTENDANCE_RESULT bs = Some (P_AttendanceResult (lget SC_AttendanceResult_L bs))"
| "sc_read SC_MOVE_RESULT bs = Some (P_MoveResult (lget SC_MoveResult_L bs))"
| "sc_read SC_ATTACK_RESULT bs = Some (P_AttackResult (lget SC_AttackResult_L bs))"
| "sc_read SC_NPC_SPAWN bs = Some (P_NpcSpawn (lget SC_NpcSpawn_L bs))"
| "sc_read SC_NPC_DEATH bs = Some (P_NpcDeath (lget SC_NpcDeath_L bs))"
| "sc_read SC_EXP_UPDATE bs = Some (P_ExpUpdate (lget SC_ExpUpdate_L bs))"
| "sc_read SC_LEVEL_UP bs = Some (P_LevelUp (lget SC_LevelUp_L bs))"
| "sc_read SC_CHAT bs = Some (P_Chat (lget SC_Chat_L bs))"
| "sc_read SC_ITEM_DROP bs = Some (P_ItemDrop (lget SC_ItemDrop_L bs))"
| "sc_read SC_ITEM_USE_RESULT bs = Some (P_ItemUseResult (lget SC_ItemUseResult_L bs))"
| "sc_read SC_EQUIP_RESULT bs = Some (P_EquipResult (lget SC_EquipResult_L bs))"
| "sc_read SC_INVENTORY_UPDATE bs = Some (P_InventoryUpdate (lget SC_InventoryUpdate_L bs))"
| "sc_read SC_INVENTORY_LIST bs = Some (P_InventoryList (lget SC_InventoryList_L bs))"
| "sc_read SC_SHOP_LIST bs = Some (P_ShopList (lget SC_ShopList_L bs))"
| "sc_read SC_SHOP_RESULT bs = Some (P_ShopResult (lget SC_ShopResult_L bs))"
| "sc_read SC_QUEST_LIST bs = Some (P_QuestList (lget SC_QuestList_L bs))"
| "sc_read SC_QUEST_ACCEPT_RESULT bs = Some (P_QuestAcceptResult (lget SC_QuestAcceptResult_L bs))"
| "sc_read SC_QUEST_PROGRESS bs = Some (P_QuestProgress (lget SC_QuestProgress_L bs))"
| "sc_read SC_QUEST_REWARD bs = Some (P_QuestReward (lget SC_QuestReward_L bs))"
| "sc_read SC_PARTY_INVITE bs = Some (P_PartyInvite (lget SC_PartyInvite_L bs))"
| "sc_read SC_PARTY_UPDATE bs = Some (P_PartyUpdate (lget SC_PartyUpdate_L bs))"
| "sc_read SC_PARTY_LEAVE bs = Some (P_PartyLeave (lget SC_PartyLeave_L bs))"
| "sc_read SC_ERROR bs = Some (P_Error (lget SC_Error_L bs))"
| "sc_read SC_HEARTBEAT bs = Some P_Heartbeat"
| "sc_read _ bs = None"

fun sc_ok :: "sc_packet \<Rightarrow> bool" where
  "sc_ok (P_LoginResult x) \<longleftrightarrow> lok SC_LoginResult_L x"
| "sc_ok (P_CharList x) \<longleftrightarrow> lok SC_CharList_L x"
| "sc_ok (P_CharCreateResult x) \<longleftrightarrow> lok SC_CharCreateResult_L x"
| "sc_ok (P_CharInfo x) \<longleftrightarrow> lok SC_CharInfo_L x"
| "sc_ok (P_CharLeave x) \<longleftrightarrow> lok SC_CharLeave_L x"
| "sc_ok (P_AttendanceInfo x) \<longleftrightarrow> lok SC_AttendanceInfo_L x"
| "sc_ok (P_AttendanceResult x) \<longleftrightarrow> lok SC_AttendanceResult_L x"
| "sc_ok (P_MoveResult x) \<longleftrightarrow> lok SC_MoveResult_L x"
| "sc_ok (P_AttackResult x) \<longleftrightarrow> lok SC_AttackResult_L x"
| "sc_ok (P_NpcSpawn x) \<longleftrightarrow> lok SC_NpcSpawn_L x"
| "sc_ok (P_NpcDeath x) \<longleftrightarrow> lok SC_NpcDeath_L x"
| "sc_ok (P_ExpUpdate x) \<longleftrightarrow> lok SC_ExpUpdate_L x"
| "sc_ok (P_LevelUp x) \<longleftrightarrow> lok SC_LevelUp_L x"
| "sc_ok (P_Chat x) \<longleftrightarrow> lok SC_Chat_L x"
| "sc_ok (P_ItemDrop x) \<longleftrightarrow> lok SC_ItemDrop_L x"
| "sc_ok (P_ItemUseResult x) \<longleftrightarrow> lok SC_ItemUseResult_L x"
| "sc_ok (P_EquipResult x) \<longleftrightarrow> lok SC_EquipResult_L x"
| "sc_ok (P_InventoryUpdate x) \<longleftrightarrow> lok SC_InventoryUpdate_L x"
| "sc_ok (P_InventoryList x) \<longleftrightarrow> lok SC_InventoryList_L x"
| "sc_ok (P_ShopList x) \<longleftrightarrow> lok SC_ShopList_L x"
| "sc_ok (P_ShopResult x) \<longleftrightarrow> lok SC_ShopResult_L x"
| "sc_ok (P_QuestList x) \<longleftrightarrow> lok SC_QuestList_L x"
| "sc_ok (P_QuestAcceptResult x) \<longleftrightarrow> lok SC_QuestAcceptResult_L x"
| "sc_ok (P_QuestProgress x) \<longleftrightarrow> lok SC_QuestProgress_L x"
| "sc_ok (P_QuestReward x) \<longleftrightarrow> lok SC_QuestReward_L x"
| "sc_ok (P_PartyInvite x) \<longleftrightarrow> lok SC_PartyInvite_L x"
| "sc_ok (P_PartyUpdate x) \<longleftrightarrow> lok SC_PartyUpdate_L x"
| "sc_ok (P_PartyLeave x) \<longleftrightarrow> lok SC_PartyLeave_L x"
| "sc_ok (P_Error x) \<longleftrightarrow> lok SC_Error_L x"
| "sc_ok P_Heartbeat \<longleftrightarrow> True"

fun cs_payload :: "cs_packet \<Rightarrow> u8 list" where
  "cs_payload (C_Login x) = lput CS_Login_L x"
| "cs_payload C_CharList = []"
| "cs_payload (C_CharCreate x) = lput CS_CharCreate_L x"
| "cs_payload (C_CharSelect x) = lput CS_CharSelect_L x"
| "cs_payload C_AttendanceCheck = []"
| "cs_payload C_Heartbeat = []"
| "cs_payload (C_Move x) = lput CS_Move_L x"
| "cs_payload (C_Attack x) = lput CS_Attack_L x"
| "cs_payload (C_Chat x) = lput CS_Chat_L x"
| "cs_payload (C_ItemUse x) = lput CS_ItemUse_L x"
| "cs_payload (C_ItemEquip x) = lput CS_ItemEquip_L x"
| "cs_payload C_ShopOpen = []"
| "cs_payload (C_ShopBuy x) = lput CS_ShopBuy_L x"
| "cs_payload (C_ShopSell x) = lput CS_ShopSell_L x"
| "cs_payload (C_QuestList x) = lput CS_QuestList_L x"
| "cs_payload (C_QuestAccept x) = lput CS_QuestAccept_L x"
| "cs_payload (C_QuestComplete x) = lput CS_QuestComplete_L x"
| "cs_payload (C_PartyInvite x) = lput CS_PartyInvite_L x"
| "cs_payload (C_PartyAccept x) = lput CS_PartyAccept_L x"
| "cs_payload C_PartyLeave = []"

fun cs_read :: "PacketType \<Rightarrow> u8 list \<Rightarrow> cs_packet option" where
  "cs_read CS_LOGIN bs = Some (C_Login (lget CS_Login_L bs))"
| "cs_read CS_CHAR_LIST bs = Some C_CharList"
| "cs_read CS_CHAR_CREATE bs = Some (C_CharCreate (lget CS_CharCreate_L bs))"
| "cs_read CS_CHAR_SELECT bs = Some (C_CharSelect (lget CS_CharSelect_L bs))"
| "cs_read CS_ATTENDANCE_CHECK bs = Some C_AttendanceCheck"
| "cs_read CS_HEARTBEAT bs = Some C_Heartbeat"
| "cs_read CS_MOVE bs = Some (C_Move (lget CS_Move_L bs))"
| "cs_read CS_ATTACK bs = Some (C_Attack (lget CS_Attack_L bs))"
| "cs_read CS_CHAT bs = Some (C_Chat (lget CS_Chat_L bs))"
| "cs_read CS_ITEM_USE bs = Some (C_ItemUse (lget CS_ItemUse_L bs))"
| "cs_read CS_ITEM_EQUIP bs = Some (C_ItemEquip (lget CS_ItemEquip_L bs))"
| "cs_read CS_SHOP_OPEN bs = Some C_ShopOpen"
| "cs_read CS_SHOP_BUY bs = Some (C_ShopBuy (lget CS_ShopBuy_L bs))"
| "cs_read CS_SHOP_SELL bs = Some (C_ShopSell (lget CS_ShopSell_L bs))"
| "cs_read CS_QUEST_LIST bs = Some (C_QuestList (lget CS_QuestList_L bs))"
| "cs_read CS_QUEST_ACCEPT bs = Some (C_QuestAccept (lget CS_QuestAccept_L bs))"
| "cs_read CS_QUEST_COMPLETE bs = Some (C_QuestComplete (lget CS_QuestComplete_L bs))"
| "cs_read CS_PARTY_INVITE bs = Some (C_PartyInvite (lget CS_PartyInvite_L bs))"
| "cs_read CS_PARTY_ACCEPT bs = Some (C_PartyAccept (lget CS_PartyAccept_L bs))"
| "cs_read CS_PARTY_LEAVE bs = Some C_PartyLeave"
| "cs_read _ bs = None"

fun cs_ok :: "cs_packet \<Rightarrow> bool" where
  "cs_ok (C_Login x) \<longleftrightarrow> lok CS_Login_L x"
| "cs_ok C_CharList \<longleftrightarrow> True"
| "cs_ok (C_CharCreate x) \<longleftrightarrow> lok CS_CharCreate_L x"
| "cs_ok (C_CharSelect x) \<longleftrightarrow> lok CS_CharSelect_L x"
| "cs_ok C_AttendanceCheck \<longleftrightarrow> True"
| "cs_ok C_Heartbeat \<longleftrightarrow> True"
| "cs_ok (C_Move x) \<longleftrightarrow> lok CS_Move_L x"
| "cs_ok (C_Attack x) \<longleftrightarrow> lok CS_Attack_L x"
| "cs_ok (C_Chat x) \<longleftrightarrow> lok CS_Chat_L x"
| "cs_ok (C_ItemUse x) \<longleftrightarrow> lok CS_ItemUse_L x"
| "cs_ok (C_ItemEquip x) \<longleftrightarrow> lok CS_ItemEquip_L x"
| "cs_ok C_ShopOpen \<longleftrightarrow> True"
| "cs_ok (C_ShopBuy x) \<longleftrightarrow> lok CS_ShopBuy_L x"
| "cs_ok (C_ShopSell x) \<longleftrightarrow> lok CS_ShopSell_L x"
| "cs_ok (C_QuestList x) \<longleftrightarrow> lok CS_QuestList_L x"
| "cs_ok (C_QuestAccept x) \<longleftrightarrow> lok CS_QuestAccept_L x"
| "cs_ok (C_QuestComplete x) \<longleftrightarrow> lok CS_QuestComplete_L x"
| "cs_ok (C_PartyInvite x) \<longleftrightarrow> lok CS_PartyInvite_L x"
| "cs_ok (C_PartyAccept x) \<longleftrightarrow> lok CS_PartyAccept_L x"
| "cs_ok C_PartyLeave \<longleftrightarrow> True"

subsection \<open>Frames\<close>

definition PacketHeader_L :: "PacketHeader layout" where
  "PacketHeader_L = viaL
     (\<lambda>(length, type). \<lparr>ph_length = length, ph_type = type\<rparr>)
     (\<lambda>r. (ph_length r, ph_type r))
     (pairL u16L u16L)"

lemma packed_header [simp]: "packed PacketHeader_L" "lsize PacketHeader_L = HEADER_SIZE"
  "lok PacketHeader_L h"
  by (simp_all add: PacketHeader_L_def packed_viaL HEADER_SIZE_def)

text \<open>The buffer \<open>Send\<close> hands to the socket: the header, then the payload.\<close>

definition frame_bytes :: "PacketType \<Rightarrow> u8 list \<Rightarrow> u8 list" where
  "frame_bytes type payload =
     lput PacketHeader_L
       \<lparr>ph_length = word_of_nat (HEADER_SIZE + length payload), ph_type = packet_code type\<rparr>
     @ payload"

definition sc_frame :: "sc_packet \<Rightarrow> u8 list" where
  "sc_frame p = frame_bytes (sc_type p) (sc_payload p)"

definition cs_frame :: "cs_packet \<Rightarrow> u8 list" where
  "cs_frame p = frame_bytes (cs_type p) (cs_payload p)"

interpretation header_layout: packed PacketHeader_L by simp

lemma length_frame_bytes: "length (frame_bytes t bs) = HEADER_SIZE + length bs"
  by (simp add: frame_bytes_def header_layout.length_put)

lemma frame_header:
  "lget PacketHeader_L (frame_bytes t bs @ rest)
     = \<lparr>ph_length = word_of_nat (HEADER_SIZE + length bs), ph_type = packet_code t\<rparr>"
  by (simp add: frame_bytes_def header_layout.get_put)

lemma frame_payload: "drop HEADER_SIZE (frame_bytes t bs @ rest) = bs @ rest"
  by (simp add: frame_bytes_def header_layout.length_put)

lemma sc_read_payload:
  assumes "sc_ok p"
  shows "sc_read (sc_type p) (sc_payload p @ rest) = Some p"
  using assms by (cases p) (simp_all add: packed.get_put)

lemma cs_read_payload:
  assumes "cs_ok p"
  shows "cs_read (cs_type p) (cs_payload p @ rest) = Some p"
  using assms by (cases p) (simp_all add: packed.get_put)

text \<open>No payload comes near the 16-bit length field or the receive buffers.\<close>

lemma length_sc_payload: "length (sc_payload p) \<le> 701"
  by (cases p) (simp_all add: packed.length_put)

lemma length_cs_payload: "length (cs_payload p) \<le> 149"
  by (cases p) (simp_all add: packed.length_put)

subsection \<open>Properties\<close>

text \<open>C38: Every server message survives the wire: from the frame \<open>Send\<close> builds, whatever follows it in the
  buffer, the receiver reads the header with the frame's own length and the type, and decodes the
  payload to the message that was sent.\<close>

theorem server_frame_roundtrip:
  assumes "sc_ok p"
  shows "unat (ph_length (lget PacketHeader_L (sc_frame p @ rest))) = length (sc_frame p) \<and>
    ph_type (lget PacketHeader_L (sc_frame p @ rest)) = packet_code (sc_type p) \<and>
    sc_read (sc_type p) (drop HEADER_SIZE (sc_frame p @ rest)) = Some p"
proof -
  have "HEADER_SIZE + length (sc_payload p) < 65536" using length_sc_payload [of p] by (simp add: HEADER_SIZE_def)
  then have "unat (word_of_nat (HEADER_SIZE + length (sc_payload p)) :: u16) = HEADER_SIZE + length (sc_payload p)"
    by (simp only: unat_of_nat) simp
  then show ?thesis
    by (simp only: sc_frame_def frame_header frame_payload sc_read_payload [OF assms] length_frame_bytes) simp
qed

theorem server_frame_roundtrip_witness:
  "sc_read SC_CHAT (drop HEADER_SIZE (sc_frame (P_Chat \<lparr>sch_channel = 1, sch_senderName = ''Bob'', sch_message = ''hi''\<rparr>)))
     = Some (P_Chat \<lparr>sch_channel = 1, sch_senderName = ''Bob'', sch_message = ''hi''\<rparr>)"
  using server_frame_roundtrip [of "P_Chat \<lparr>sch_channel = 1, sch_senderName = ''Bob'', sch_message = ''hi''\<rparr>" "[]"]
  by (simp add: SC_Chat_L_def)

text \<open>C39: Every client request survives the wire in the same way, with its character arrays kept byte for
  byte, and its frame is never longer than 153 bytes, so it fits the server's receive buffer.\<close>

theorem client_frame_roundtrip:
  assumes "cs_ok p"
  shows "unat (ph_length (lget PacketHeader_L (cs_frame p @ rest))) = length (cs_frame p) \<and>
    ph_type (lget PacketHeader_L (cs_frame p @ rest)) = packet_code (cs_type p) \<and>
    cs_read (cs_type p) (drop HEADER_SIZE (cs_frame p @ rest)) = Some p \<and> length (cs_frame p) \<le> 153"
proof -
  have len: "length (cs_payload p) \<le> 149" by (rule length_cs_payload)
  then have "HEADER_SIZE + length (cs_payload p) < 65536" by (simp add: HEADER_SIZE_def)
  then have "unat (word_of_nat (HEADER_SIZE + length (cs_payload p)) :: u16) = HEADER_SIZE + length (cs_payload p)"
    by (simp only: unat_of_nat) simp
  moreover have "HEADER_SIZE + length (cs_payload p) \<le> 153" using len by (simp add: HEADER_SIZE_def)
  ultimately show ?thesis
    by (simp only: cs_frame_def frame_header frame_payload cs_read_payload [OF assms] length_frame_bytes) simp
qed

theorem client_frame_roundtrip_witness:
  "cs_read CS_MOVE (drop HEADER_SIZE (cs_frame (C_Move \<lparr>mv_dirX = - 1, mv_dirY = 1\<rparr>)))
     = Some (C_Move \<lparr>mv_dirX = - 1, mv_dirY = 1\<rparr>)"
  using client_frame_roundtrip [of "C_Move \<lparr>mv_dirX = - 1, mv_dirY = 1\<rparr>" "[]"]
  by (simp add: CS_Move_L_def)

end
