(* ===== verification/Framing.thy ===== *)
theory Framing
  imports Wire
begin

text \<open>
  What the receive loops of both sides have in common: byte strings that are one whole frame, the
  start of a frame that has not arrived in full, how a stream of frames is cut by the network, and
  handling packets one after the other.
\<close>

subsection \<open>Packets in order\<close>

fun run_packets :: "('p \<Rightarrow> 's \<Rightarrow> 's result) \<Rightarrow> 'p list \<Rightarrow> 's \<Rightarrow> 's result" where
  "run_packets handle [] s = Inr s"
| "run_packets handle (p # ps) s = bind_result (handle p s) (run_packets handle ps)"

lemma run_packets_append:
  "run_packets h (ps @ qs) s = bind_result (run_packets h ps s) (run_packets h qs)"
proof (induction ps arbitrary: s)
  case (Cons p ps)
  then show ?case by (cases "h p s") simp_all
qed simp

subsection \<open>Frames in a byte stream\<close>

text \<open>The start of a packet that has not arrived in full.\<close>

definition incomplete :: "u8 list \<Rightarrow> bool" where
  "incomplete bs \<longleftrightarrow> length bs < HEADER_SIZE \<or>
     length bs < unat (ph_length (lget PacketHeader_L bs))"

lemma lget_header_append:
  "HEADER_SIZE \<le> length bs \<Longrightarrow> lget PacketHeader_L (bs @ rest) = lget PacketHeader_L bs"
  by (simp add: PacketHeader_L_def viaL_def pairL_def wordL_def HEADER_SIZE_def)

text \<open>A whole frame: its length field is its length.\<close>

definition is_frame :: "u8 list \<Rightarrow> bool" where
  "is_frame bs \<longleftrightarrow> HEADER_SIZE \<le> length bs \<and> unat (ph_length (lget PacketHeader_L bs)) = length bs"

lemma incomplete_prefix: "incomplete (a @ b) \<Longrightarrow> incomplete a"
  using lget_header_append [of a b] by (cases "HEADER_SIZE \<le> length a") (auto simp: incomplete_def)

lemma is_frame_header: "is_frame f \<Longrightarrow> lget PacketHeader_L (f @ rest) = lget PacketHeader_L f"
  by (simp add: is_frame_def lget_header_append)

lemma is_frame_complete: "is_frame f \<Longrightarrow> \<not> incomplete (f @ rest)"
  by (auto simp: incomplete_def is_frame_header) (simp_all add: is_frame_def)

lemma is_frame_prefix:
  assumes "is_frame (a @ b)" and "b \<noteq> []"
  shows "incomplete a"
proof (cases "HEADER_SIZE \<le> length a")
  case True
  then show ?thesis using assms lget_header_append [OF True, of b] by (simp add: is_frame_def incomplete_def)
qed (simp add: incomplete_def)

lemma frames_prefix:
  assumes "concat fs @ tail = a @ b" and "incomplete tail" and "list_all is_frame fs"
  shows "\<exists>k t. a = concat (take k fs) @ t \<and> incomplete t \<and> t @ b = concat (drop k fs) @ tail"
  using assms(1,3)
proof (induction fs arbitrary: a)
  case Nil
  with assms(2) have "incomplete a" by (auto intro: incomplete_prefix)
  with Nil show ?case by (intro exI [of _ 0] exI [of _ a]) simp
next
  case (Cons f fs)
  show ?case
  proof (cases "length a < length f")
    case True
    then have "take (length a) f = a"
      using Cons.prems(1) by (auto simp: append_eq_append_conv_if)
    then have "f = a @ drop (length a) f" by (metis append_take_drop_id)
    with True Cons.prems(2) have "incomplete a" by (intro is_frame_prefix [of a "drop (length a) f"]) auto
    with Cons.prems(1) show ?thesis by (intro exI [of _ 0] exI [of _ a]) simp
  next
    case False
    obtain us where "f @ us = a \<and> concat fs @ tail = us @ b \<or>
        f = a @ us \<and> us @ concat fs @ tail = b"
      using Cons.prems(1) by (auto simp: append_eq_append_conv2)
    then obtain a' where a: "a = f @ a'" and rest: "concat fs @ tail = a' @ b"
      using False by auto
    from Cons.IH [OF rest] Cons.prems(2) obtain k t where "a' = concat (take k fs) @ t" "incomplete t"
      "t @ b = concat (drop k fs) @ tail" by auto
    with a show ?thesis by (intro exI [of _ "Suc k"] exI [of _ t]) simp
  qed
qed

lemma is_frame_bytes: "length bs \<le> 701 \<Longrightarrow> is_frame (frame_bytes t bs)"
  using frame_header [of t bs "[]"]
  by (simp add: is_frame_def length_frame_bytes HEADER_SIZE_def unat_of_nat del: of_nat_add of_nat_numeral)

lemma is_frame_sc [simp]: "is_frame (sc_frame p)"
  unfolding sc_frame_def by (rule is_frame_bytes) (rule length_sc_payload)

end
