(* ===== verification/Session_Buffer.thy ===== *)
theory Session_Buffer
  imports Framing
begin

text \<open>
  The receiving half of \<open>GameServer/Session.cpp\<close>: \<open>recvBuffer_\<close> (the whole array, since
  a handler reads its payload struct out of it whatever the packet's length says),
  \<open>recvSize_\<close>, and the loop that cuts packets off its front. The packet callback is an
  argument: it gets the header and everything behind it and either brings the process down
  or returns the new state of the world. The loop may run for ever, so it is a partial
  function: \<open>None\<close> is "never returns".

  The contract between the session and its callback is the locale \<open>packet_sink\<close>; under it
  the loop delivers exactly the packets of the byte stream, in order, however the network
  cuts the stream.
\<close>

subsection \<open>The loop\<close>

definition memmove_front :: "u8 list \<Rightarrow> nat \<Rightarrow> nat \<Rightarrow> u8 list" where
  "memmove_front buf from n = take n (drop from buf) @ drop n buf"

partial_function (option) ProcessBuffer ::
  "(PacketHeader \<Rightarrow> u8 list \<Rightarrow> 's \<Rightarrow> 's result) \<Rightarrow> u8 list \<Rightarrow> nat \<Rightarrow> 's
     \<Rightarrow> (u8 list \<times> nat \<times> 's) result option" where
  "ProcessBuffer callback recvBuffer recvSize s =
     (if recvSize < HEADER_SIZE then Some (Inr (recvBuffer, recvSize, s))
      else let header = lget PacketHeader_L recvBuffer in
        if recvSize < unat (ph_length header) then Some (Inr (recvBuffer, recvSize, s))
        else case callback header (drop HEADER_SIZE recvBuffer) s of
          Inl c \<Rightarrow> Some (Inl c)
        | Inr s' \<Rightarrow>
            (let packetLen = unat (ph_length header); recvSize' = recvSize - packetLen
             in ProcessBuffer callback
                  (if 0 < recvSize' then memmove_front recvBuffer packetLen recvSize' else recvBuffer)
                  recvSize' s'))"

text \<open>
  A completed \<open>async_read_some\<close> has stored its bytes behind the ones already there; it
  never stores more than the room it was given.
\<close>

definition read_fits :: "nat \<Rightarrow> u8 list \<Rightarrow> bool" where
  "read_fits recvSize bytes \<longleftrightarrow> length bytes \<le> MAX_RECV_BUFFER_SIZE - recvSize"

definition OnReadComplete ::
  "(PacketHeader \<Rightarrow> u8 list \<Rightarrow> 's \<Rightarrow> 's result) \<Rightarrow> u8 list \<Rightarrow> u8 list \<times> nat \<times> 's
     \<Rightarrow> (u8 list \<times> nat \<times> 's) result option" where
  "OnReadComplete callback bytes st = (case st of (recvBuffer, recvSize, s) \<Rightarrow>
     ProcessBuffer callback
       (take recvSize recvBuffer @ bytes @ drop (recvSize + length bytes) recvBuffer)
       (recvSize + length bytes) s)"

text \<open>The reads of a session one after the other (\<open>DoRead\<close> starts the next one).\<close>

fun run_reads ::
  "(PacketHeader \<Rightarrow> u8 list \<Rightarrow> 's \<Rightarrow> 's result) \<Rightarrow> u8 list list \<Rightarrow> u8 list \<times> nat \<times> 's
     \<Rightarrow> (u8 list \<times> nat \<times> 's) result option" where
  "run_reads callback [] st = Some (Inr st)"
| "run_reads callback (bytes # chunks) st =
     (case OnReadComplete callback bytes st of
        None \<Rightarrow> None
      | Some (Inl c) \<Rightarrow> Some (Inl c)
      | Some (Inr st') \<Rightarrow> run_reads callback chunks st')"

text \<open>The same, with every read fitting the room left at that moment.\<close>

fun reads_fit ::
  "(PacketHeader \<Rightarrow> u8 list \<Rightarrow> 's \<Rightarrow> 's result) \<Rightarrow> u8 list list \<Rightarrow> u8 list \<times> nat \<times> 's \<Rightarrow> bool" where
  "reads_fit callback [] st \<longleftrightarrow> True"
| "reads_fit callback (bytes # chunks) st \<longleftrightarrow> read_fits (fst (snd st)) bytes \<and>
     (case OnReadComplete callback bytes st of
        Some (Inr st') \<Rightarrow> reads_fit callback chunks st' | _ \<Rightarrow> True)"

subsection \<open>Arithmetic of the buffer\<close>

lemma length_memmove_front:
  "from + n \<le> length buf \<Longrightarrow> length (memmove_front buf from n) = length buf"
  by (simp add: memmove_front_def)

lemma take_memmove_front:
  "from + n \<le> length buf \<Longrightarrow> take n (memmove_front buf from n) = take n (drop from buf)"
  by (simp add: memmove_front_def)

lemma memmove_front_self: "memmove_front buf 0 n = buf"
  by (simp add: memmove_front_def)

lemma ProcessBuffer_short: "n < HEADER_SIZE \<Longrightarrow> ProcessBuffer cb buf n s = Some (Inr (buf, n, s))"
  by (simp add: ProcessBuffer.simps)

lemma ProcessBuffer_wait:
  "n < unat (ph_length (lget PacketHeader_L buf)) \<Longrightarrow> ProcessBuffer cb buf n s = Some (Inr (buf, n, s))"
  by (simp add: ProcessBuffer.simps Let_def)

text \<open>The buffer is never left: its length and the size bound are kept.\<close>

lemma ProcessBuffer_bounds:
  assumes "ProcessBuffer cb buf n s = Some (Inr (buf', n', s'))" and "n \<le> length buf"
  shows "length buf' = length buf \<and> n' \<le> n"
proof -
  have "n \<le> length buf \<longrightarrow> (\<forall>buf' n' s'. r = Inr (buf', n', s') \<longrightarrow> length buf' = length buf \<and> n' \<le> n)"
    if "ProcessBuffer cb buf n s = Some r" for r
  proof (rule ProcessBuffer.raw_induct [where P = "\<lambda>cb buf n s r. n \<le> length buf \<longrightarrow>
      (\<forall>buf' n' s'. r = Inr (buf', n', s') \<longrightarrow> length buf' = length buf \<and> n' \<le> n)", OF _ that])
    fix f cb buf n s r
    assume IH: "\<And>cb buf n s r. f cb buf n s = Some r \<Longrightarrow> n \<le> length buf \<longrightarrow>
        (\<forall>buf' n' s'. r = Inr (buf', n', s') \<longrightarrow> length buf' = length buf \<and> n' \<le> n)"
      and eq: "(if n < HEADER_SIZE then Some (Inr (buf, n, s))
        else let header = lget PacketHeader_L buf in
          if n < unat (ph_length header) then Some (Inr (buf, n, s))
          else case cb header (drop HEADER_SIZE buf) s of Inl c \<Rightarrow> Some (Inl c)
          | Inr s' \<Rightarrow> (let packetLen = unat (ph_length header); recvSize' = n - packetLen
              in f cb (if 0 < recvSize' then memmove_front buf packetLen recvSize' else buf)
                   recvSize' s')) = Some r"
    show "n \<le> length buf \<longrightarrow> (\<forall>buf' n' s'. r = Inr (buf', n', s') \<longrightarrow> length buf' = length buf \<and> n' \<le> n)"
      using eq
      by (auto simp: Let_def length_memmove_front split: if_splits sum.splits dest!: IH)
  qed
  with assms show ?thesis by blast
qed

subsection \<open>When the loop never returns\<close>

text \<open>
  A zero length field reached while four bytes are in the buffer: nothing is removed, and
  the same header is read again.
\<close>

inductive meets_zero :: "u8 list \<Rightarrow> nat \<Rightarrow> bool" where
  here: "HEADER_SIZE \<le> n \<Longrightarrow> ph_length (lget PacketHeader_L buf) = 0 \<Longrightarrow> meets_zero buf n"
| later: "HEADER_SIZE \<le> n \<Longrightarrow> 0 < len \<Longrightarrow> len \<le> n \<Longrightarrow>
    len = unat (ph_length (lget PacketHeader_L buf)) \<Longrightarrow>
    meets_zero (memmove_front buf len (n - len)) (n - len) \<Longrightarrow> meets_zero buf n"

lemma ProcessBuffer_zero_diverges:
  assumes total: "\<And>s. \<exists>s'. cb (lget PacketHeader_L buf) (drop HEADER_SIZE buf) s = Inr s'"
    and n: "HEADER_SIZE \<le> n" and len: "ph_length (lget PacketHeader_L buf) = 0"
  shows "ProcessBuffer cb buf n s = None"
proof (rule ccontr)
  assume "ProcessBuffer cb buf n s \<noteq> None"
  then obtain r where ret: "ProcessBuffer cb buf n s = Some r" by blast
  have "\<not> ((\<forall>s. \<exists>s'. cb (lget PacketHeader_L buf) (drop HEADER_SIZE buf) s = Inr s') \<and> HEADER_SIZE \<le> n
      \<and> ph_length (lget PacketHeader_L buf) = 0)"
  proof (rule ProcessBuffer.raw_induct [where P = "\<lambda>cb buf n s r.
      \<not> ((\<forall>s. \<exists>s'. cb (lget PacketHeader_L buf) (drop HEADER_SIZE buf) s = Inr s') \<and> HEADER_SIZE \<le> n
        \<and> ph_length (lget PacketHeader_L buf) = 0)", OF _ ret])
    fix f and cb :: "PacketHeader \<Rightarrow> u8 list \<Rightarrow> 'a \<Rightarrow> 'a result" and buf n s r
    assume IH: "\<And>cb buf n s r. f cb buf n s = Some r \<Longrightarrow>
        \<not> ((\<forall>s. \<exists>s'. cb (lget PacketHeader_L buf) (drop HEADER_SIZE buf) s = Inr s') \<and> HEADER_SIZE \<le> n
          \<and> ph_length (lget PacketHeader_L buf) = 0)"
      and eq: "(if n < HEADER_SIZE then Some (Inr (buf, n, s))
        else let header = lget PacketHeader_L buf in
          if n < unat (ph_length header) then Some (Inr (buf, n, s))
          else case cb header (drop HEADER_SIZE buf) s of Inl c \<Rightarrow> Some (Inl c)
          | Inr s' \<Rightarrow> (let packetLen = unat (ph_length header); recvSize' = n - packetLen
              in f cb (if 0 < recvSize' then memmove_front buf packetLen recvSize' else buf)
                   recvSize' s')) = Some r"
    show "\<not> ((\<forall>s. \<exists>s'. cb (lget PacketHeader_L buf) (drop HEADER_SIZE buf) s = Inr s') \<and> HEADER_SIZE \<le> n
        \<and> ph_length (lget PacketHeader_L buf) = 0)"
    proof
      assume stuck: "(\<forall>s. \<exists>s'. cb (lget PacketHeader_L buf) (drop HEADER_SIZE buf) s = Inr s') \<and> HEADER_SIZE \<le> n
        \<and> ph_length (lget PacketHeader_L buf) = 0"
      then obtain s' where "cb (lget PacketHeader_L buf) (drop HEADER_SIZE buf) s = Inr s'" by blast
      with eq stuck have "f cb buf n s' = Some r"
        by (simp add: Let_def memmove_front_self HEADER_SIZE_def)
      from IH [OF this] stuck show False by blast
    qed
  qed
  with total n len show False by blast
qed

lemma ProcessBuffer_step:
  assumes "HEADER_SIZE \<le> n" and "len = unat (ph_length (lget PacketHeader_L buf))"
    and "0 < len" and "len \<le> n"
    and "cb (lget PacketHeader_L buf) (drop HEADER_SIZE buf) s = Inr s'"
  shows "ProcessBuffer cb buf n s =
    ProcessBuffer cb (if 0 < n - len then memmove_front buf len (n - len) else buf) (n - len) s'"
  using assms by (subst ProcessBuffer.simps) (simp add: Let_def)

lemma ProcessBuffer_crash:
  assumes "HEADER_SIZE \<le> n" and "unat (ph_length (lget PacketHeader_L buf)) \<le> n"
    and "cb (lget PacketHeader_L buf) (drop HEADER_SIZE buf) s = Inl c"
  shows "ProcessBuffer cb buf n s = Some (Inl c)"
  using assms by (subst ProcessBuffer.simps) (simp add: Let_def)

text \<open>With callbacks that return, this is the only way not to return.\<close>

lemma ProcessBuffer_None_iff:
  assumes total: "\<And>h w s. \<exists>s'. cb h w s = Inr s'"
  shows "ProcessBuffer cb buf n s = None \<longleftrightarrow> meets_zero buf n"
proof
  assume "meets_zero buf n"
  then show "ProcessBuffer cb buf n s = None"
  proof (induction arbitrary: s rule: meets_zero.induct)
    case (here n buf)
    then show ?case using ProcessBuffer_zero_diverges [of cb, OF total] by blast
  next
    case (later n len buf)
    obtain s' where cb: "cb (lget PacketHeader_L buf) (drop HEADER_SIZE buf) s = Inr s'"
      using total by blast
    have "HEADER_SIZE \<le> n - len"
      using later.hyps(5) by (auto elim: meets_zero.cases)
    then have "0 < n - len" by (simp add: HEADER_SIZE_def)
    with later.IH [of s'] show ?case
      by (simp add: ProcessBuffer_step [where cb = cb and s = s and s' = s',
            OF later.hyps(1,4,2,3) cb])
  qed
next
  assume none: "ProcessBuffer cb buf n s = None"
  then show "meets_zero buf n"
  proof (induction n arbitrary: buf s rule: less_induct)
    case (less n)
    let ?len = "unat (ph_length (lget PacketHeader_L buf))"
    from less.prems have n: "HEADER_SIZE \<le> n" and len: "?len \<le> n"
      using ProcessBuffer_short [of n cb buf s] ProcessBuffer_wait [of n buf cb s] by force+
    show ?case
    proof (cases "?len = 0")
      case True
      with n show ?thesis by (auto intro: meets_zero.here simp: unat_eq_zero)
    next
      case False
      obtain s' where cb: "cb (lget PacketHeader_L buf) (drop HEADER_SIZE buf) s = Inr s'"
        using total by blast
      have step: "ProcessBuffer cb (if 0 < n - ?len then memmove_front buf ?len (n - ?len) else buf)
          (n - ?len) s' = None"
        using ProcessBuffer_step [where len = ?len and cb = cb and s = s and s' = s', OF n refl _ len cb]
          False less.prems by simp
      have more: "0 < n - ?len"
      proof (rule ccontr)
        assume "\<not> 0 < n - ?len"
        with step show False using ProcessBuffer_short [of 0 cb buf s'] by (simp add: HEADER_SIZE_def)
      qed
      have "meets_zero (memmove_front buf ?len (n - ?len)) (n - ?len)"
        using less.IH [of "n - ?len"] step more False n by (auto simp: HEADER_SIZE_def)
      with n len False show ?thesis by (blast intro: meets_zero.later)
    qed
  qed
qed

subsection \<open>The contract with the packet callback\<close>

text \<open>
  A callback that reads the struct its packet type announces, and nothing else, handles a
  packet the same whatever follows it in the buffer: \<open>handle\<close> is what it does with the
  decoded packet.
\<close>

definition cs_header :: "cs_packet \<Rightarrow> PacketHeader" where
  "cs_header p = \<lparr>ph_length = word_of_nat (HEADER_SIZE + length (cs_payload p)),
     ph_type = packet_code (cs_type p)\<rparr>"

definition stream :: "cs_packet list \<Rightarrow> u8 list" where
  "stream ps = concat (map cs_frame ps)"

lemma cs_frame_header: "lget PacketHeader_L (cs_frame p @ rest) = cs_header p"
  by (simp add: cs_frame_def frame_header cs_header_def)

lemma length_cs_frame: "length (cs_frame p) = HEADER_SIZE + length (cs_payload p)"
  by (simp add: cs_frame_def length_frame_bytes)

lemma cs_header_length: "unat (ph_length (cs_header p)) = length (cs_frame p)"
proof -
  have "unat (word_of_nat (length (cs_frame p)) :: u16) = length (cs_frame p)"
    using length_cs_payload [of p]
    by (simp add: length_cs_frame HEADER_SIZE_def unat_of_nat del: of_nat_add of_nat_numeral)
  then show ?thesis by (simp add: cs_header_def length_cs_frame)
qed

lemma drop_cs_frame: "drop HEADER_SIZE (cs_frame p @ rest) = cs_payload p @ rest"
  unfolding cs_frame_def by (rule frame_payload)

lemma stream_simps [simp]:
  "stream [] = []" "stream (p # ps) = cs_frame p @ stream ps"
  "stream (ps @ qs) = stream ps @ stream qs"
  by (simp_all add: stream_def)

locale packet_sink =
  fixes callback :: "PacketHeader \<Rightarrow> u8 list \<Rightarrow> 's \<Rightarrow> 's result"
    and handle :: "cs_packet \<Rightarrow> 's \<Rightarrow> 's result"
  assumes callback_reads:
    "cs_ok p \<Longrightarrow> callback (cs_header p) (cs_payload p @ rest) s = handle p s"
begin

text \<open>
  The loop over a buffer that starts with whole packets and ends in an incomplete one: the
  packets are handled in order, what is left is the incomplete one, at the buffer's front.
\<close>

lemma delivers:
  assumes "list_all cs_ok ps" and "incomplete tail"
    and "take n buf = stream ps @ tail" and "n \<le> length buf"
  shows "(\<forall>c. run_packets handle ps s = Inl c \<longrightarrow> ProcessBuffer callback buf n s = Some (Inl c)) \<and>
    (\<forall>s'. run_packets handle ps s = Inr s' \<longrightarrow>
      (\<exists>buf'. ProcessBuffer callback buf n s = Some (Inr (buf', length tail, s')) \<and>
         take (length tail) buf' = tail \<and> length buf' = length buf))"
  using assms
proof (induction ps arbitrary: buf n s)
  case Nil
  then have data: "take n buf = tail" and n: "n = length tail" by auto
  have "ProcessBuffer callback buf n s = Some (Inr (buf, n, s))"
  proof (cases "n < HEADER_SIZE")
    case False
    have "buf = tail @ drop n buf" using data by (metis append_take_drop_id)
    then have "lget PacketHeader_L buf = lget PacketHeader_L tail"
      using lget_header_append [of tail "drop n buf"] False n by simp
    with Nil.prems(2) False n show ?thesis by (simp add: incomplete_def ProcessBuffer_wait)
  qed (rule ProcessBuffer_short)
  with data n show ?case by auto
next
  case (Cons p ps)
  let ?len = "length (cs_frame p)" and ?rest = "stream ps @ tail @ drop n buf"
  have ok: "cs_ok p" "list_all cs_ok ps" using Cons.prems(1) by auto
  have buf: "buf = cs_frame p @ ?rest"
    using Cons.prems(3) by (metis append.assoc append_take_drop_id stream_simps(2))
  have n: "n = ?len + length (stream ps @ tail)"
    using Cons.prems(3,4) by (metis append.assoc length_append length_take min.absorb2 stream_simps(2))
  have hdr: "lget PacketHeader_L buf = cs_header p" by (subst buf) (rule cs_frame_header)
  have size: "HEADER_SIZE \<le> n" "0 < ?len" "?len \<le> n"
    using n by (simp_all add: length_cs_frame HEADER_SIZE_def)
  have len: "?len = unat (ph_length (lget PacketHeader_L buf))"
    by (simp add: hdr cs_header_length)
  have call: "callback (lget PacketHeader_L buf) (drop HEADER_SIZE buf) s = handle p s" for s
  proof -
    have "drop HEADER_SIZE buf = cs_payload p @ ?rest"
      by (subst buf) (rule drop_cs_frame)
    then show ?thesis by (simp only: hdr callback_reads [OF ok(1)])
  qed
  show ?case
  proof (cases "handle p s")
    case (Inl c)
    with call have "ProcessBuffer callback buf n s = Some (Inl c)"
      using ProcessBuffer_crash [OF size(1), of buf callback s c] len size(3) by simp
    with Inl show ?thesis by simp
  next
    case (Inr s')
    let ?n' = "n - ?len"
    let ?buf' = "if 0 < ?n' then memmove_front buf ?len ?n' else buf"
    have step: "ProcessBuffer callback buf n s = ProcessBuffer callback ?buf' ?n' s'"
      using ProcessBuffer_step [where cb = callback and s = s and s' = s', OF size(1) len size(2,3)]
        call Inr by simp
    have fit: "?len + ?n' \<le> length buf" using Cons.prems(4) size(3) by simp
    have "drop ?len buf = ?rest" by (subst buf) simp
    then have data: "take ?n' ?buf' = stream ps @ tail"
      using n fit by (simp add: take_memmove_front)
    have lbuf: "length ?buf' = length buf" using fit by (simp add: length_memmove_front)
    then have le: "?n' \<le> length ?buf'" using fit by simp
    show ?thesis
      using Cons.IH [OF ok(2) Cons.prems(2) data le, of s'] step lbuf Inr by auto
  qed
qed

text \<open>The reads of a connection, however the stream is cut into chunks.\<close>

lemma read_delivers:
  assumes "list_all cs_ok ps" and "incomplete tail"
    and data: "take n buf @ bytes = stream ps @ tail" and n: "n \<le> length buf"
    and room: "n + length bytes \<le> length buf"
  shows "(\<forall>c. run_packets handle ps s = Inl c \<longrightarrow>
      OnReadComplete callback bytes (buf, n, s) = Some (Inl c)) \<and>
    (\<forall>s'. run_packets handle ps s = Inr s' \<longrightarrow>
      (\<exists>buf'. OnReadComplete callback bytes (buf, n, s) = Some (Inr (buf', length tail, s')) \<and>
         take (length tail) buf' = tail \<and> length buf' = length buf))"
proof -
  let ?buf = "take n buf @ bytes @ drop (n + length bytes) buf"
  have "take (n + length bytes) ?buf = stream ps @ tail" using data n by simp
  moreover have "length ?buf = length buf" using n room by simp
  ultimately show ?thesis
    using delivers [OF assms(1,2), of "n + length bytes" ?buf s] room
    by (simp add: OnReadComplete_def)
qed

end

lemma is_frame_cs [simp]: "is_frame (cs_frame p)"
  using cs_frame_header [of p "[]"] cs_header_length [of p] by (simp add: is_frame_def length_cs_frame)

lemma stream_prefix:
  assumes "stream ps @ tail = a @ b" and "incomplete tail"
  shows "\<exists>k t. a = stream (take k ps) @ t \<and> incomplete t \<and> t @ b = stream (drop k ps) @ tail"
  using frames_prefix [of "map cs_frame ps" tail a b] assms by (simp add: stream_def take_map drop_map list_all_iff)

context packet_sink begin

lemma stream_delivery:
  assumes "list_all cs_ok ps" and "incomplete tail" and "incomplete (take n buf)"
    and "take n buf @ concat chunks = stream ps @ tail" and "n \<le> length buf"
    and "length buf = MAX_RECV_BUFFER_SIZE" and "reads_fit callback chunks (buf, n, s)"
  shows "(\<forall>c. run_packets handle ps s = Inl c \<longrightarrow> run_reads callback chunks (buf, n, s) = Some (Inl c)) \<and>
    (\<forall>s'. run_packets handle ps s = Inr s' \<longrightarrow>
      (\<exists>buf'. run_reads callback chunks (buf, n, s) = Some (Inr (buf', length tail, s')) \<and>
         take (length tail) buf' = tail))"
  using assms
proof (induction chunks arbitrary: ps n buf s)
  case Nil
  have ps: "ps = []"
  proof (cases ps)
    case (Cons p qs)
    then have "take n buf = cs_frame p @ stream qs @ tail" using Nil.prems(4) by simp
    moreover have "\<not> incomplete (cs_frame p @ stream qs @ tail)"
      by (simp add: incomplete_def cs_frame_header cs_header_length) (simp add: length_cs_frame)
    ultimately show ?thesis using Nil.prems(3) by simp
  qed
  then have "take n buf = tail" using Nil.prems(4) by simp
  moreover have "n = length tail" using calculation Nil.prems(5) by auto
  ultimately show ?case using ps by auto
next
  case (Cons c chunks)
  have fit: "n + length c \<le> length buf"
    and more_fit: "OnReadComplete callback c (buf, n, s) = Some (Inr st) \<Longrightarrow>
      reads_fit callback chunks st" for st
    using Cons.prems(5,6,7) by (auto simp: read_fits_def)
  have "stream ps @ tail = (take n buf @ c) @ concat chunks" using Cons.prems(4) by simp
  from stream_prefix [OF this Cons.prems(2)] obtain k t where
    data: "take n buf @ c = stream (take k ps) @ t" and t: "incomplete t"
    and rest: "t @ concat chunks = stream (drop k ps) @ tail" by blast
  have ok: "list_all cs_ok (take k ps)" "list_all cs_ok (drop k ps)"
    using Cons.prems(1) by (auto simp: list_all_iff dest: in_set_takeD in_set_dropD)
  note read = read_delivers [OF ok(1) t data Cons.prems(5) fit, of s]
  have split: "run_packets handle ps s =
      bind_result (run_packets handle (take k ps) s) (run_packets handle (drop k ps))"
    by (metis append_take_drop_id run_packets_append)
  show ?case
  proof (cases "run_packets handle (take k ps) s")
    case (Inl c')
    with read split show ?thesis by auto
  next
    case (Inr s1)
    then obtain buf1 where
      one: "OnReadComplete callback c (buf, n, s) = Some (Inr (buf1, length t, s1))"
      and b1: "take (length t) buf1 = t" "length buf1 = length buf" using read by blast
    have "length t \<le> length buf1" using b1 by (metis length_take min.cobounded1)
    then show ?thesis
      using Cons.IH [OF ok(2) Cons.prems(2), of "length t" buf1 s1] b1 t rest
        more_fit [OF one] Cons.prems(6) one split Inr by simp
  qed
qed

end

subsection \<open>A length the buffer cannot hold\<close>

text \<open>
  A header that announces more than the whole buffer is waited for with a full buffer: every
  later read has room for nothing, and nothing is ever handled again.
\<close>

lemma oversize_wedges:
  assumes "length buf = MAX_RECV_BUFFER_SIZE"
    and "MAX_RECV_BUFFER_SIZE < unat (ph_length (lget PacketHeader_L buf))"
    and "reads_fit cb chunks (buf, MAX_RECV_BUFFER_SIZE, s)"
  shows "run_reads cb chunks (buf, MAX_RECV_BUFFER_SIZE, s)
    = Some (Inr (buf, MAX_RECV_BUFFER_SIZE, s))"
  using assms(3)
proof (induction chunks)
  case (Cons c chunks)
  then have "c = []" by (simp add: read_fits_def)
  then have "OnReadComplete cb c (buf, MAX_RECV_BUFFER_SIZE, s) = Some (Inr (buf, MAX_RECV_BUFFER_SIZE, s))"
    using assms(1,2) by (simp add: OnReadComplete_def ProcessBuffer_wait)
  with Cons show ?case by simp
qed simp

subsection \<open>What a read does to the world\<close>

text \<open>The callback on headers and payloads one after the other.\<close>

fun run_calls :: "(PacketHeader \<Rightarrow> u8 list \<Rightarrow> 's \<Rightarrow> 's result) \<Rightarrow> (PacketHeader \<times> u8 list) list \<Rightarrow> 's
    \<Rightarrow> 's result" where
  "run_calls callback [] s = Inr s"
| "run_calls callback ((header, payload) # calls) s =
     bind_result (callback header payload s) (run_calls callback calls)"

text \<open>
  Whatever the bytes are, a loop that returns has called the callback some number of times, each
  time with the whole rest of the buffer behind the header, and its result is theirs.
\<close>

lemma ProcessBuffer_calls:
  assumes "ProcessBuffer cb buf n s = Some r" and "n \<le> length buf"
  shows "\<exists>calls. run_calls cb calls s = map_sum id (snd \<circ> snd) r \<and>
    (\<forall>(h, bs) \<in> set calls. length bs = length buf - HEADER_SIZE)"
proof -
  have "n \<le> length buf \<longrightarrow> (\<exists>calls. run_calls cb calls s = map_sum id (snd \<circ> snd) r \<and>
    (\<forall>(h, bs) \<in> set calls. length bs = length buf - HEADER_SIZE))"
  proof (rule ProcessBuffer.raw_induct [where P = "\<lambda>cb buf n s r. n \<le> length buf \<longrightarrow>
      (\<exists>calls. run_calls cb calls s = map_sum id (snd \<circ> snd) r \<and>
      (\<forall>(h, bs) \<in> set calls. length bs = length buf - HEADER_SIZE))", OF _ assms(1)], rule impI)
    fix f cb buf n s r
    assume IH: "\<And>cb buf n s r. f cb buf n s = Some r \<Longrightarrow> n \<le> length buf \<longrightarrow>
        (\<exists>calls. run_calls cb calls s = map_sum id (snd \<circ> snd) r \<and>
        (\<forall>(h, bs) \<in> set calls. length bs = length buf - HEADER_SIZE))"
      and n: "n \<le> length buf"
      and eq: "(if n < HEADER_SIZE then Some (Inr (buf, n, s))
        else let header = lget PacketHeader_L buf in
          if n < unat (ph_length header) then Some (Inr (buf, n, s))
          else case cb header (drop HEADER_SIZE buf) s of Inl c \<Rightarrow> Some (Inl c)
          | Inr s' \<Rightarrow> (let packetLen = unat (ph_length header); recvSize' = n - packetLen
              in f cb (if 0 < recvSize' then memmove_front buf packetLen recvSize' else buf)
                   recvSize' s')) = Some r"
    let ?h = "lget PacketHeader_L buf" and ?bs = "drop HEADER_SIZE buf"
    show "\<exists>calls. run_calls cb calls s = map_sum id (snd \<circ> snd) r \<and>
        (\<forall>(h, bs) \<in> set calls. length bs = length buf - HEADER_SIZE)"
    proof (cases "n < HEADER_SIZE \<or> n < unat (ph_length ?h)")
      case True
      with eq have "r = Inr (buf, n, s)" by (auto simp: Let_def split: if_splits)
      then show ?thesis by (intro exI [of _ "[]"]) simp
    next
      case False
      show ?thesis
      proof (cases "cb ?h ?bs s")
        case (Inl c)
        with eq False have "r = Inl c" by (simp add: Let_def)
        with Inl show ?thesis by (intro exI [of _ "[(?h, ?bs)]"]) simp
      next
        case (Inr s')
        let ?n' = "n - unat (ph_length ?h)"
        let ?buf' = "if 0 < ?n' then memmove_front buf (unat (ph_length ?h)) ?n' else buf"
        have len: "length ?buf' = length buf" using n False by (simp add: length_memmove_front)
        have "f cb ?buf' ?n' s' = Some r" using eq False Inr by (simp add: Let_def)
        moreover have "?n' \<le> length ?buf'" using n unfolding len by simp
        ultimately obtain calls where calls: "run_calls cb calls s' = map_sum id (snd \<circ> snd) r"
            "\<forall>(h, bs) \<in> set calls. length bs = length buf - HEADER_SIZE"
          using IH unfolding len [symmetric] by blast
        then show ?thesis using Inr by (intro exI [of _ "(?h, ?bs) # calls"]) simp
      qed
    qed
  qed
  with assms(2) show ?thesis by blast
qed

lemma OnReadComplete_calls:
  assumes "OnReadComplete cb bytes (buf, n, s) = Some r" and "n + length bytes \<le> length buf"
  shows "\<exists>calls. run_calls cb calls s = map_sum id (snd \<circ> snd) r \<and>
    (\<forall>(h, bs) \<in> set calls. length bs = length buf - HEADER_SIZE)"
  using ProcessBuffer_calls [of cb "take n buf @ bytes @ drop (n + length bytes) buf" "n + length bytes" s r] assms
  by (simp add: OnReadComplete_def)

lemma OnReadComplete_bounds:
  assumes "OnReadComplete cb bytes (buf, n, s) = Some (Inr (buf', n', s'))" and "n + length bytes \<le> length buf"
  shows "length buf' = length buf \<and> n' \<le> length buf"
  using ProcessBuffer_bounds [of cb "take n buf @ bytes @ drop (n + length bytes) buf" "n + length bytes" s buf' n' s'] assms
  by (auto simp: OnReadComplete_def)

subsection \<open>Properties\<close>

text \<open>C28: With callbacks that return, the receive loop returns unless it meets a zero length field at a
  packet boundary: that is the only way for it to run for ever.\<close>

theorem loop_diverges_exactly:
  assumes "\<And>h payload s. \<exists>s'. callback h payload s = Inr s'"
  shows "ProcessBuffer callback buf n s = None \<longleftrightarrow> meets_zero buf n"
  using assms by (rule ProcessBuffer_None_iff)

theorem loop_diverges_exactly_witness:
  "ProcessBuffer (\<lambda>h payload s. Inr (Suc s)) [0, 0, 1, 255] 4 0 = None"
proof -
  have "meets_zero [0, 0, 1, 255] 4"
    by (rule meets_zero.here)
      (simp_all add: HEADER_SIZE_def PacketHeader_L_def viaL_def pairL_def wordL_def)
  with loop_diverges_exactly [of "\<lambda>h payload s. Inr (Suc s)" "[0, 0, 1, 255]" 4 0] show ?thesis by simp
qed

text \<open>A length field larger than the whole receive buffer wedges the session: once the buffer is full,
  no later read changes anything and no packet is handled again.\<close>

theorem oversize_length_wedges:
  assumes "length buf = MAX_RECV_BUFFER_SIZE"
    and "MAX_RECV_BUFFER_SIZE < unat (ph_length (lget PacketHeader_L buf))"
    and "reads_fit callback chunks (buf, MAX_RECV_BUFFER_SIZE, s)"
  shows "run_reads callback chunks (buf, MAX_RECV_BUFFER_SIZE, s)
    = Some (Inr (buf, MAX_RECV_BUFFER_SIZE, s))"
  using assms by (rule oversize_wedges)

lemma empty_reads_fit:
  assumes "length buf = MAX_RECV_BUFFER_SIZE"
    and "MAX_RECV_BUFFER_SIZE < unat (ph_length (lget PacketHeader_L buf))"
  shows "reads_fit callback [[], []] (buf, MAX_RECV_BUFFER_SIZE, s)"
  using assms by (simp add: read_fits_def OnReadComplete_def ProcessBuffer_wait)

theorem oversize_length_wedges_witness:
  "run_reads (\<lambda>h payload s. Inr (Suc s)) [[], []] (replicate MAX_RECV_BUFFER_SIZE 255, MAX_RECV_BUFFER_SIZE, 0)
     = Some (Inr (replicate MAX_RECV_BUFFER_SIZE 255, MAX_RECV_BUFFER_SIZE, 0))"
proof -
  have buf: "length (replicate MAX_RECV_BUFFER_SIZE (255 :: u8)) = MAX_RECV_BUFFER_SIZE" by simp
  have "take 2 (replicate 8192 (255 :: u8)) = [255, 255]" by (simp add: min_def numeral_2_eq_2)
  then have len: "MAX_RECV_BUFFER_SIZE < unat (ph_length (lget PacketHeader_L (replicate MAX_RECV_BUFFER_SIZE 255)))"
    by (simp add: MAX_RECV_BUFFER_SIZE_def PacketHeader_L_def viaL_def pairL_def wordL_def)
  show ?thesis by (rule oversize_length_wedges [OF buf len empty_reads_fit [OF buf len]])
qed

end
