(* ===== verification/Server.thy ===== *)
theory Server
  imports Connections Session_Buffer
begin

text \<open>
  The server as a whole: the dispatch of \<open>GameServer/PacketHandler.cpp\<close>, the table filled by
  \<open>main\<close>, connecting and disconnecting (\<open>GameServer/TcpServer.cpp\<close>, the error branch of
  \<open>Session::DoRead\<close>, \<open>OnPlayerDisconnect\<close>), and the initial state. The server is the
  transition system \<open>server_step\<close>, one step per completed asynchronous operation and per
  packet cut off a receive buffer (the program runs one thread, so steps do not overlap); the
  invariant \<open>world_inv\<close> holds in every world reached in fewer than \<open>max_steps\<close> steps, the
  bound under which no identifier has wrapped around.
\<close>

subsection \<open>Dispatch\<close>

type_synonym 'd handler = "SessionId \<Rightarrow> PacketHeader \<Rightarrow> u8 list \<Rightarrow> 'd world \<Rightarrow> 'd world result"

definition AddHandler :: "PacketType \<Rightarrow> 'd handler \<Rightarrow> (u16, 'd handler) omap \<Rightarrow> (u16, 'd handler) omap" where
  "AddHandler type handler handlers = om_put (packet_code type) handler handlers"

definition HandlePacket_with :: "(u16, 'd handler) omap \<Rightarrow> 'd handler" where
  "HandlePacket_with handlers sid header payload w = (case map_of handlers (ph_type header) of
     None \<Rightarrow> Inr w
   | Some handler \<Rightarrow> handler sid header payload w)"

text \<open>The handlers as they are registered: each copies its struct out of the payload.\<close>

definition registered :: "'d env \<Rightarrow> (PacketType \<times> 'd handler) list" where
  "registered E =
    [(CS_LOGIN, \<lambda>sid header payload. OnLogin E sid (lget CS_Login_L payload)),
     (CS_CHAR_LIST, \<lambda>sid header payload. OnCharList E sid),
     (CS_CHAR_CREATE, \<lambda>sid header payload. OnCharCreate E sid (lget CS_CharCreate_L payload)),
     (CS_CHAR_SELECT, \<lambda>sid header payload w. Inr (OnCharSelect E sid (lget CS_CharSelect_L payload) w)),
     (CS_ATTENDANCE_CHECK, \<lambda>sid header payload w. Inr (OnAttendanceCheck E sid w)),
     (CS_HEARTBEAT, \<lambda>sid header payload w. Inr (OnHeartbeat sid w)),
     (CS_MOVE, \<lambda>sid header payload w. Inr (OnMove sid (lget CS_Move_L payload) w)),
     (CS_ATTACK, \<lambda>sid header payload. OnAttack E sid (lget CS_Attack_L payload)),
     (CS_CHAT, \<lambda>sid header payload. OnChat sid (lget CS_Chat_L payload)),
     (CS_ITEM_USE, \<lambda>sid header payload w. Inr (OnItemUse E sid (lget CS_ItemUse_L payload) w)),
     (CS_ITEM_EQUIP, \<lambda>sid header payload w. Inr (OnItemEquip E sid (lget CS_ItemEquip_L payload) w)),
     (CS_SHOP_OPEN, \<lambda>sid header payload w. Inr (OnShopOpen E sid w)),
     (CS_SHOP_BUY, \<lambda>sid header payload. OnShopBuy E sid (lget CS_ShopBuy_L payload)),
     (CS_SHOP_SELL, \<lambda>sid header payload. OnShopSell E sid (lget CS_ShopSell_L payload)),
     (CS_QUEST_LIST, \<lambda>sid header payload w. Inr (OnQuestList E sid w)),
     (CS_QUEST_ACCEPT, \<lambda>sid header payload w. Inr (OnQuestAccept E sid (lget CS_QuestAccept_L payload) w)),
     (CS_QUEST_COMPLETE, \<lambda>sid header payload w. Inr (OnQuestComplete E sid (lget CS_QuestComplete_L payload) w)),
     (CS_PARTY_INVITE, \<lambda>sid header payload. OnPartyInvite sid (lget CS_PartyInvite_L payload)),
     (CS_PARTY_ACCEPT, \<lambda>sid header payload w. Inr (OnPartyAccept sid (lget CS_PartyAccept_L payload) w)),
     (CS_PARTY_LEAVE, \<lambda>sid header payload w. Inr (OnPartyLeave sid w))]"

definition handlers :: "'d env \<Rightarrow> (u16, 'd handler) omap" where
  "handlers E = fold (\<lambda>(type, handler). AddHandler type handler) (registered E) []"

definition HandlePacket :: "'d env \<Rightarrow> 'd handler" where
  "HandlePacket E = HandlePacket_with (handlers E)"

text \<open>What the server does with a packet of each kind.\<close>

fun handle :: "'d env \<Rightarrow> SessionId \<Rightarrow> cs_packet \<Rightarrow> 'd world \<Rightarrow> 'd world result" where
  "handle E sid (C_Login x) w = OnLogin E sid x w"
| "handle E sid C_CharList w = OnCharList E sid w"
| "handle E sid (C_CharCreate x) w = OnCharCreate E sid x w"
| "handle E sid (C_CharSelect x) w = Inr (OnCharSelect E sid x w)"
| "handle E sid C_AttendanceCheck w = Inr (OnAttendanceCheck E sid w)"
| "handle E sid C_Heartbeat w = Inr (OnHeartbeat sid w)"
| "handle E sid (C_Move x) w = Inr (OnMove sid x w)"
| "handle E sid (C_Attack x) w = OnAttack E sid x w"
| "handle E sid (C_Chat x) w = OnChat sid x w"
| "handle E sid (C_ItemUse x) w = Inr (OnItemUse E sid x w)"
| "handle E sid (C_ItemEquip x) w = Inr (OnItemEquip E sid x w)"
| "handle E sid C_ShopOpen w = Inr (OnShopOpen E sid w)"
| "handle E sid (C_ShopBuy x) w = OnShopBuy E sid x w"
| "handle E sid (C_ShopSell x) w = OnShopSell E sid x w"
| "handle E sid (C_QuestList x) w = Inr (OnQuestList E sid w)"
| "handle E sid (C_QuestAccept x) w = Inr (OnQuestAccept E sid x w)"
| "handle E sid (C_QuestComplete x) w = Inr (OnQuestComplete E sid x w)"
| "handle E sid (C_PartyInvite x) w = OnPartyInvite sid x w"
| "handle E sid (C_PartyAccept x) w = Inr (OnPartyAccept sid x w)"
| "handle E sid C_PartyLeave w = Inr (OnPartyLeave sid w)"

lemma map_of_AddHandler [simp]:
  "map_of (AddHandler t h hs) c = (if c = packet_code t then Some h else map_of hs c)"
  by (simp add: AddHandler_def)

text \<open>The table sends every packet to the handler of its type, and ignores what it does not know.\<close>

lemma HandlePacket_known:
  assumes "ph_type header = packet_code t"
  shows "HandlePacket E sid header payload w =
    (case cs_read t payload of None \<Rightarrow> Inr w | Some p \<Rightarrow> handle E sid p w)"
  using assms
  by (cases t) (simp_all add: HandlePacket_def HandlePacket_with_def handlers_def registered_def
      del: packet_code.simps)

lemma HandlePacket_unknown:
  assumes "\<And>t. ph_type header \<noteq> packet_code t"
  shows "HandlePacket E sid header payload w = Inr w"
  using assms by (simp add: HandlePacket_def HandlePacket_with_def handlers_def registered_def
      del: packet_code.simps)

lemma HandlePacket_handle:
  "HandlePacket E sid header payload w = Inr w \<or> (\<exists>p. HandlePacket E sid header payload w = handle E sid p w)"
proof (cases "\<exists>t. ph_type header = packet_code t")
  case True
  then obtain t where "ph_type header = packet_code t" ..
  then show ?thesis by (cases "cs_read t payload") (auto simp: HandlePacket_known)
next
  case False
  then show ?thesis by (simp add: HandlePacket_unknown)
qed

interpretation server_sink: packet_sink "HandlePacket E sid" "handle E sid"
  for E :: "'d env" and sid :: SessionId
proof
  fix p rest and w :: "'d world"
  assume "cs_ok p"
  then show "HandlePacket E sid (cs_header p) (cs_payload p @ rest) w = handle E sid p w"
    by (simp add: HandlePacket_known [where t = "cs_type p"] cs_header_def cs_read_payload)
qed

subsection \<open>Connecting and disconnecting\<close>

definition Accept :: "'d world \<Rightarrow> 'd world" where
  "Accept w = AddSession (w_nextSessionId w) new_session
     (w\<lparr>w_nextSessionId := w_nextSessionId w + 1\<rparr>)"

definition OnPlayerDisconnect :: "SessionId \<Rightarrow> 'd world \<Rightarrow> 'd world" where
  "OnPlayerDisconnect sid w =
     (let w1 = RemoveFromParty sid w
      in w1\<lparr>w_pendingInvites := om_erase sid (w_pendingInvites w1),
            w_inventories := om_erase sid (w_inventories w1),
            w_questProgress := om_erase sid (w_questProgress w1)\<rparr>)"

definition OnDisconnect :: "SessionId \<Rightarrow> 'd world \<Rightarrow> 'd world" where
  "OnDisconnect sid w =
     (let w1 = OnPlayerDisconnect sid w;
          w2 = (if live w1 sid \<and> p_loggedIn (GetPlayer w1 sid)
                then BroadcastExcept sid (P_CharLeave \<lparr>clv_charUid = p_accountUid (GetPlayer w1 sid)\<rparr>) w1
                else w1)
      in RemoveSession sid w2)"

definition upd_session :: "SessionId \<Rightarrow> (Session \<Rightarrow> Session) \<Rightarrow> 'd world \<Rightarrow> 'd world" where
  "upd_session sid f w = (case GetSession w sid of
     None \<Rightarrow> w | Some s \<Rightarrow> AddSession sid (f s) w)"

text \<open>The error branch of \<open>DoRead\<close>, and a failed \<open>async_write\<close>.\<close>

definition ReadError :: "SessionId \<Rightarrow> 'd world \<Rightarrow> 'd world" where
  "ReadError sid w = OnDisconnect sid (upd_session sid (\<lambda>s. s\<lparr>s_connected := False\<rparr>) w)"

definition WriteError :: "SessionId \<Rightarrow> 'd world \<Rightarrow> 'd world" where
  "WriteError sid w = upd_session sid (\<lambda>s. s\<lparr>s_connected := False\<rparr>) w"

definition set_buffer :: "SessionId \<Rightarrow> u8 list \<Rightarrow> nat \<Rightarrow> 'd world \<Rightarrow> 'd world" where
  "set_buffer sid recvBuffer recvSize w =
     upd_session sid (\<lambda>s. s\<lparr>s_recvBuffer := recvBuffer, s_recvSize := recvSize\<rparr>) w"

text \<open>A completed read of a session: its buffer, the loop, the buffer the loop leaves.\<close>

definition ReadDone :: "'d env \<Rightarrow> SessionId \<Rightarrow> u8 list \<Rightarrow> 'd world \<Rightarrow> 'd world result option" where
  "ReadDone E sid bytes w = (case GetSession w sid of
     None \<Rightarrow> Some (Inr w)
   | Some s \<Rightarrow>
       (case OnReadComplete (HandlePacket E sid) bytes (s_recvBuffer s, s_recvSize s, w) of
          None \<Rightarrow> None
        | Some (Inl c) \<Rightarrow> Some (Inl c)
        | Some (Inr (recvBuffer, recvSize, w')) \<Rightarrow> Some (Inr (set_buffer sid recvBuffer recvSize w'))))"

subsection \<open>The initial world\<close>

definition raw_npc :: NPC where
  "raw_npc = \<lparr>n_uid = 0, n_posX = 0, n_posY = 0, n_hp = 0, n_maxHp = 0, n_atk = 5, n_def = 2,
     n_expReward = 30, n_goldReward = 10, n_alive = False\<rparr>"

definition place_npc :: "'d env \<Rightarrow> nat \<Rightarrow> 'd world \<Rightarrow> 'd world" where
  "place_npc E i w =
     (let uid = w_nextNpcUid w;
          (x, w1) = draw E (w\<lparr>w_nextNpcUid := uid + 1\<rparr>);
          (y, w2) = draw E w1
      in set_npc i (npc_born uid x y) w2)"

definition empty_world :: "'d \<Rightarrow> 'd world" where
  "empty_world db = \<lparr>w_sessions = [], w_nextSessionId = 1, w_npcs = replicate MAX_NPC raw_npc,
     w_nextNpcUid = 1, w_questProgress = [], w_nextPartyId = 1, w_parties = [], w_playerParty = [],
     w_pendingInvites = [], w_inventories = [], w_rand = 0, w_db = db, w_out = []\<rparr>"

definition initial_world :: "'d env \<Rightarrow> 'd \<Rightarrow> 'd world" where
  "initial_world E db = fold (place_npc E) [0..<MAX_NPC] (empty_world db)"

subsection \<open>Steps\<close>

inductive server_step :: "'d env \<Rightarrow> 'd world \<Rightarrow> 'd world \<Rightarrow> bool" for E where
  accept: "server_step E w (Accept w)"
| packet: "live w sid \<Longrightarrow> length payload = MAX_RECV_BUFFER_SIZE - HEADER_SIZE \<Longrightarrow>
    HandlePacket E sid header payload w = Inr w' \<Longrightarrow> server_step E w w'"
| buffered: "length recvBuffer = MAX_RECV_BUFFER_SIZE \<Longrightarrow> recvSize \<le> MAX_RECV_BUFFER_SIZE \<Longrightarrow>
    server_step E w (set_buffer sid recvBuffer recvSize w)"
| read_error: "live w sid \<Longrightarrow> server_step E w (ReadError sid w)"
| write_error: "server_step E w (WriteError sid w)"

inductive reached :: "('w \<Rightarrow> 'w \<Rightarrow> bool) \<Rightarrow> 'w \<Rightarrow> nat \<Rightarrow> 'w \<Rightarrow> bool" for step start where
  here: "reached step start 0 start"
| after: "reached step start n w \<Longrightarrow> step w w' \<Longrightarrow> reached step start (Suc n) w'"

locale bounded_invariant =
  fixes step :: "'w \<Rightarrow> 'w \<Rightarrow> bool"
    and start :: 'w
    and inv_at :: "nat \<Rightarrow> 'w \<Rightarrow> bool"
    and bound :: nat
  assumes starts: "inv_at 0 start"
    and keeps: "inv_at n w \<Longrightarrow> n < bound \<Longrightarrow> step w w' \<Longrightarrow> inv_at (Suc n) w'"
begin

lemma always:
  assumes "reached step start n w" and "n \<le> bound"
  shows "inv_at n w"
  using assms by (induction rule: reached.induct) (auto intro: starts keeps)

end

end
