(* ===== verification/Packet_Invariants.thy ===== *)
theory Packet_Invariants
  imports Server
begin

text \<open>
  What every packet keeps: one lemma per part of the invariant, each by cases on the packet from
  the lemmas of the handlers' theories. A statement about the outcome of a handler is
  \<open>ensures result property\<close>: the property holds of the new world, if there is one.
\<close>

definition ensures :: "'d world result \<Rightarrow> ('d world \<Rightarrow> bool) \<Rightarrow> bool" where
  "ensures r P \<longleftrightarrow> (\<forall>w'. r = Inr w' \<longrightarrow> P w')"

lemma ensures_Inr [simp]: "ensures (Inr w) P \<longleftrightarrow> P w"
  by (simp add: ensures_def)

lemma ensuresI: "(\<And>w'. r = Inr w' \<Longrightarrow> P w') \<Longrightarrow> ensures r P"
  by (simp add: ensures_def)

lemma ensuresD: "ensures r P \<Longrightarrow> r = Inr w' \<Longrightarrow> P w'"
  by (simp add: ensures_def)

lemma ensures_printed [simp]:
  "ensures (OnChat sid chat w) P \<longleftrightarrow> (list_all terminated (chat_log chat) \<longrightarrow> P (route_chat sid chat w))"
  "ensures (OnPartyInvite sid req w) P \<longleftrightarrow>
     ((fst (try_invite sid req w) \<longrightarrow> terminated (cpi_targetName req)) \<longrightarrow> P (snd (try_invite sid req w)))"
  by (auto simp: ensures_def)

text \<open>The frames of the handlers that can fail.\<close>

lemmas result_frames = SendCharList_frame OnLogin_frame OnCharCreate_frame OnShopBuy_frame OnShopSell_frame

subsection \<open>Sessions and players\<close>

lemma handle_same_sessions: "ensures (handle E sid p w) (same_sessions w)"
  by (cases p)
    (simp_all add: OnCharList_def same_sessions_eq same_OnCharSelect same_OnMove same_OnItemUse
      same_OnItemEquip same_OnQuestComplete,
     auto intro!: ensuresI intro: same_OnLogin same_OnShopBuy same_OnShopSell same_OnAttack
      same_sessions_eq [OF SendCharList_frame(1)] same_sessions_eq [OF OnCharCreate_frame(1)])

lemma players_ok_eq: "players_ok w \<Longrightarrow> w_sessions w' = w_sessions w \<Longrightarrow> players_ok w'"
  using sessions_cong(2) [of w' w] by (simp add: players_ok_def)

lemma handle_players_ok:
  assumes "players_ok w" and "members_ok w"
  shows "ensures (handle E sid p w) players_ok"
  by (cases p)
    (simp_all add: assms OnCharList_def players_ok_eq [OF assms(1)] OnCharSelect_players_ok OnMove_players_ok
      OnItemUse_players_ok OnItemEquip_players_ok OnQuestComplete_players_ok,
     simp_all add: ensures_def OnLogin_players_ok [OF _ assms(1)] OnShopBuy_players_ok [OF assms(1)]
      OnShopSell_players_ok [OF assms(1)] OnAttack_players_ok [OF assms] players_ok_eq [OF assms(1)] result_frames)

subsection \<open>Inventories and quests\<close>

lemma inventories_ok_eq: "inventories_ok w \<Longrightarrow> w_inventories w' = w_inventories w \<Longrightarrow> inventories_ok w'"
  using get_inv_cong [of w' w] by (simp add: inventories_ok_def)

lemma handle_inventories_ok:
  assumes "inventories_ok w"
  shows "ensures (handle E sid p w) inventories_ok"
  by (cases p)
    (simp_all add: assms OnCharList_def inventories_ok_eq [OF assms] OnCharSelect_inventories_ok
      OnItemUse_inventories_ok OnItemEquip_inventories_ok OnQuestComplete_inventories_ok,
     simp_all add: ensures_def OnAttack_inventories_ok [OF assms] OnShopBuy_inventories_ok [OF assms]
      OnShopSell_inventories_ok [OF assms] inventories_ok_eq [OF assms] result_frames)

lemma progress_ok_eq: "progress_ok w \<Longrightarrow> w_questProgress w' = w_questProgress w \<Longrightarrow> progress_ok w'"
  using get_qp_cong [of w' w] by (simp add: progress_ok_def)

lemma handle_progress_ok:
  assumes "progress_ok w" and "members_ok w"
  shows "ensures (handle E sid p w) progress_ok"
  by (cases p)
    (simp_all add: assms OnCharList_def progress_ok_eq [OF assms(1)] OnCharSelect_progress_ok
      OnQuestList_progress_ok OnQuestAccept_progress_ok OnQuestComplete_progress_ok,
     simp_all add: ensures_def OnAttack_progress_ok [OF assms] progress_ok_eq [OF assms(1)] result_frames)

subsection \<open>NPCs and identifiers\<close>

text \<open>Only a kill makes an NPC id, only an accepted invitation a party id, no packet a session id.\<close>

lemma handle_npcs_same:
  "\<nexists>x. p = C_Attack x \<Longrightarrow> ensures (handle E sid p w)
     (\<lambda>w'. w_npcs w' = w_npcs w \<and> w_nextNpcUid w' = w_nextNpcUid w)"
  by (cases p) (simp_all add: ensures_def OnCharList_def result_frames)

lemma OnAttack_next_npc:
  assumes "npcs_ok w" and "w_nextNpcUid w \<noteq> - 1" and "OnAttack E sid atk w = Inr w'"
  shows "w_nextNpcUid w' = w_nextNpcUid w \<or> w_nextNpcUid w' = w_nextNpcUid w + 1"
  using assms(3)
proof (cases rule: OnAttack_cases)
  case (kill i)
  have "hp_left (n_hp (w_npcs w ! i)) (blow w sid i) = 0" using kill(2) by (simp add: hp_left_zero)
  then show ?thesis
    using on_kill_npcs [OF kill(3) attack_target_bound [OF kill(1)] assms(1,2)] by (simp add: struck_npcs)
qed simp_all

lemma handle_npcs_ok:
  assumes "npcs_ok w" and "w_nextNpcUid w \<noteq> - 1"
  shows "ensures (handle E sid p w)
    (\<lambda>w'. npcs_ok w' \<and> (w_nextNpcUid w' = w_nextNpcUid w \<or> w_nextNpcUid w' = w_nextNpcUid w + 1))"
proof (cases "\<exists>x. p = C_Attack x")
  case True
  then obtain x where "p = C_Attack x" ..
  then show ?thesis
    using OnAttack_npcs_ok [OF assms, of E sid x] OnAttack_next_npc [OF assms, of E sid x]
    by (simp add: ensures_def)
next
  case False
  show ?thesis
  proof (rule ensuresI)
    fix w' assume "handle E sid p w = Inr w'"
    with False ensuresD [OF handle_npcs_same [of p E sid w]]
    have "w_npcs w' = w_npcs w" "w_nextNpcUid w' = w_nextNpcUid w" by auto
    with assms(1) npcs_ok_cong [of w' w]
    show "npcs_ok w' \<and> (w_nextNpcUid w' = w_nextNpcUid w \<or> w_nextNpcUid w' = w_nextNpcUid w + 1)" by simp
  qed
qed

lemma OnPartyAccept_next_id:
  "w_nextPartyId (OnPartyAccept sid req w) = w_nextPartyId w \<or>
   w_nextPartyId (OnPartyAccept sid req w) = w_nextPartyId w + 1"
proof (cases "\<exists>i. accepts w sid req i")
  case True
  then obtain i where "accepts w sid req i" ..
  from OnPartyAccept_next [OF this] show ?thesis by (simp split: if_splits)
qed (simp add: OnPartyAccept_ignored(3))

lemma handle_next_session: "ensures (handle E sid p w) (\<lambda>w'. w_nextSessionId w' = w_nextSessionId w)"
  by (cases p) (simp_all add: ensures_def OnCharList_def result_frames OnAttack_frame)

lemma handle_next_party: "ensures (handle E sid p w)
    (\<lambda>w'. w_nextPartyId w' = w_nextPartyId w \<or> w_nextPartyId w' = w_nextPartyId w + 1)"
  by (cases p) (simp_all add: OnCharList_def OnPartyAccept_next_id,
      simp_all add: ensures_def result_frames OnAttack_frame)

subsection \<open>Parties\<close>

lemma handle_parties_same:
  assumes "members_ok w" and "\<not> ((\<exists>x. p = C_PartyAccept x) \<or> (\<exists>x. p = C_PartyInvite x) \<or> p = C_PartyLeave)"
  shows "ensures (handle E sid p w) (\<lambda>w'. w_playerParty w' = w_playerParty w \<and>
    w_parties w' = w_parties w \<and> w_nextPartyId w' = w_nextPartyId w \<and> w_pendingInvites w' = w_pendingInvites w)"
  using assms
  by (cases p) (simp_all add: OnCharList_def route_chat_maps, simp_all add: ensures_def result_frames OnAttack_frame)

lemma handle_party_inv:
  assumes "members_ok w" and "sizes_ok w" and "ids_fresh w" and "w_nextPartyId w \<noteq> - 1"
  shows "ensures (handle E sid p w) (\<lambda>w'. members_ok w' \<and> sizes_ok w' \<and> ids_fresh w')"
proof (cases "(\<exists>x. p = C_PartyAccept x) \<or> (\<exists>x. p = C_PartyInvite x) \<or> p = C_PartyLeave")
  case True
  with assms show ?thesis
    by (auto simp: OnPartyAccept_members_ok OnPartyAccept_sizes_ok OnPartyAccept_ids_fresh
        try_invite_party_inv OnPartyLeave_def RemoveFromParty_members_ok RemoveFromParty_sizes_ok
        RemoveFromParty_ids_fresh)
next
  case False
  show ?thesis
  proof (rule ensuresI)
    fix w' assume "handle E sid p w = Inr w'"
    with False ensuresD [OF handle_parties_same [OF assms(1), of p E sid]]
    have "w_playerParty w' = w_playerParty w" "w_parties w' = w_parties w" "w_nextPartyId w' = w_nextPartyId w"
      by auto
    then show "members_ok w' \<and> sizes_ok w' \<and> ids_fresh w'"
      using assms(1-3) party_inv_cong [of w' w] by simp
  qed
qed

subsection \<open>The keys of the per-session maps\<close>

text \<open>Within \<open>allowed\<close>, the sessions whose entries a packet may add.\<close>

lemma keys_eq:
  "w_inventories w' = w_inventories w \<Longrightarrow> inv_keys w' \<subseteq> insert sid (inv_keys w)"
  "w_questProgress w' = w_questProgress w \<Longrightarrow> quest_keys w' \<subseteq> quest_keys w \<union> {i. live w i}"
  "w_playerParty w' = w_playerParty w \<Longrightarrow> party_keys w' \<subseteq> party_keys w \<union> {i. live w i}"
  "w_pendingInvites w' = w_pendingInvites w \<Longrightarrow> invite_keys w' \<subseteq> invite_keys w \<union> {i. live w i}"
  using keys_frame [of w' w] by auto

lemma inv_keys_struck [simp]: "inv_keys (struck sid i w) = inv_keys w"
  by (rule keys_frame) simp

lemma inv_keys_OnAttack: "OnAttack E sid atk w = Inr w' \<Longrightarrow> inv_keys w' \<subseteq> insert sid (inv_keys w)"
  by (erule OnAttack_cases) (auto dest: inv_keys_on_kill [THEN subsetD])

lemma quest_keys_OnAttack:
  "OnAttack E sid atk w = Inr w' \<Longrightarrow> live w sid \<Longrightarrow> quest_keys w' \<subseteq> quest_keys w \<union> {i. live w i}"
  by (erule OnAttack_cases) (auto dest: quest_keys_on_kill [THEN subsetD])

lemma handle_inv_keys: "ensures (handle E sid p w) (\<lambda>w'. inv_keys w' \<subseteq> insert sid (inv_keys w))"
  by (cases p)
    (simp_all add: OnCharList_def keys_eq(1) inv_keys_handlers(1,2) inv_keys_OnCharSelect inv_keys_OnQuestComplete,
     simp_all add: ensures_def inv_keys_handlers(5,6) inv_keys_OnAttack keys_eq(1) result_frames)

lemma quest_keys_le:
  "live w sid \<Longrightarrow> quest_keys w' \<subseteq> insert sid (quest_keys w) \<Longrightarrow> quest_keys w' \<subseteq> quest_keys w \<union> {i. live w i}"
  by auto

lemma handle_quest_keys:
  assumes "live w sid"
  shows "ensures (handle E sid p w) (\<lambda>w'. quest_keys w' \<subseteq> quest_keys w \<union> {i. live w i})"
  using assms
  by (cases p)
    (simp_all add: OnCharList_def keys_eq(2) quest_keys_le [OF assms] quest_keys_OnCharSelect quest_keys_handlers(1-3),
     simp_all add: ensures_def quest_keys_OnAttack keys_eq(2) result_frames)

lemma handle_party_keys:
  assumes "live w sid" and "members_ok w"
  shows "ensures (handle E sid p w) (\<lambda>w'. party_keys w' \<subseteq> party_keys w \<union> {i. live w i} \<and>
    invite_keys w' \<subseteq> invite_keys w \<union> {i. live w i})"
proof (cases "(\<exists>x. p = C_PartyAccept x) \<or> (\<exists>x. p = C_PartyInvite x) \<or> p = C_PartyLeave")
  case True
  then show ?thesis
  proof (elim disjE exE)
    fix x assume "p = C_PartyAccept x"
    then show ?thesis
      using assms(1) party_keys_accept [of sid x w] invite_keys_accept [of sid x w] by auto
  next
    fix x assume "p = C_PartyInvite x"
    then show ?thesis
      using keys_eq(3) [of "snd (try_invite sid x w)" w] invite_keys_invite [of sid x w] by auto
  next
    assume "p = C_PartyLeave"
    then show ?thesis
      using party_keys_leave [OF assms(2), of sid] keys_eq(4) [of "RemoveFromParty sid w" w]
      by (auto simp: OnPartyLeave_def)
  qed
next
  case False
  show ?thesis
  proof (rule ensuresI)
    fix w' assume "handle E sid p w = Inr w'"
    with False ensuresD [OF handle_parties_same [OF assms(2), of p E sid]]
    have "w_playerParty w' = w_playerParty w" "w_pendingInvites w' = w_pendingInvites w" by auto
    then show "party_keys w' \<subseteq> party_keys w \<union> {i. live w i} \<and> invite_keys w' \<subseteq> invite_keys w \<union> {i. live w i}"
      by (simp add: keys_eq)
  qed
qed

end
