(* ===== verification/World_Invariant.thy ===== *)
theory World_Invariant
  imports Packet_Invariants
begin

text \<open>
  The invariant of the whole server, \<open>world_inv\<close>: in the initial world, and kept by every
  step while fewer than \<open>max_steps\<close> steps have been made. It is the interpretation of the
  locale \<open>bounded_invariant\<close> on the server's step relation. From it: which worlds the
  process can reach, that reads are sequences of steps, and which packets can bring the
  process down.
\<close>

subsection \<open>The invariant\<close>

definition sessions_inv :: "nat \<Rightarrow> 'd world \<Rightarrow> bool" where
  "sessions_inv n w \<longleftrightarrow> sessions_wf w \<and> unat (w_nextSessionId w) \<le> n + 1 \<and>
     (\<forall>i c buf k. conn w i = Some (c, buf, k) \<longrightarrow>
        i < w_nextSessionId w \<and> length buf = MAX_RECV_BUFFER_SIZE \<and> k \<le> MAX_RECV_BUFFER_SIZE)"

lemma sessions_inv_iff:
  "sessions_inv n w \<longleftrightarrow> sessions_wf w \<and> unat (w_nextSessionId w) \<le> n + 1 \<and>
     (\<forall>i s. GetSession w i = Some s \<longrightarrow> i < w_nextSessionId w \<and>
        length (s_recvBuffer s) = MAX_RECV_BUFFER_SIZE \<and> s_recvSize s \<le> MAX_RECV_BUFFER_SIZE)"
  by (fastforce simp: sessions_inv_def conn_def)

definition world_inv :: "nat \<Rightarrow> 'd world \<Rightarrow> bool" where
  "world_inv n w \<longleftrightarrow> sessions_inv n w \<and> players_ok w \<and> inventories_ok w \<and> progress_ok w \<and>
     (npcs_ok w \<and> unat (w_nextNpcUid w) \<le> n + 6) \<and>
     (members_ok w \<and> sizes_ok w \<and> ids_fresh w \<and> unat (w_nextPartyId w) \<le> n + 1) \<and> keys_live w"

definition max_steps :: nat where
  "max_steps = 4294967000"

lemma not_max: "unat (a :: 'a::len word) \<le> n + 6 \<Longrightarrow> n < max_steps \<Longrightarrow> 32 \<le> LENGTH('a) \<Longrightarrow> a \<noteq> - 1"
proof
  assume a: "unat a \<le> n + 6" "n < max_steps" "32 \<le> LENGTH('a)" "a = - 1"
  have "(2 :: nat) ^ 32 \<le> 2 ^ LENGTH('a)" using a(3) by (rule power_increasing) simp
  moreover have "unat (- 1 :: 'a word) = 2 ^ LENGTH('a) - 1" by (simp add: unsigned_minus_1_eq_mask mask_eq_exp_minus_1)
  ultimately show False using a(1,2,4) by (simp add: max_steps_def)
qed

lemma unat_succ_le: "unat (a + 1 :: 'a::len word) \<le> Suc (unat a)"
  using unat_add_no_wrap [of a 1] by (cases "unat a + 1 < 2 ^ LENGTH('a)")
    (auto simp: unat_word_ariths(1) intro: mod_le_divisor order_trans [OF mod_less_eq_dividend])

subsection \<open>The initial world\<close>

lemma place_npc_effect:
  "w_npcs (place_npc E i w) = (w_npcs w)[i := npc_born (w_nextNpcUid w)
     (rand_value E (w_rand w)) (rand_value E (Suc (w_rand w))) (w_npcs w ! i)]"
  "w_nextNpcUid (place_npc E i w) = w_nextNpcUid w + 1"
  by (simp_all add: place_npc_def draw_def Let_def set_npc_npcs)

lemma place_npc_frame [simp, frame]:
  "w_sessions (place_npc E i w) = w_sessions w" "w_nextSessionId (place_npc E i w) = w_nextSessionId w"
  "w_questProgress (place_npc E i w) = w_questProgress w" "w_nextPartyId (place_npc E i w) = w_nextPartyId w"
  "w_parties (place_npc E i w) = w_parties w" "w_playerParty (place_npc E i w) = w_playerParty w"
  "w_pendingInvites (place_npc E i w) = w_pendingInvites w" "w_inventories (place_npc E i w) = w_inventories w"
  "w_out (place_npc E i w) = w_out w"
  by (simp_all add: place_npc_def draw_def Let_def)

lemma initial_npcs: "npcs_ok (initial_world E db) \<and> w_nextNpcUid (initial_world E db) = 6"
proof -
  have "[0..<MAX_NPC] = [0, 1, 2, 3, 4]" by (simp add: MAX_NPC_def upt_rec)
  then show ?thesis
    by (simp add: initial_world_def place_npc_effect npcs_ok_def empty_world_def MAX_NPC_def
        npc_born_ok raw_npc_def numeral_nat) (simp add: npc_born_def)
qed

lemma initial_rest:
  "w_sessions (initial_world E db) = []" "w_nextSessionId (initial_world E db) = 1"
  "w_questProgress (initial_world E db) = []" "w_nextPartyId (initial_world E db) = 1"
  "w_parties (initial_world E db) = []" "w_playerParty (initial_world E db) = []"
  "w_pendingInvites (initial_world E db) = []" "w_inventories (initial_world E db) = []"
  by (simp_all add: initial_world_def fold_keeps empty_world_def)

lemma initial_inv: "world_inv 0 (initial_world E db)"
proof -
  have "GetSession (initial_world E db) = (\<lambda>_. None)"
    by (simp add: GetSession_def initial_rest fun_eq_iff)
  then have "GetPlayer (initial_world E db) = (\<lambda>_. new_player)" "conn (initial_world E db) = (\<lambda>_. None)"
    by (simp_all add: GetPlayer_def conn_def fun_eq_iff)
  then show ?thesis
    by (simp add: world_inv_def sessions_inv_def sessions_wf_def players_ok_def inventories_ok_def get_inv_def
        progress_ok_def get_qp_def members_ok_def sizes_ok_def ids_fresh_def party_of_def party_at_def
        keys_live_def inv_keys_def quest_keys_def party_keys_def invite_keys_def initial_rest initial_npcs)
qed

subsection \<open>A packet\<close>

lemma sessions_inv_same:
  "sessions_inv n w \<Longrightarrow> same_sessions w w' \<Longrightarrow> w_nextSessionId w' = w_nextSessionId w \<Longrightarrow>
     sessions_inv (Suc n) w'"
  by (auto simp: sessions_inv_def same_sessions_def)

lemma world_inv_packet:
  assumes inv: "world_inv n w" and n: "n < max_steps" and live: "live w sid"
    and run: "handle E sid p w = Inr w'"
  shows "world_inv (Suc n) w'"
proof -
  note parts = inv [unfolded world_inv_def]
  have npc: "w_nextNpcUid w \<noteq> - 1" and party: "w_nextPartyId w \<noteq> - 1"
    using parts n not_max [of "w_nextNpcUid w" n] not_max [of "w_nextPartyId w" n] by auto
  have mem: "members_ok w" using parts by simp
  have same: "same_sessions w w'" by (rule ensuresD [OF handle_same_sessions run])
  have live_eq: "live w' i \<longleftrightarrow> live w i" for i by (rule same_sessions_live [OF same])
  have "sessions_inv (Suc n) w'"
    using parts same ensuresD [OF handle_next_session run] by (auto intro: sessions_inv_same)
  moreover have "players_ok w'" using ensuresD [OF handle_players_ok run] parts by blast
  moreover have "inventories_ok w'" using ensuresD [OF handle_inventories_ok run] parts by blast
  moreover have "progress_ok w'" using ensuresD [OF handle_progress_ok run] parts by blast
  moreover have "npcs_ok w' \<and> unat (w_nextNpcUid w') \<le> Suc n + 6"
    using ensuresD [OF handle_npcs_ok run] parts npc unat_succ_le [of "w_nextNpcUid w"] by fastforce
  moreover have "members_ok w' \<and> sizes_ok w' \<and> ids_fresh w'"
    using ensuresD [OF handle_party_inv run] parts party by blast
  moreover have "unat (w_nextPartyId w') \<le> Suc n + 1"
    using ensuresD [OF handle_next_party run] parts unat_succ_le [of "w_nextPartyId w"] by fastforce
  moreover have "keys_live w'"
    using ensuresD [OF handle_inv_keys run] ensuresD [OF handle_quest_keys [OF live] run]
      ensuresD [OF handle_party_keys [OF live mem] run] parts live
    by (fastforce simp: keys_live_def live_eq)
  ultimately show ?thesis by (simp add: world_inv_def)
qed

subsection \<open>Connecting, reading, writing\<close>

text \<open>A step that changes sessions only.\<close>

lemma world_inv_sessions:
  assumes "world_inv n w" and "sessions_inv (Suc n) w'" and "players_ok w'"
    and "\<And>i. live w i \<Longrightarrow> live w' i"
    and "w_inventories w' = w_inventories w" "w_questProgress w' = w_questProgress w"
      "w_npcs w' = w_npcs w" "w_nextNpcUid w' = w_nextNpcUid w" "w_playerParty w' = w_playerParty w"
      "w_parties w' = w_parties w" "w_nextPartyId w' = w_nextPartyId w"
      "w_pendingInvites w' = w_pendingInvites w"
  shows "world_inv (Suc n) w'"
  using assms party_inv_cong [of w' w] npcs_ok_cong [of w' w] keys_frame [of w' w]
    inventories_ok_eq [of w w'] progress_ok_eq [of w w']
  by (auto simp: world_inv_def keys_live_def)

lemma upd_session_frame [simp, frame]:
  "w_nextSessionId (upd_session sid f w) = w_nextSessionId w" "w_npcs (upd_session sid f w) = w_npcs w"
  "w_nextNpcUid (upd_session sid f w) = w_nextNpcUid w" "w_questProgress (upd_session sid f w) = w_questProgress w"
  "w_nextPartyId (upd_session sid f w) = w_nextPartyId w" "w_parties (upd_session sid f w) = w_parties w"
  "w_playerParty (upd_session sid f w) = w_playerParty w" "w_pendingInvites (upd_session sid f w) = w_pendingInvites w"
  "w_inventories (upd_session sid f w) = w_inventories w" "w_rand (upd_session sid f w) = w_rand w"
  "w_db (upd_session sid f w) = w_db w" "w_out (upd_session sid f w) = w_out w"
  by (simp_all add: upd_session_def AddSession_def split: option.split)

lemma GetSession_upd_session:
  "GetSession (upd_session sid f w) i = (if i = sid then map_option f (GetSession w i) else GetSession w i)"
  by (simp add: upd_session_def AddSession_def GetSession_def split: option.split)

lemma live_upd_session [simp]: "live (upd_session sid f w) i \<longleftrightarrow> live w i"
  by (simp add: live_def GetSession_upd_session)

lemma GetPlayer_upd_session:
  "(\<And>s. s_player (f s) = s_player s) \<Longrightarrow> GetPlayer (upd_session sid f w) = GetPlayer w"
  by (auto simp: GetPlayer_def GetSession_upd_session fun_eq_iff split: option.split)

lemma sessions_wf_upd_session: "sessions_wf w \<Longrightarrow> sessions_wf (upd_session sid f w)"
  by (simp add: sessions_wf_def upd_session_def AddSession_def split: option.split)

lemma sessions_inv_upd_session:
  assumes "sessions_inv n w"
    and "\<And>s. length (s_recvBuffer s) = MAX_RECV_BUFFER_SIZE \<Longrightarrow> s_recvSize s \<le> MAX_RECV_BUFFER_SIZE \<Longrightarrow>
      length (s_recvBuffer (f s)) = MAX_RECV_BUFFER_SIZE \<and> s_recvSize (f s) \<le> MAX_RECV_BUFFER_SIZE"
  shows "sessions_inv (Suc n) (upd_session sid f w)"
  using assms by (auto simp: sessions_inv_iff GetSession_upd_session sessions_wf_upd_session split: if_splits)

lemma world_inv_upd_session:
  assumes "world_inv n w" and "\<And>s. s_player (f s) = s_player s"
    and "\<And>s. length (s_recvBuffer s) = MAX_RECV_BUFFER_SIZE \<Longrightarrow> s_recvSize s \<le> MAX_RECV_BUFFER_SIZE \<Longrightarrow>
      length (s_recvBuffer (f s)) = MAX_RECV_BUFFER_SIZE \<and> s_recvSize (f s) \<le> MAX_RECV_BUFFER_SIZE"
  shows "world_inv (Suc n) (upd_session sid f w)"
proof (rule world_inv_sessions [OF assms(1)])
  show "sessions_inv (Suc n) (upd_session sid f w)"
    by (rule sessions_inv_upd_session) (use assms in \<open>simp_all add: world_inv_def\<close>)
  show "players_ok (upd_session sid f w)"
    using assms(1,2) by (simp add: world_inv_def players_ok_def GetPlayer_upd_session)
qed simp_all

lemma world_inv_Accept:
  assumes inv: "world_inv n w" and n: "n < max_steps"
  shows "world_inv (Suc n) (Accept w)"
proof (rule world_inv_sessions [OF inv])
  have s: "sessions_inv n w" and p: "players_ok w" using inv by (simp_all add: world_inv_def)
  then have "w_nextSessionId w \<noteq> - 1" using n not_max [of "w_nextSessionId w" n] by (simp add: sessions_inv_def)
  then have up: "w_nextSessionId w < w_nextSessionId w + 1" by (rule word_less_succ)
  have get: "GetSession (Accept w) i = (if i = w_nextSessionId w then Some new_session else GetSession w i)" for i
    by (simp add: Accept_def AddSession_def GetSession_def)
  have nxt: "w_nextSessionId (Accept w) = w_nextSessionId w + 1" by (simp add: Accept_def AddSession_def)
  have old: "i < w_nextSessionId w \<and> length (s_recvBuffer t) = MAX_RECV_BUFFER_SIZE \<and>
      s_recvSize t \<le> MAX_RECV_BUFFER_SIZE" if "GetSession w i = Some t" for i t
    using s that by (simp add: sessions_inv_iff)
  have "i < w_nextSessionId (Accept w) \<and> length (s_recvBuffer t) = MAX_RECV_BUFFER_SIZE \<and>
      s_recvSize t \<le> MAX_RECV_BUFFER_SIZE" if "GetSession (Accept w) i = Some t" for i t
    using that up old [of i t] unfolding nxt get
    by (auto simp: new_session_def intro: less_trans split: if_splits)
  moreover have "sessions_wf (Accept w)" using s by (simp add: sessions_inv_def sessions_wf_def Accept_def AddSession_def)
  moreover have "unat (w_nextSessionId (Accept w)) \<le> Suc n + 1"
    using s unat_succ_le [of "w_nextSessionId w"] unfolding nxt by (simp add: sessions_inv_def)
  ultimately show "sessions_inv (Suc n) (Accept w)" by (simp add: sessions_inv_iff)
  show "players_ok (Accept w)"
    using p by (simp add: players_ok_def GetPlayer_def get new_session_def)
  show "\<And>i. live w i \<Longrightarrow> live (Accept w) i" by (simp add: live_def get)
qed (simp_all add: Accept_def AddSession_def)

subsection \<open>Disconnecting\<close>

lemma OnDisconnect_fields:
  "w_playerParty (OnDisconnect sid w) = w_playerParty (RemoveFromParty sid w)"
  "w_parties (OnDisconnect sid w) = w_parties (RemoveFromParty sid w)"
  "w_nextPartyId (OnDisconnect sid w) = w_nextPartyId w"
  "w_pendingInvites (OnDisconnect sid w) = om_erase sid (w_pendingInvites w)"
  "w_inventories (OnDisconnect sid w) = om_erase sid (w_inventories w)"
  "w_questProgress (OnDisconnect sid w) = om_erase sid (w_questProgress w)"
  "w_npcs (OnDisconnect sid w) = w_npcs w" "w_nextNpcUid (OnDisconnect sid w) = w_nextNpcUid w"
  "w_nextSessionId (OnDisconnect sid w) = w_nextSessionId w"
  "w_sessions (OnDisconnect sid w) = om_erase sid (w_sessions w)"
  by (simp_all add: OnDisconnect_def OnPlayerDisconnect_def RemoveSession_def Let_def)

lemma OnDisconnect_inv:
  assumes "world_inv n w"
  shows "world_inv (Suc n) (OnDisconnect sid w)"
proof -
  let ?w' = "OnDisconnect sid w" and ?r = "RemoveFromParty sid w"
  note parts = assms [unfolded world_inv_def]
  have get: "GetSession ?w' i = (if i = sid then None else GetSession w i)" for i
    by (simp add: GetSession_def OnDisconnect_fields)
  have live: "live ?w' i \<longleftrightarrow> i \<noteq> sid \<and> live w i" for i by (simp add: live_def get)
  have "sessions_inv (Suc n) ?w'"
    using parts by (auto simp: sessions_inv_def conn_def get sessions_wf_def OnDisconnect_fields split: if_splits)
  moreover have "players_ok ?w'" using parts by (simp add: players_ok_def GetPlayer_def get)
  moreover have "inventories_ok ?w'"
    using parts by (auto simp: inventories_ok_def get_inv_def OnDisconnect_fields om_get_def split: option.splits)
  moreover have "progress_ok ?w'"
    using parts by (auto simp: progress_ok_def get_qp_def OnDisconnect_fields om_get_def split: option.splits)
  moreover have "npcs_ok ?w' \<and> unat (w_nextNpcUid ?w') \<le> Suc n + 6"
    using parts npcs_ok_cong [of ?w' w] by (simp add: OnDisconnect_fields)
  moreover have "members_ok ?w' \<and> sizes_ok ?w' \<and> ids_fresh ?w'"
  proof -
    have "members_ok ?r" "sizes_ok ?r" "ids_fresh ?r"
      using parts by (simp_all add: RemoveFromParty_members_ok RemoveFromParty_sizes_ok RemoveFromParty_ids_fresh)
    then show ?thesis using party_inv_cong [of ?w' ?r] by (simp add: OnDisconnect_fields)
  qed
  moreover have "unat (w_nextPartyId ?w') \<le> Suc n + 1" using parts by (simp add: OnDisconnect_fields)
  moreover have "keys_live ?w'"
  proof -
    have "party_keys ?w' \<subseteq> party_keys w - {sid}"
      using party_keys_leave [of w sid] keys_frame(3) [of ?w' ?r] parts by (simp add: OnDisconnect_fields)
    moreover have "inv_keys ?w' = inv_keys w - {sid}" "quest_keys ?w' = quest_keys w - {sid}"
      "invite_keys ?w' = invite_keys w - {sid}"
      by (simp_all add: inv_keys_def quest_keys_def invite_keys_def OnDisconnect_fields keys_om_erase)
    ultimately show ?thesis using parts by (auto simp: keys_live_def live)
  qed
  ultimately show ?thesis by (simp add: world_inv_def)
qed

lemma world_inv_weaken: "world_inv n w \<Longrightarrow> n \<le> m \<Longrightarrow> world_inv m w"
  by (auto simp: world_inv_def sessions_inv_def)

lemma disconnected_inv:
  assumes "world_inv n w"
  shows "world_inv (Suc n) (OnDisconnect sid (upd_session sid (\<lambda>s. s\<lparr>s_connected := False\<rparr>) w))"
proof -
  have same: "\<And>v. world_inv n v \<Longrightarrow> world_inv (Suc n) (OnDisconnect sid v)" by (rule OnDisconnect_inv)
  have fin: "sessions_inv n (upd_session sid (\<lambda>s. s\<lparr>s_connected := False\<rparr>) w)"
    using assms by (auto simp: world_inv_def sessions_inv_iff GetSession_upd_session
        sessions_wf_upd_session split: if_splits)
  have "players_ok (upd_session sid (\<lambda>s. s\<lparr>s_connected := False\<rparr>) w)"
    using assms by (simp add: world_inv_def players_ok_def GetPlayer_upd_session)
  with fin assms party_inv_cong [of "upd_session sid (\<lambda>s. s\<lparr>s_connected := False\<rparr>) w" w]
    npcs_ok_cong [of "upd_session sid (\<lambda>s. s\<lparr>s_connected := False\<rparr>) w" w]
    keys_frame [of "upd_session sid (\<lambda>s. s\<lparr>s_connected := False\<rparr>) w" w]
    inventories_ok_eq [of w "upd_session sid (\<lambda>s. s\<lparr>s_connected := False\<rparr>) w"]
    progress_ok_eq [of w "upd_session sid (\<lambda>s. s\<lparr>s_connected := False\<rparr>) w"]
  show ?thesis by (intro same) (auto simp: world_inv_def keys_live_def)
qed

subsection \<open>Every step\<close>

lemma world_inv_step:
  assumes "world_inv n w" and "n < max_steps" and "server_step E w w'"
  shows "world_inv (Suc n) w'"
  using assms(3)
proof (cases rule: server_step.cases)
  case accept
  with world_inv_Accept [OF assms(1,2)] show ?thesis by simp
next
  case (packet sid payload header)
  from HandlePacket_handle [of E sid header payload w] show ?thesis
  proof
    assume "HandlePacket E sid header payload w = Inr w"
    with packet(3) have "w' = w" by simp
    with world_inv_weaken [OF assms(1), of "Suc n"] show ?thesis by simp
  next
    assume "\<exists>p. HandlePacket E sid header payload w = handle E sid p w"
    with packet(3) obtain p where "handle E sid p w = Inr w'" by auto
    from world_inv_packet [OF assms(1,2) packet(1) this] show ?thesis .
  qed
next
  case (buffered buf k sid)
  then show ?thesis
    by (simp add: set_buffer_def) (rule world_inv_upd_session [OF assms(1)]; simp)
next
  case (read_error sid)
  with disconnected_inv [OF assms(1), of sid] show ?thesis by (simp add: ReadError_def)
next
  case (write_error sid)
  then show ?thesis
    by (simp add: WriteError_def) (rule world_inv_upd_session [OF assms(1)]; simp)
qed

interpretation server: bounded_invariant "server_step E" "initial_world E db" world_inv max_steps
  for E :: "'d env" and db :: 'd
  by unfold_locales (fact initial_inv, fact world_inv_step)

subsection \<open>Which packets can bring the process down\<close>

definition short_names :: "'d env \<Rightarrow> bool" where
  "short_names E \<longleftrightarrow> list_all (\<lambda>item. length (cstr (it_name item)) < 32) (g_items E)"

lemma sold_name_short:
  assumes "short_names E"
  shows "length (cstr (sold_name (FindItem E t))) < 32"
proof -
  have "length (cstr ''Unknown'') \<le> length ''Unknown''" unfolding cstr_def by (rule length_takeWhile_le)
  then show ?thesis
    using assms by (auto simp: short_names_def sold_name_def list_all_iff dest!: FindItem_Some split: option.split)
qed

lemma shop_never_crashes:
  assumes "short_names E"
  shows "OnShopBuy E sid rb w \<noteq> Inl c" "OnShopSell E sid rs w \<noteq> Inl c"
  using assms sold_name_short [OF assms]
  by (auto simp: OnShopBuy_Inl_iff OnShopSell_Inl_iff buyable_def short_names_def list_all_iff not_le [symmetric]
      dest!: FindItem_Some)

lemma char_list_crash: "SendCharList E sid w = Inl c \<Longrightarrow> c = InvalidParameter"
proof -
  have "fetch_chars rows entries = Inl c \<Longrightarrow> c = InvalidParameter" for rows entries
    by (induction rows entries rule: fetch_chars.induct) (auto split: if_splits option.splits)
  then show "SendCharList E sid w = Inl c \<Longrightarrow> c = InvalidParameter"
    by (auto simp: SendCharList_def bind_result_Inl split: prod.splits)
qed

lemma login_crash:
  assumes "OnLogin E sid x w = Inl c"
  shows "c = InvalidParameter \<or> c = Unterminated"
proof (cases "channel_id E (lg_accountId x)")
  case (Inl c')
  with assms show ?thesis by (auto simp: OnLogin_def channel_id_def split: if_splits)
next
  case (Inr ch)
  obtain rows db where "spAccountLogin (dbConn E) 0 ch (w_db w) = (rows, db)" by fastforce
  moreover obtain ok uid where "login_account rows ch = (ok, uid)" by fastforce
  ultimately show ?thesis using assms Inr char_list_crash by (auto simp: OnLogin_def Let_def)
qed

lemma attack_safe: "members_ok w \<Longrightarrow> drop_table_ok E \<Longrightarrow> OnAttack E sid x w \<noteq> Inl c"
  using OnAttack_Inr [of w E sid x] by auto

lemma handle_crash:
  assumes "members_ok w" and "drop_table_ok E" and "handle E sid p w = Inl c"
  shows "c = InvalidParameter \<or> c = Unterminated"
proof -
  have create: "c = InvalidParameter \<or> c = Unterminated" if "OnCharCreate E sid x w = Inl c" for x
    using that char_list_crash by (auto simp: OnCharCreate_def Let_def split: prod.splits if_splits)
  show ?thesis
    using assms(3) login_crash [of E sid _ w c] create char_list_crash [of E sid w c] attack_safe [OF assms(1,2)]
    by (cases p) (auto simp: OnCharList_def OnShopBuy_Inl_iff OnShopSell_Inl_iff)
qed

text \<open>
  The packets whose handler prints a text of the packet that has no end: a chat message on one of the
  three channels, the name of a whisper's target, and the name in an invitation that is sent, which
  takes room in the inviter's party and another player of that name who is in none.
\<close>

definition prints_beyond :: "SessionId \<Rightarrow> cs_packet \<Rightarrow> 'd world \<Rightarrow> bool" where
  "prints_beyond sid p w \<longleftrightarrow> (case p of
     C_Chat chat \<Rightarrow> cch_channel chat \<in> {0, 1, 2} \<and> \<not> terminated (cch_message chat) \<or>
       cch_channel chat = 1 \<and> \<not> terminated (cch_targetName chat)
   | C_PartyInvite req \<Rightarrow> \<not> terminated (cpi_targetName req) \<and>
       (\<forall>pid ms. party_of w sid = Some pid \<and> party_at w pid = Some ms \<longrightarrow> length ms < MAX_PARTY) \<and>
       (\<exists>target. find_target w (cpi_targetName req) = Some target \<and> target \<noteq> sid \<and> party_of w target = None)
   | _ \<Rightarrow> False)"

lemma chat_log_endless: "\<not> list_all terminated (chat_log chat) \<longleftrightarrow> prints_beyond sid (C_Chat chat) w"
  by (auto simp: chat_log_def prints_beyond_def)

lemma invited_endless:
  "fst (try_invite sid req w) \<and> \<not> terminated (cpi_targetName req) \<longleftrightarrow> prints_beyond sid (C_PartyInvite req) w"
proof -
  have "find_target (ensure_party p w) n = find_target w n" for p n by (simp add: find_target_def)
  then show ?thesis
    by (auto simp: try_invite_def prints_beyond_def Let_def party_of_def party_at_def get_party_def om_get_def
        ensure_party_def new_party_def MAX_PARTY_def split: option.splits)
qed

lemma handle_safe_packets:
  assumes "members_ok w" and "drop_table_ok E" and "short_names E"
    and "\<nexists>x. p = C_Login x" and "p \<noteq> C_CharList" and "\<nexists>x. p = C_CharCreate x"
  shows "handle E sid p w = Inl c \<longleftrightarrow> prints_beyond sid p w \<and> c = Unterminated"
proof (cases p)
  case (C_Chat chat)
  then show ?thesis using chat_log_endless [of chat sid w] by simp
next
  case (C_PartyInvite req)
  then show ?thesis using invited_endless [of sid req w] by auto
qed (use assms(4-6) shop_never_crashes [OF assms(3)] attack_safe [OF assms(1,2)] in \<open>auto simp: prints_beyond_def\<close>)

subsection \<open>Reads are steps\<close>

lemma run_calls_steps:
  assumes "run_calls (HandlePacket E sid) calls w = Inr w'" and "live w sid"
    and "\<forall>(h, bs) \<in> set calls. length bs = MAX_RECV_BUFFER_SIZE - HEADER_SIZE"
  shows "(server_step E)\<^sup>*\<^sup>* w w' \<and> live w' sid"
  using assms
proof (induction calls arbitrary: w)
  case (Cons call calls)
  obtain h bs where call: "call = (h, bs)" by (cases call)
  from Cons.prems(1) obtain v where v: "HandlePacket E sid h bs w = Inr v"
    and rest: "run_calls (HandlePacket E sid) calls v = Inr w'"
    by (auto simp: call bind_result_Inr)
  have step: "server_step E w v"
    using Cons.prems(2,3) v by (intro server_step.packet [OF Cons.prems(2) _ v]) (auto simp: call)
  have "live v sid"
    using HandlePacket_handle [of E sid h bs w] v Cons.prems(2)
      same_sessions_live [OF ensuresD [OF handle_same_sessions]] by fastforce
  with Cons.IH [OF rest] Cons.prems(3) step show ?case by (auto intro: converse_rtranclp_into_rtranclp)
qed simp

lemma ReadDone_steps:
  assumes "sessions_inv n w" and "GetSession w sid = Some s"
    and "read_fits (s_recvSize s) bytes" and "ReadDone E sid bytes w = Some (Inr w')"
  shows "(server_step E)\<^sup>*\<^sup>* w w'"
proof -
  have buf: "length (s_recvBuffer s) = MAX_RECV_BUFFER_SIZE" "s_recvSize s \<le> MAX_RECV_BUFFER_SIZE"
    using assms(1,2) by (simp_all add: sessions_inv_iff)
  then have fits: "s_recvSize s + length bytes \<le> length (s_recvBuffer s)"
    using assms(3) by (simp add: read_fits_def)
  obtain buf' k v where r: "OnReadComplete (HandlePacket E sid) bytes (s_recvBuffer s, s_recvSize s, w)
      = Some (Inr (buf', k, v))" and w': "w' = set_buffer sid buf' k v"
    using assms(2,4) by (auto simp: ReadDone_def split: option.splits sum.splits)
  from OnReadComplete_calls [OF r fits] obtain calls where "run_calls (HandlePacket E sid) calls w = Inr v"
      "\<forall>(h, bs) \<in> set calls. length bs = MAX_RECV_BUFFER_SIZE - HEADER_SIZE"
    using buf(1) by auto
  moreover have "live w sid" using assms(2) by (simp add: live_def)
  ultimately have "(server_step E)\<^sup>*\<^sup>* w v" using run_calls_steps by blast
  moreover have "server_step E v w'"
    using OnReadComplete_bounds [OF r fits] buf(1) unfolding w' by (intro server_step.buffered) simp_all
  ultimately show ?thesis by (rule rtranclp.rtrancl_into_rtrancl)
qed

text \<open>Four bytes are enough to keep the only thread of the server busy for ever.\<close>

lemma zero_length_hangs:
  assumes "GetSession w sid = Some s" and "s_recvSize s = 0" and "4 \<le> length bytes"
    and "lget PacketHeader_L bytes = \<lparr>ph_length = 0, ph_type = packet_code CS_HEARTBEAT\<rparr>"
  shows "ReadDone E sid bytes w = None"
proof -
  let ?buf = "bytes @ drop (length bytes) (s_recvBuffer s)"
  have hdr: "lget PacketHeader_L ?buf = \<lparr>ph_length = 0, ph_type = packet_code CS_HEARTBEAT\<rparr>"
    using lget_header_append [of bytes "drop (length bytes) (s_recvBuffer s)"] assms(3,4)
    by (simp add: HEADER_SIZE_def)
  have "ProcessBuffer (HandlePacket E sid) ?buf (length bytes) w = None"
    by (rule ProcessBuffer_zero_diverges)
      (use assms(3) in \<open>simp_all add: hdr HandlePacket_known HEADER_SIZE_def del: packet_code.simps\<close>)
  then show ?thesis
    using assms(1,2) by (simp add: ReadDone_def OnReadComplete_def)
qed

end
