(* ===== verification/Client.thy ===== *)
theory Client
  imports Framing Ordered_Map Decimal
begin

text \<open>
  The state of the game client and what it draws: the globals of \<open>GameClient/main.cpp\<close>, the
  screen of the character selection and the game screen. What the program prints is the field
  \<open>c_screen\<close>, everything since the console was last cleared. The game screen reads three arrays up
  to a count the server sent; a count beyond the array is an access out of bounds.
\<close>

subsection \<open>Globals\<close>

definition CLIENT_MAP_SIZE :: nat where
  "CLIENT_MAP_SIZE = 20"

definition MAX_CHAT_LOG :: nat where
  "MAX_CHAT_LOG = 5"

definition MAX_SHOP_ITEMS :: nat where
  "MAX_SHOP_ITEMS = 10"

definition CLIENT_QUEST_NPC_X :: i16 where
  "CLIENT_QUEST_NPC_X = 2"

definition CLIENT_QUEST_NPC_Y :: i16 where
  "CLIENT_QUEST_NPC_Y = 2"

datatype GameState = Login | CharSelect | InGame

record CharEntry =
  ce_charUid :: u64
  ce_name :: string
  ce_charType :: u8
  ce_level :: u16

record ClientPlayer =
  me_uid :: u64
  me_posX :: i16
  me_posY :: i16
  me_level :: u16
  me_hp :: u16
  me_maxHp :: u16
  me_atk :: u16
  me_def :: u16
  me_exp :: u32
  me_maxExp :: u32
  me_gold :: u64

definition new_client_player :: ClientPlayer where
  "new_client_player = \<lparr>me_uid = 0, me_posX = 10, me_posY = 10, me_level = 1, me_hp = 100,
     me_maxHp = 100, me_atk = 15, me_def = 5, me_exp = 0, me_maxExp = 100, me_gold = 0\<rparr>"

record AttendanceState =
  att_todayAttended :: bool
  att_rewardGold :: u32

record OtherPlayer =
  op_uid :: u64
  op_name :: string
  op_posX :: i16
  op_posY :: i16

record ClientNpc =
  cn_uid :: u64
  cn_posX :: i16
  cn_posY :: i16
  cn_hp :: u16
  cn_maxHp :: u16

record ClientSlot =
  csl_itemId :: u16
  csl_name :: string

record ShopItem =
  shi_itemId :: u16
  shi_name :: string
  shi_price :: u32

record QuestEntry =
  qen_questId :: u16
  qen_name :: string
  qen_status :: u8
  qen_progress :: u16
  qen_target :: u16

record ClientMember =
  cm_charUid :: u64
  cm_name :: string
  cm_hp :: u16
  cm_maxHp :: u16
  cm_posX :: i16
  cm_posY :: i16

record client =
  c_gameState :: GameState
  c_accountUid :: u64
  c_charList :: "CharEntry list"
  c_myPlayer :: ClientPlayer
  c_attendance :: AttendanceState
  c_otherPlayers :: "(u64, OtherPlayer) omap"
  c_npcs :: "(u64, ClientNpc) omap"
  c_lastMsg :: string
  c_chatLog :: "string list"
  c_inventory :: "ClientSlot list"
  c_showInventory :: bool
  c_equippedWeapon :: string
  c_equippedArmor :: string
  c_shopItems :: "ShopItem list"
  c_shopCount :: nat
  c_showShop :: bool
  c_questEntries :: "QuestEntry list"
  c_questCount :: nat
  c_showQuestList :: bool
  c_partyMembers :: "ClientMember list"
  c_partyCount :: nat
  c_pendingInvite :: bool
  c_inviterName :: string
  c_screen :: string

definition new_client :: client where
  "new_client = \<lparr>c_gameState = Login, c_accountUid = 0, c_charList = [], c_myPlayer = new_client_player,
     c_attendance = \<lparr>att_todayAttended = False, att_rewardGold = 0\<rparr>, c_otherPlayers = [], c_npcs = [],
     c_lastMsg = [], c_chatLog = [],
     c_inventory = replicate MAX_INVENTORY \<lparr>csl_itemId = 0, csl_name = []\<rparr>,
     c_showInventory = False, c_equippedWeapon = [], c_equippedArmor = [],
     c_shopItems = replicate MAX_SHOP_ITEMS \<lparr>shi_itemId = 0, shi_name = [], shi_price = 0\<rparr>,
     c_shopCount = 0, c_showShop = False,
     c_questEntries = replicate MAX_QUEST_LIST
       \<lparr>qen_questId = 0, qen_name = [], qen_status = 0, qen_progress = 0, qen_target = 0\<rparr>,
     c_questCount = 0, c_showQuestList = False,
     c_partyMembers = replicate MAX_PARTY
       \<lparr>cm_charUid = 0, cm_name = [], cm_hp = 0, cm_maxHp = 0, cm_posX = 0, cm_posY = 0\<rparr>,
     c_partyCount = 0, c_pendingInvite = False, c_inviterName = [], c_screen = []\<rparr>"

subsection \<open>Printing\<close>

definition endl :: string where
  "endl = [CHR 0x0A]"

definition print_out :: "string \<Rightarrow> client \<Rightarrow> client" where
  "print_out t s = s\<lparr>c_screen := c_screen s @ t\<rparr>"

definition num :: "'a::len word \<Rightarrow> string" where
  "num x = dec (unat x)"

definition char_line :: "nat \<Rightarrow> CharEntry \<Rightarrow> string" where
  "char_line i e = dec (i + 1) @ ''. '' @ ce_name e @ '' (Lv.'' @ num (ce_level e) @ '', Type ''
     @ num (ce_charType e) @ '')'' @ endl"

definition DrawCharSelect :: "client \<Rightarrow> client" where
  "DrawCharSelect s = s\<lparr>c_screen :=
     ''=== Character Select ==='' @ endl @ ''Account: '' @ num (c_accountUid s) @ endl @ endl
     @ (if c_charList s = [] then ''No characters found.'' @ endl
        else concat (map (\<lambda>i. char_line i (c_charList s ! i)) [0..<length (c_charList s)]))
     @ endl @ ''C = Create New Character'' @ endl @ ''1-5 = Select Character'' @ endl @ ''Q = Quit'' @ endl
     @ (if c_lastMsg s \<noteq> [] then endl @ c_lastMsg s @ endl else [])\<rparr>"

subsection \<open>The map\<close>

text \<open>One cell: the player, the quest NPC, another player, an NPC, or nothing.\<close>

definition map_cell :: "client \<Rightarrow> nat \<Rightarrow> nat \<Rightarrow> char" where
  "map_cell s y x =
     (if int x = sint (me_posX (c_myPlayer s)) \<and> int y = sint (me_posY (c_myPlayer s)) then CHR ''@''
      else if int x = sint CLIENT_QUEST_NPC_X \<and> int y = sint CLIENT_QUEST_NPC_Y then CHR ''Q''
      else if list_ex (\<lambda>(uid, p). sint (op_posX p) = int x \<and> sint (op_posY p) = int y) (c_otherPlayers s)
        then CHR ''P''
      else if list_ex (\<lambda>(uid, npc). sint (cn_posX npc) = int x \<and> sint (cn_posY npc) = int y) (c_npcs s)
        then CHR ''N''
      else CHR ''.'')"

definition map_row :: "client \<Rightarrow> nat \<Rightarrow> string" where
  "map_row s y = ''|'' @ map (map_cell s y) [0..<CLIENT_MAP_SIZE] @ ''|'' @ endl"

definition map_border :: string where
  "map_border = ''+'' @ replicate CLIENT_MAP_SIZE (CHR ''-'') @ ''+'' @ endl"

definition map_text :: "client \<Rightarrow> string" where
  "map_text s = map_border @ concat (map (map_row s) [0..<CLIENT_MAP_SIZE]) @ map_border"

subsection \<open>Below the map\<close>

definition status_text :: "client \<Rightarrow> string" where
  "status_text s = (let me = c_myPlayer s in
     ''Lv.'' @ num (me_level me) @ '' | HP:'' @ num (me_hp me) @ ''/'' @ num (me_maxHp me)
     @ '' | ATK:'' @ num (me_atk me) @ '' DEF:'' @ num (me_def me) @ endl
     @ ''EXP: '' @ num (me_exp me) @ ''/'' @ num (me_maxExp me) @ '' | Gold: '' @ num (me_gold me)
     @ '' | NPCs:'' @ dec (length (c_npcs s)) @ '' Players:'' @ dec (length (c_otherPlayers s) + 1) @ endl)"

definition players_text :: "client \<Rightarrow> string" where
  "players_text s = concat (map (\<lambda>(uid, p). if op_name p \<noteq> []
     then ''  [P] '' @ op_name p @ '' ('' @ dec_int (sint (op_posX p)) @ '','' @ dec_int (sint (op_posY p)) @ '')'' @ endl
     else []) (c_otherPlayers s))"

definition messages_text :: "client \<Rightarrow> string" where
  "messages_text s =
     (if \<not> att_todayAttended (c_attendance s)
      then ''[T] Attendance Check (+'' @ num (att_rewardGold (c_attendance s)) @ '' Gold)'' @ endl else [])
     @ (if c_lastMsg s \<noteq> [] then c_lastMsg s @ endl else [])
     @ concat (map (\<lambda>line. line @ endl) (c_chatLog s))"

definition equipped_or_none :: "string \<Rightarrow> string" where
  "equipped_or_none name = (if name \<noteq> [] then name else ''None'')"

definition inventory_text :: "client \<Rightarrow> string" where
  "inventory_text s =
     ''--- Inventory (U=Use E=Equip X=Sell ESC=Close) ---'' @ endl
     @ '' [Weapon] '' @ equipped_or_none (c_equippedWeapon s) @ endl
     @ '' [Armor]  '' @ equipped_or_none (c_equippedArmor s) @ endl
     @ concat (map (\<lambda>i. if csl_itemId (c_inventory s ! i) \<noteq> 0
         then '' '' @ dec i @ '': '' @ csl_name (c_inventory s ! i) @ endl else []) [0..<MAX_INVENTORY])
     @ ''-------------------------------------------'' @ endl"

definition shop_text :: "client \<Rightarrow> string" where
  "shop_text s =
     ''--- Shop (1-9=Buy S+slot=Sell ESC=Close) ---'' @ endl
     @ concat (map (\<lambda>i. '' '' @ dec (i + 1) @ '': '' @ shi_name (c_shopItems s ! i) @ '' (''
         @ num (shi_price (c_shopItems s ! i)) @ ''G)'' @ endl) [0..<c_shopCount s])
     @ ''-------------------------------------------'' @ endl"

definition party_text :: "client \<Rightarrow> string" where
  "party_text s = ''[Party] '' @ concat (map (\<lambda>i. (if 0 < i then '' | '' else [])
     @ cm_name (c_partyMembers s ! i) @ '' HP:'' @ num (cm_hp (c_partyMembers s ! i)) @ ''/''
     @ num (cm_maxHp (c_partyMembers s ! i))) [0..<c_partyCount s]) @ endl"

definition quest_state_text :: "QuestEntry \<Rightarrow> string" where
  "quest_state_text q =
     (if qen_status q = 0 then '' [Available]''
      else if qen_status q = 1 then '' ['' @ num (qen_progress q) @ ''/'' @ num (qen_target q) @ '' In Progress]''
      else if qen_status q = 2 then '' ['' @ num (qen_progress q) @ ''/'' @ num (qen_target q) @ '' Complete!]''
      else if qen_status q = 3 then '' [Completed]'' else [])"

definition quest_list_text :: "client \<Rightarrow> string" where
  "quest_list_text s =
     ''--- Quests (1-9=Accept/Complete ESC=Close) ---'' @ endl
     @ concat (map (\<lambda>i. let q = c_questEntries s ! i in '' '' @ dec (i + 1) @ ''. '' @ qen_name q @ '' (Kill ''
         @ num (qen_target q) @ '')'' @ quest_state_text q @ endl) [0..<c_questCount s])
     @ ''-----------------------------------------------'' @ endl"

definition tracker_line :: "QuestEntry \<Rightarrow> string" where
  "tracker_line q =
     (let head = ''[Quest] '' @ qen_name q @ '': '' @ num (qen_progress q) @ ''/'' @ num (qen_target q)
      in if qen_status q = 1 then head @ endl
         else if qen_status q = 2 then head @ '' COMPLETE!'' @ endl else [])"

definition tracker_text :: "client \<Rightarrow> string" where
  "tracker_text s = concat (map (\<lambda>i. tracker_line (c_questEntries s ! i)) [0..<c_questCount s])"

definition invite_text :: "client \<Rightarrow> string" where
  "invite_text s = ''*** '' @ c_inviterName s @ '' invited you to party! (Y=Accept N=Reject) ***'' @ endl"

definition help_text :: string where
  "help_text = ''@ = You, P = Other Player, N = NPC, Q = Quest NPC'' @ endl
     @ ''WASD=Move SPACE=Attack I=Inventory B=Shop J=Quest P=Party T=Attendance ENTER=Chat Q=Quit'' @ endl"

definition game_text :: "client \<Rightarrow> string" where
  "game_text s =
     map_text s @ status_text s @ players_text s @ messages_text s
     @ (if c_showInventory s then inventory_text s else [])
     @ (if c_showShop s then shop_text s else [])
     @ (if 0 < c_partyCount s then party_text s else [])
     @ (if c_pendingInvite s then invite_text s else [])
     @ (if c_showQuestList s then quest_list_text s else [])
     @ tracker_text s @ help_text"

text \<open>The loops over the shop, the party and the quests run to the count, whatever it is.\<close>

definition draw_in_bounds :: "client \<Rightarrow> bool" where
  "draw_in_bounds s \<longleftrightarrow> (c_showShop s \<longrightarrow> c_shopCount s \<le> MAX_SHOP_ITEMS) \<and>
     c_partyCount s \<le> MAX_PARTY \<and> c_questCount s \<le> MAX_QUEST_LIST"

definition DrawMap :: "client \<Rightarrow> client result" where
  "DrawMap s = (if draw_in_bounds s then Inr (s\<lparr>c_screen := game_text s\<rparr>) else Inl OutOfBounds)"

text \<open>How most handlers end.\<close>

definition redraw :: "client \<Rightarrow> client result" where
  "redraw s = (if c_gameState s = InGame then DrawMap s else Inr s)"

end
