(* ===== verification/Client_Handlers.thy ===== *)
theory Client_Handlers
  imports Client
begin

text \<open>
  The packet handlers of \<open>GameClient/main.cpp\<close>, under the names of the source with the prefix
  \<open>cl_\<close>, and the table \<open>main\<close> fills. A handler maps the decoded struct and the client's state to
  the new state or to the way the client goes down: a count beyond an array, a text without its
  terminator, a name too long for the array it is copied to.
\<close>

subsection \<open>Texts of a packet\<close>

text \<open>
  A text of a packet is what its \<open>n\<close>-byte array holds before the first NUL. Without a NUL,
  \<open>std::string\<close> and \<open>operator<<\<close> run out of the array.
\<close>

definition c_text :: "nat \<Rightarrow> string \<Rightarrow> 'a result \<Rightarrow> 'a result" where
  "c_text n t r = (if length t < n then r else Inl Unterminated)"

text \<open>A loop over the first \<open>n\<close> elements of an array of a packet reads each of them.\<close>

definition array_take :: "nat \<Rightarrow> 'a list \<Rightarrow> 'a list result" where
  "array_take n xs = (if n \<le> length xs then Inr (take n xs) else Inl OutOfBounds)"

definition say :: "string \<Rightarrow> client \<Rightarrow> client" where
  "say t s = s\<lparr>c_lastMsg := t\<rparr>"

definition upd_me :: "(ClientPlayer \<Rightarrow> ClientPlayer) \<Rightarrow> client \<Rightarrow> client" where
  "upd_me f s = s\<lparr>c_myPlayer := f (c_myPlayer s)\<rparr>"

subsection \<open>Login and characters\<close>

definition cl_OnLoginResult :: "SC_LoginResult \<Rightarrow> client \<Rightarrow> client result" where
  "cl_OnLoginResult r s = c_text 64 (lr_message r)
     (Inr (print_out (''Login: '' @ lr_message r @ endl) (s\<lparr>c_accountUid := lr_accountUid r\<rparr>)))"

fun copy_entries :: "SC_CharListEntry list \<Rightarrow> CharEntry list result" where
  "copy_entries [] = Inr []"
| "copy_entries (e # es) = (case strncpy_s 20 (cle_name e) 20 of
     None \<Rightarrow> Inl InvalidParameter
   | Some name \<Rightarrow> bind_result (copy_entries es) (\<lambda>entries. Inr
       (\<lparr>ce_charUid = cle_charUid e, ce_name = name, ce_charType = cle_charType e, ce_level = cle_level e\<rparr>
        # entries)))"

definition cl_OnCharList :: "SC_CharList \<Rightarrow> client \<Rightarrow> client result" where
  "cl_OnCharList l s = bind_result (bind_result (array_take (min (unat (cl_count l)) 5) (cl_chars l)) copy_entries)
     (\<lambda>entries. Inr (DrawCharSelect (s\<lparr>c_charList := entries, c_gameState := CharSelect\<rparr>)))"

definition draw_if_selecting :: "client \<Rightarrow> client" where
  "draw_if_selecting s = (if c_gameState s = CharSelect then DrawCharSelect s else s)"

definition cl_OnCharCreateResult :: "SC_CharCreateResult \<Rightarrow> client \<Rightarrow> client result" where
  "cl_OnCharCreateResult r s =
     (if ccr_success r \<noteq> 0 then Inr (draw_if_selecting (say ''Character created!'' s))
      else c_text 32 (ccr_message r)
        (Inr (draw_if_selecting (say (''Create failed: '' @ ccr_message r) s))))"

definition own_info :: "SC_CharInfo \<Rightarrow> ClientPlayer \<Rightarrow> ClientPlayer" where
  "own_info info p = p\<lparr>me_level := ci_level info, me_exp := ci_exp info, me_posX := ci_posX info,
     me_posY := ci_posY info, me_hp := ci_hp info, me_maxHp := ci_maxHp info, me_gold := ci_gold info\<rparr>"

definition cl_OnCharInfo :: "SC_CharInfo \<Rightarrow> client \<Rightarrow> client result" where
  "cl_OnCharInfo info s =
     (if c_gameState s = CharSelect then
        DrawMap (upd_me (\<lambda>p. own_info info (p\<lparr>me_uid := ci_charUid info\<rparr>)) (s\<lparr>c_gameState := InGame\<rparr>))
      else if ci_charUid info = me_uid (c_myPlayer s) then DrawMap (upd_me (own_info info) s)
      else redraw (s\<lparr>c_otherPlayers := om_put (ci_charUid info)
             \<lparr>op_uid = ci_charUid info, op_name = ncopy 31 (ci_name info), op_posX = ci_posX info,
              op_posY = ci_posY info\<rparr> (c_otherPlayers s)\<rparr>))"

definition cl_OnCharLeave :: "SC_CharLeave \<Rightarrow> client \<Rightarrow> client result" where
  "cl_OnCharLeave l s =
     redraw (say ''A player left the game''
       (s\<lparr>c_otherPlayers := om_erase (clv_charUid l) (c_otherPlayers s)\<rparr>))"

subsection \<open>Movement and combat\<close>

definition cl_OnMoveResult :: "SC_MoveResult \<Rightarrow> client \<Rightarrow> client result" where
  "cl_OnMoveResult r s =
     (if mr_success r \<noteq> 0
      then DrawMap (say [] (upd_me (\<lambda>p. p\<lparr>me_posX := mr_posX r, me_posY := mr_posY r\<rparr>) s))
      else Inr s)"

definition cl_OnNpcSpawn :: "SC_NpcSpawn \<Rightarrow> client \<Rightarrow> client result" where
  "cl_OnNpcSpawn n s =
     redraw (s\<lparr>c_npcs := om_put (ns_npcUid n)
       \<lparr>cn_uid = ns_npcUid n, cn_posX = ns_posX n, cn_posY = ns_posY n, cn_hp = ns_hp n, cn_maxHp = ns_maxHp n\<rparr>
       (c_npcs s)\<rparr>)"

definition cl_OnNpcDeath :: "SC_NpcDeath \<Rightarrow> client \<Rightarrow> client result" where
  "cl_OnNpcDeath d s =
     redraw (upd_me (\<lambda>p. p\<lparr>me_gold := me_gold p + ucast (nd_goldReward d)\<rparr>)
       (say (''NPC defeated! +'' @ num (nd_expReward d) @ '' EXP +'' @ num (nd_goldReward d) @ '' Gold'')
         (s\<lparr>c_npcs := om_erase (nd_npcUid d) (c_npcs s)\<rparr>)))"

definition cl_OnAttackResult :: "SC_AttackResult \<Rightarrow> client \<Rightarrow> client result" where
  "cl_OnAttackResult r s =
     DrawMap (if ar_success r \<noteq> 0 then
        (let s1 = say (''Hit! Damage:'' @ num (ar_damage r) @ '' NPC HP:'' @ num (ar_targetHp r)) s
         in case map_of (c_npcs s1) (ar_targetUid r) of
              None \<Rightarrow> s1
            | Some npc \<Rightarrow> s1\<lparr>c_npcs := om_put (ar_targetUid r) (npc\<lparr>cn_hp := ar_targetHp r\<rparr>) (c_npcs s1)\<rparr>)
      else say ''No target nearby!'' s)"

definition cl_OnExpUpdate :: "SC_ExpUpdate \<Rightarrow> client \<Rightarrow> client result" where
  "cl_OnExpUpdate e s = Inr (upd_me (\<lambda>p. p\<lparr>me_exp := eu_exp e, me_maxExp := eu_maxExp e\<rparr>) s)"

definition cl_OnLevelUp :: "SC_LevelUp \<Rightarrow> client \<Rightarrow> client result" where
  "cl_OnLevelUp l s =
     DrawMap (say (''*** LEVEL UP! Lv.'' @ num (lu_level l) @ '' ***'')
       (upd_me (\<lambda>p. p\<lparr>me_level := lu_level l, me_hp := lu_hp l, me_maxHp := lu_maxHp l,
          me_atk := lu_atk l, me_def := lu_def l\<rparr>) s))"

definition cl_OnHeartbeat :: "client \<Rightarrow> client result" where
  "cl_OnHeartbeat s = Inr s"

subsection \<open>Attendance\<close>

definition cl_OnAttendanceInfo :: "SC_AttendanceInfo \<Rightarrow> client \<Rightarrow> client result" where
  "cl_OnAttendanceInfo info s =
     redraw (s\<lparr>c_attendance := \<lparr>att_todayAttended = (ai_todayAttended info \<noteq> 0),
       att_rewardGold = ai_rewardGold info\<rparr>\<rparr>)"

definition cl_OnAttendanceResult :: "SC_AttendanceResult \<Rightarrow> client \<Rightarrow> client result" where
  "cl_OnAttendanceResult r s =
     redraw (if atr_success r \<noteq> 0 then
         say (''Attendance checked! +'' @ num (atr_rewardGold r) @ '' Gold'')
           (upd_me (\<lambda>p. p\<lparr>me_gold := me_gold p + ucast (atr_rewardGold r)\<rparr>)
             (s\<lparr>c_attendance := c_attendance s\<lparr>att_todayAttended := True\<rparr>\<rparr>))
       else say ''Already attended today!'' s)"

subsection \<open>Items\<close>

definition set_item :: "u8 \<Rightarrow> u16 \<Rightarrow> string \<Rightarrow> client \<Rightarrow> client result" where
  "set_item slot itemId name s =
     (if unat slot < MAX_INVENTORY
      then bind_result (array_put (c_inventory s) (unat slot) \<lparr>csl_itemId = itemId, csl_name = name\<rparr>)
             (\<lambda>slots. Inr (s\<lparr>c_inventory := slots\<rparr>))
      else Inr s)"

definition cl_OnItemDrop :: "SC_ItemDrop \<Rightarrow> client \<Rightarrow> client result" where
  "cl_OnItemDrop d s = c_text 32 (idr_itemName d)
     (bind_result (set_item (idr_slot d) (idr_itemId d) (ncopy 31 (idr_itemName d)) s) (\<lambda>s1.
       redraw (say (''Dropped: '' @ idr_itemName d @ '' [slot '' @ num (idr_slot d) @ '']'') s1)))"

definition cl_OnItemUseResult :: "SC_ItemUseResult \<Rightarrow> client \<Rightarrow> client result" where
  "cl_OnItemUseResult r s = c_text 20 (iur_charName r) (c_text 32 (iur_itemName r)
     (redraw (say (iur_charName r @ '' used '' @ iur_itemName r @ '' (+'' @ num (iur_effectValue r) @ '' HP)'') s)))"

definition cl_OnEquipResult :: "SC_EquipResult \<Rightarrow> client \<Rightarrow> client result" where
  "cl_OnEquipResult r s =
     (if eqr_success r \<noteq> 0 then
        redraw (say (''Equipped! ATK:'' @ num (eqr_atk r) @ '' DEF:'' @ num (eqr_def r))
          ((upd_me (\<lambda>p. p\<lparr>me_atk := eqr_atk r, me_def := eqr_def r\<rparr>) s)
             \<lparr>c_equippedWeapon := ncopy 31 (eqr_weaponName r), c_equippedArmor := ncopy 31 (eqr_armorName r)\<rparr>))
      else c_text 32 (eqr_message r) (redraw (say (eqr_message r) s)))"

definition put_update :: "SC_InventoryUpdate \<Rightarrow> client \<Rightarrow> client result" where
  "put_update u s = set_item (iu_slot u) (iu_itemId u)
     (if iu_itemId u \<noteq> 0 then ncopy 31 (iu_itemName u) else []) s"

definition cl_OnInventoryUpdate :: "SC_InventoryUpdate \<Rightarrow> client \<Rightarrow> client result" where
  "cl_OnInventoryUpdate u s = bind_result (put_update u s) redraw"

definition cl_OnInventoryList :: "SC_InventoryList \<Rightarrow> client \<Rightarrow> client result" where
  "cl_OnInventoryList l s =
     bind_result (array_take (min (unat (il_count l)) MAX_INVENTORY) (il_items l)) (\<lambda>items.
     bind_result (fold_result put_update items s) redraw)"

subsection \<open>Shop\<close>

text \<open>Both arrays have ten elements; the loop runs to the count of the packet.\<close>

definition cl_shop_item :: "SC_ShopEntry \<Rightarrow> ShopItem" where
  "cl_shop_item e = \<lparr>shi_itemId = she_itemId e, shi_name = ncopy 31 (she_itemName e), shi_price = she_price e\<rparr>"

definition cl_OnShopList :: "SC_ShopList \<Rightarrow> client \<Rightarrow> client result" where
  "cl_OnShopList l s = (let n = unat (shl_count l) in
     if MAX_SHOP_ITEMS < n then Inl OutOfBounds
     else redraw (s\<lparr>c_shopCount := n,
       c_shopItems := map cl_shop_item (take n (shl_items l)) @ drop n (c_shopItems s), c_showShop := True\<rparr>))"

definition cl_OnShopResult :: "SC_ShopResult \<Rightarrow> client \<Rightarrow> client result" where
  "cl_OnShopResult r s = c_text 32 (shr_message r)
     (redraw (say (if shr_success r = 1
          then ''Bought: '' @ shr_message r @ '' (Gold:'' @ num (shr_remainGold r) @ '')''
        else if shr_success r = 2
          then ''Sold: '' @ shr_message r @ '' (Gold:'' @ num (shr_remainGold r) @ '')''
        else ''Shop: '' @ shr_message r)
       (upd_me (\<lambda>p. p\<lparr>me_gold := shr_remainGold r\<rparr>) s)))"

subsection \<open>Quests\<close>

definition cl_quest_entry :: "SC_QuestEntry \<Rightarrow> QuestEntry" where
  "cl_quest_entry e = \<lparr>qen_questId = qe_questId e, qen_name = ncopy 31 (qe_name e), qen_status = qe_status e,
     qen_progress = qe_progress e, qen_target = qe_target e\<rparr>"

definition cl_OnQuestListResult :: "SC_QuestList \<Rightarrow> client \<Rightarrow> client result" where
  "cl_OnQuestListResult l s = (let n = unat (ql_count l) in
     if MAX_QUEST_LIST < n then Inl OutOfBounds
     else redraw (s\<lparr>c_questCount := n,
       c_questEntries := map cl_quest_entry (take n (ql_quests l)) @ drop n (c_questEntries s),
       c_showQuestList := True\<rparr>))"

text \<open>The first of the listed quests with an id.\<close>

fun upd_first :: "('a \<Rightarrow> bool) \<Rightarrow> ('a \<Rightarrow> 'a) \<Rightarrow> 'a list \<Rightarrow> 'a list" where
  "upd_first P f [] = []"
| "upd_first P f (x # xs) = (if P x then f x # xs else x # upd_first P f xs)"

definition upd_quest :: "u16 \<Rightarrow> (QuestEntry \<Rightarrow> QuestEntry) \<Rightarrow> client \<Rightarrow> client" where
  "upd_quest questId f s = s\<lparr>c_questEntries :=
     upd_first (\<lambda>q. qen_questId q = questId) f (take (c_questCount s) (c_questEntries s))
     @ drop (c_questCount s) (c_questEntries s)\<rparr>"

definition cl_OnQuestAcceptResult :: "SC_QuestAcceptResult \<Rightarrow> client \<Rightarrow> client result" where
  "cl_OnQuestAcceptResult r s = c_text 64 (qar_message r)
     (redraw (if qar_success r \<noteq> 0
        then upd_quest (qar_questId r) (\<lambda>q. q\<lparr>qen_status := 1, qen_progress := 0\<rparr>) (say (qar_message r) s)
        else say (qar_message r) s))"

definition cl_OnQuestProgressUpdate :: "SC_QuestProgress \<Rightarrow> client \<Rightarrow> client result" where
  "cl_OnQuestProgressUpdate p s =
     redraw (say (''[Quest] Progress: '' @ num (qpr_progress p) @ ''/'' @ num (qpr_target p))
       (upd_quest (qpr_questId p)
         (\<lambda>q. q\<lparr>qen_progress := qpr_progress p, qen_target := qpr_target p,
            qen_status := (if qpr_target p \<le> qpr_progress p then 2 else qen_status q)\<rparr>) s))"

definition cl_OnQuestRewardResult :: "SC_QuestReward \<Rightarrow> client \<Rightarrow> client result" where
  "cl_OnQuestRewardResult r s = c_text 64 (qr_message r)
     (redraw (if qr_success r \<noteq> 0
        then say (qr_message r @ '' +'' @ num (qr_rewardGold r) @ ''G +'' @ num (qr_rewardExp r) @ ''EXP'')
               (upd_quest (qr_questId r) (\<lambda>q. q\<lparr>qen_status := 3\<rparr>) s)
        else say (qr_message r) s))"

subsection \<open>Parties\<close>

definition cl_OnPartyInviteRecv :: "SC_PartyInvite \<Rightarrow> client \<Rightarrow> client result" where
  "cl_OnPartyInviteRecv i s =
     redraw (s\<lparr>c_pendingInvite := True, c_inviterName := ncopy 19 (spi_inviterName i)\<rparr>)"

definition cl_party_member :: "SC_PartyMember \<Rightarrow> ClientMember" where
  "cl_party_member m = \<lparr>cm_charUid = pm_charUid m, cm_name = ncopy 19 (pm_name m), cm_hp = pm_hp m,
     cm_maxHp = pm_maxHp m, cm_posX = pm_posX m, cm_posY = pm_posY m\<rparr>"

text \<open>The copy stops at the array's end; the count that was sent is kept.\<close>

definition cl_OnPartyUpdateRecv :: "SC_PartyUpdate \<Rightarrow> client \<Rightarrow> client result" where
  "cl_OnPartyUpdateRecv u s = (let n = min (unat (pu_memberCount u)) MAX_PARTY in
     redraw (say (''Party updated ('' @ num (pu_memberCount u) @ '' members)'')
       (s\<lparr>c_partyCount := unat (pu_memberCount u),
          c_partyMembers := map cl_party_member (take n (pu_members u)) @ drop n (c_partyMembers s)\<rparr>)))"

definition cl_OnPartyLeaveRecv :: "SC_PartyLeave \<Rightarrow> client \<Rightarrow> client result" where
  "cl_OnPartyLeaveRecv l s =
     redraw (if pl_charUid l = 0 then say ''Party disbanded'' (s\<lparr>c_partyCount := 0\<rparr>)
       else say ''A member left the party'' s)"

subsection \<open>Chat and errors\<close>

definition chat_line :: "SC_Chat \<Rightarrow> string" where
  "chat_line c = (if sch_channel c = 0 then ''[World]'' else if sch_channel c = 2 then ''[Party]'' else ''[Whisper]'')
     @ '' '' @ sch_senderName c @ '': '' @ sch_message c"

definition push_chat :: "string \<Rightarrow> string list \<Rightarrow> string list" where
  "push_chat line log = (let log' = log @ [line] in if MAX_CHAT_LOG < length log' then tl log' else log')"

definition cl_OnChatMsg :: "SC_Chat \<Rightarrow> client \<Rightarrow> client result" where
  "cl_OnChatMsg c s = c_text 20 (sch_senderName c) (c_text 128 (sch_message c)
     (redraw (s\<lparr>c_chatLog := push_chat (chat_line c) (c_chatLog s)\<rparr>)))"

definition cl_OnError :: "SC_Error \<Rightarrow> client \<Rightarrow> client result" where
  "cl_OnError e s = c_text 64 (er_message e)
     (let s1 = say (''Error: '' @ er_message e) s
      in if c_gameState s1 = CharSelect then Inr (DrawCharSelect s1) else redraw s1)"

subsection \<open>The table of handlers\<close>

type_synonym client_handler = "PacketHeader \<Rightarrow> u8 list \<Rightarrow> client \<Rightarrow> client result"

text \<open>
  A handler copies its struct out of what is in the receive vector behind the header; when less
  than the struct is there, the copy leaves the vector.
\<close>

definition cl_reads :: "'a layout \<Rightarrow> ('a \<Rightarrow> client \<Rightarrow> client result) \<Rightarrow> client_handler" where
  "cl_reads L f header payload s =
     (if length payload < lsize L then Inl OutOfBounds else f (lget L payload) s)"

definition SetHandler :: "PacketType \<Rightarrow> 'h \<Rightarrow> (u16, 'h) omap \<Rightarrow> (u16, 'h) omap" where
  "SetHandler type handler handlers = om_put (packet_code type) handler handlers"

definition client_registered :: "(PacketType \<times> client_handler) list" where
  "client_registered =
    [(SC_LOGIN_RESULT, cl_reads SC_LoginResult_L cl_OnLoginResult),
     (SC_CHAR_LIST, cl_reads SC_CharList_L cl_OnCharList),
     (SC_CHAR_CREATE_RESULT, cl_reads SC_CharCreateResult_L cl_OnCharCreateResult),
     (SC_CHAR_INFO, cl_reads SC_CharInfo_L cl_OnCharInfo),
     (SC_CHAR_LEAVE, cl_reads SC_CharLeave_L cl_OnCharLeave),
     (SC_MOVE_RESULT, cl_reads SC_MoveResult_L cl_OnMoveResult),
     (SC_HEARTBEAT, \<lambda>header payload. cl_OnHeartbeat),
     (SC_NPC_SPAWN, cl_reads SC_NpcSpawn_L cl_OnNpcSpawn),
     (SC_NPC_DEATH, cl_reads SC_NpcDeath_L cl_OnNpcDeath),
     (SC_ATTACK_RESULT, cl_reads SC_AttackResult_L cl_OnAttackResult),
     (SC_EXP_UPDATE, cl_reads SC_ExpUpdate_L cl_OnExpUpdate),
     (SC_LEVEL_UP, cl_reads SC_LevelUp_L cl_OnLevelUp),
     (SC_ATTENDANCE_INFO, cl_reads SC_AttendanceInfo_L cl_OnAttendanceInfo),
     (SC_ATTENDANCE_RESULT, cl_reads SC_AttendanceResult_L cl_OnAttendanceResult),
     (SC_ERROR, cl_reads SC_Error_L cl_OnError),
     (SC_CHAT, cl_reads SC_Chat_L cl_OnChatMsg),
     (SC_ITEM_DROP, cl_reads SC_ItemDrop_L cl_OnItemDrop),
     (SC_ITEM_USE_RESULT, cl_reads SC_ItemUseResult_L cl_OnItemUseResult),
     (SC_EQUIP_RESULT, cl_reads SC_EquipResult_L cl_OnEquipResult),
     (SC_INVENTORY_UPDATE, cl_reads SC_InventoryUpdate_L cl_OnInventoryUpdate),
     (SC_INVENTORY_LIST, cl_reads SC_InventoryList_L cl_OnInventoryList),
     (SC_SHOP_LIST, cl_reads SC_ShopList_L cl_OnShopList),
     (SC_SHOP_RESULT, cl_reads SC_ShopResult_L cl_OnShopResult),
     (SC_QUEST_LIST, cl_reads SC_QuestList_L cl_OnQuestListResult),
     (SC_QUEST_ACCEPT_RESULT, cl_reads SC_QuestAcceptResult_L cl_OnQuestAcceptResult),
     (SC_QUEST_PROGRESS, cl_reads SC_QuestProgress_L cl_OnQuestProgressUpdate),
     (SC_QUEST_REWARD, cl_reads SC_QuestReward_L cl_OnQuestRewardResult),
     (SC_PARTY_INVITE, cl_reads SC_PartyInvite_L cl_OnPartyInviteRecv),
     (SC_PARTY_UPDATE, cl_reads SC_PartyUpdate_L cl_OnPartyUpdateRecv),
     (SC_PARTY_LEAVE, cl_reads SC_PartyLeave_L cl_OnPartyLeaveRecv)]"

definition client_handlers :: "(u16, client_handler) omap" where
  "client_handlers = fold (\<lambda>(type, handler). SetHandler type handler) client_registered []"

definition ClientPacket :: client_handler where
  "ClientPacket header payload s = (case map_of client_handlers (ph_type header) of
     None \<Rightarrow> Inr s
   | Some handler \<Rightarrow> handler header payload s)"

text \<open>What the client does with a packet of each kind.\<close>

fun cl_handle :: "sc_packet \<Rightarrow> client \<Rightarrow> client result" where
  "cl_handle (P_LoginResult x) s = cl_OnLoginResult x s"
| "cl_handle (P_CharList x) s = cl_OnCharList x s"
| "cl_handle (P_CharCreateResult x) s = cl_OnCharCreateResult x s"
| "cl_handle (P_CharInfo x) s = cl_OnCharInfo x s"
| "cl_handle (P_CharLeave x) s = cl_OnCharLeave x s"
| "cl_handle (P_MoveResult x) s = cl_OnMoveResult x s"
| "cl_handle P_Heartbeat s = cl_OnHeartbeat s"
| "cl_handle (P_NpcSpawn x) s = cl_OnNpcSpawn x s"
| "cl_handle (P_NpcDeath x) s = cl_OnNpcDeath x s"
| "cl_handle (P_AttackResult x) s = cl_OnAttackResult x s"
| "cl_handle (P_ExpUpdate x) s = cl_OnExpUpdate x s"
| "cl_handle (P_LevelUp x) s = cl_OnLevelUp x s"
| "cl_handle (P_AttendanceInfo x) s = cl_OnAttendanceInfo x s"
| "cl_handle (P_AttendanceResult x) s = cl_OnAttendanceResult x s"
| "cl_handle (P_Error x) s = cl_OnError x s"
| "cl_handle (P_Chat x) s = cl_OnChatMsg x s"
| "cl_handle (P_ItemDrop x) s = cl_OnItemDrop x s"
| "cl_handle (P_ItemUseResult x) s = cl_OnItemUseResult x s"
| "cl_handle (P_EquipResult x) s = cl_OnEquipResult x s"
| "cl_handle (P_InventoryUpdate x) s = cl_OnInventoryUpdate x s"
| "cl_handle (P_InventoryList x) s = cl_OnInventoryList x s"
| "cl_handle (P_ShopList x) s = cl_OnShopList x s"
| "cl_handle (P_ShopResult x) s = cl_OnShopResult x s"
| "cl_handle (P_QuestList x) s = cl_OnQuestListResult x s"
| "cl_handle (P_QuestAcceptResult x) s = cl_OnQuestAcceptResult x s"
| "cl_handle (P_QuestProgress x) s = cl_OnQuestProgressUpdate x s"
| "cl_handle (P_QuestReward x) s = cl_OnQuestRewardResult x s"
| "cl_handle (P_PartyInvite x) s = cl_OnPartyInviteRecv x s"
| "cl_handle (P_PartyUpdate x) s = cl_OnPartyUpdateRecv x s"
| "cl_handle (P_PartyLeave x) s = cl_OnPartyLeaveRecv x s"

lemma map_of_SetHandler [simp]:
  "map_of (SetHandler t h hs) c = (if c = packet_code t then Some h else map_of hs c)"
  by (simp add: SetHandler_def)

lemma ClientPacket_handle:
  assumes "sc_ok p" and "ph_type header = packet_code (sc_type p)"
  shows "ClientPacket header (sc_payload p @ rest) s = cl_handle p s"
  using assms
  by (cases p) (simp_all add: ClientPacket_def client_handlers_def client_registered_def cl_reads_def
      packed.get_put packed.length_put del: packet_code.simps)

subsection \<open>Arrays and counts\<close>

text \<open>The arrays keep their length and the counts stay within them.\<close>

definition client_ok :: "client \<Rightarrow> bool" where
  "client_ok s \<longleftrightarrow> length (c_inventory s) = MAX_INVENTORY \<and> length (c_shopItems s) = MAX_SHOP_ITEMS \<and>
     length (c_questEntries s) = MAX_QUEST_LIST \<and> length (c_partyMembers s) = MAX_PARTY \<and>
     c_shopCount s \<le> MAX_SHOP_ITEMS \<and> c_questCount s \<le> MAX_QUEST_LIST \<and> c_partyCount s \<le> MAX_PARTY \<and>
     length (c_chatLog s) \<le> MAX_CHAT_LOG \<and> length (c_charList s) \<le> 5"

text \<open>A message whose texts are terminated and whose counts fit the client's arrays.\<close>

fun sc_counts :: "sc_packet \<Rightarrow> bool" where
  "sc_counts (P_ShopList l) \<longleftrightarrow> unat (shl_count l) \<le> MAX_SHOP_ITEMS"
| "sc_counts (P_QuestList l) \<longleftrightarrow> unat (ql_count l) \<le> MAX_QUEST_LIST"
| "sc_counts (P_PartyUpdate u) \<longleftrightarrow> unat (pu_memberCount u) \<le> MAX_PARTY"
| "sc_counts p \<longleftrightarrow> True"

definition sc_safe :: "sc_packet \<Rightarrow> bool" where
  "sc_safe p \<longleftrightarrow> sc_ok p \<and> sc_counts p"

definition ends_ok :: "client result \<Rightarrow> bool" where
  "ends_ok r \<longleftrightarrow> (case r of Inl e \<Rightarrow> False | Inr s \<Rightarrow> client_ok s)"

lemma new_client_ok [simp]: "client_ok new_client"
  by (simp add: client_ok_def new_client_def)

lemma client_ok_screen [simp]: "client_ok (s\<lparr>c_screen := t\<rparr>) \<longleftrightarrow> client_ok s"
  by (simp add: client_ok_def)

lemma client_ok_me [simp]: "client_ok (upd_me f s) \<longleftrightarrow> client_ok s"
  by (simp add: client_ok_def upd_me_def)

lemma client_ok_say [simp]: "client_ok (say t s) \<longleftrightarrow> client_ok s"
  by (simp add: client_ok_def say_def)

lemma client_ok_print [simp]: "client_ok (print_out t s) \<longleftrightarrow> client_ok s"
  by (simp add: client_ok_def print_out_def)

lemma client_ok_fields [simp]:
  "client_ok (s\<lparr>c_gameState := g\<rparr>) \<longleftrightarrow> client_ok s" "client_ok (s\<lparr>c_accountUid := a\<rparr>) \<longleftrightarrow> client_ok s"
  "client_ok (s\<lparr>c_otherPlayers := b\<rparr>) \<longleftrightarrow> client_ok s" "client_ok (s\<lparr>c_npcs := d\<rparr>) \<longleftrightarrow> client_ok s"
  "client_ok (s\<lparr>c_attendance := e\<rparr>) \<longleftrightarrow> client_ok s" "client_ok (s\<lparr>c_pendingInvite := f\<rparr>) \<longleftrightarrow> client_ok s"
  "client_ok (s\<lparr>c_inviterName := t\<rparr>) \<longleftrightarrow> client_ok s" "client_ok (s\<lparr>c_showInventory := f\<rparr>) \<longleftrightarrow> client_ok s"
  "client_ok (s\<lparr>c_showShop := f\<rparr>) \<longleftrightarrow> client_ok s" "client_ok (s\<lparr>c_showQuestList := f\<rparr>) \<longleftrightarrow> client_ok s"
  "client_ok (s\<lparr>c_equippedWeapon := t\<rparr>) \<longleftrightarrow> client_ok s" "client_ok (s\<lparr>c_equippedArmor := t\<rparr>) \<longleftrightarrow> client_ok s"
  by (simp_all add: client_ok_def)

lemma client_ok_no_party [simp]: "client_ok s \<Longrightarrow> client_ok (s\<lparr>c_partyCount := 0\<rparr>)"
  by (simp add: client_ok_def)

lemma ends_ok_Inr [simp]: "ends_ok (Inr s) \<longleftrightarrow> client_ok s"
  by (simp add: ends_ok_def)

lemma ends_ok_bind: "ends_ok r \<Longrightarrow> (\<And>s. client_ok s \<Longrightarrow> ends_ok (f s)) \<Longrightarrow> ends_ok (bind_result r f)"
  by (cases r) (simp_all add: ends_ok_def)

lemma set_item_ok: "client_ok s \<Longrightarrow> ends_ok (set_item i tid name s)"
  by (simp add: client_ok_def ends_ok_def set_item_def array_put_def)

lemma array_take_ok: "n \<le> length xs \<Longrightarrow> ends_ok (f (take n xs)) \<Longrightarrow> ends_ok (bind_result (array_take n xs) f)"
  by (simp add: array_take_def)

lemma client_ok_draws: "client_ok s \<Longrightarrow> ends_ok (DrawMap s)"
  by (simp add: ends_ok_def DrawMap_def draw_in_bounds_def) (simp add: client_ok_def)

lemma client_ok_redraws: "client_ok s \<Longrightarrow> ends_ok (redraw s)"
  by (simp add: redraw_def client_ok_draws)

lemma c_text_ok: "length t < n \<Longrightarrow> ends_ok r \<Longrightarrow> ends_ok (c_text n t r)"
  by (simp add: c_text_def)

lemma client_ok_DrawCharSelect [simp]: "client_ok (DrawCharSelect s) \<longleftrightarrow> client_ok s"
  by (simp add: DrawCharSelect_def)

lemma client_ok_selecting [simp]: "client_ok (draw_if_selecting s) \<longleftrightarrow> client_ok s"
  by (simp add: draw_if_selecting_def)

lemma put_updates_ok: "client_ok s \<Longrightarrow> ends_ok (fold_result put_update us s)"
proof (induction us arbitrary: s)
  case (Cons u us)
  have "ends_ok (put_update u s)" using Cons.prems by (simp add: put_update_def set_item_ok)
  then show ?case using Cons.IH by (simp add: ends_ok_bind)
qed simp

lemma copy_entries_ok:
  "list_all (\<lambda>e. length (cle_name e) < 20) es \<Longrightarrow> \<exists>entries. copy_entries es = Inr entries \<and> length entries = length es"
proof (induction es)
  case (Cons e es)
  then obtain entries where "copy_entries es = Inr entries" "length entries = length es" by auto
  moreover have "length (cstr (cle_name e)) \<le> length (cle_name e)"
    unfolding cstr_def by (rule length_takeWhile_le)
  then have "length (take 20 (cstr (cle_name e))) < 20" using Cons.prems by simp
  ultimately show ?case by (auto simp: strncpy_s_def Let_def)
qed simp

lemma length_upd_first [simp]: "length (upd_first P f xs) = length xs"
  by (induction xs) auto

lemma client_ok_upd_quest [simp]: "client_ok s \<Longrightarrow> client_ok (upd_quest q f s)"
  by (simp add: upd_quest_def client_ok_def)

text \<open>Every handler of a safe message ends with the arrays and counts in order.\<close>

lemma cl_OnCharList_ok:
  assumes "client_ok s" and "lok SC_CharList_L l"
  shows "ends_ok (cl_OnCharList l s)"
proof -
  let ?es = "take (min (unat (cl_count l)) 5) (cl_chars l)"
  have "list_all (\<lambda>e. length (cle_name e) < 20) (cl_chars l)"
    using assms(2) by (auto simp: SC_CharList_L_def SC_CharListEntry_L_def list_all_iff)
  then have "list_all (\<lambda>e. length (cle_name e) < 20) ?es" by (auto simp: list_all_iff dest: in_set_takeD)
  then obtain entries where "copy_entries ?es = Inr entries" "length entries = length ?es"
    using copy_entries_ok by blast
  moreover have "array_take (min (unat (cl_count l)) 5) (cl_chars l) = Inr ?es"
    using assms(2) by (simp add: array_take_def SC_CharList_L_def)
  ultimately show ?thesis using assms(1) by (simp add: cl_OnCharList_def ends_ok_def) (simp add: client_ok_def)
qed

lemma cl_OnShopList_ok:
  "client_ok s \<Longrightarrow> lok SC_ShopList_L l \<Longrightarrow> unat (shl_count l) \<le> MAX_SHOP_ITEMS \<Longrightarrow> ends_ok (cl_OnShopList l s)"
  by (simp add: cl_OnShopList_def Let_def, rule client_ok_redraws)
    (simp add: client_ok_def SC_ShopList_L_def MAX_SHOP_ITEMS_def)

lemma cl_OnQuestListResult_ok:
  "client_ok s \<Longrightarrow> lok SC_QuestList_L l \<Longrightarrow> unat (ql_count l) \<le> MAX_QUEST_LIST \<Longrightarrow>
    ends_ok (cl_OnQuestListResult l s)"
  by (simp add: cl_OnQuestListResult_def Let_def, rule client_ok_redraws)
    (simp add: client_ok_def SC_QuestList_L_def MAX_QUEST_LIST_def)

lemma cl_OnPartyUpdateRecv_ok:
  "client_ok s \<Longrightarrow> lok SC_PartyUpdate_L u \<Longrightarrow> unat (pu_memberCount u) \<le> MAX_PARTY \<Longrightarrow>
    ends_ok (cl_OnPartyUpdateRecv u s)"
  by (simp add: cl_OnPartyUpdateRecv_def Let_def, rule client_ok_redraws)
    (simp, simp add: client_ok_def SC_PartyUpdate_L_def MAX_PARTY_def)

lemma push_chat_bound: "length log \<le> MAX_CHAT_LOG \<Longrightarrow> length (push_chat line log) \<le> MAX_CHAT_LOG"
  by (simp add: push_chat_def Let_def)

lemma cl_OnChatMsg_ok: "client_ok s \<Longrightarrow> lok SC_Chat_L c \<Longrightarrow> ends_ok (cl_OnChatMsg c s)"
  unfolding cl_OnChatMsg_def
  by (intro c_text_ok client_ok_redraws) (simp_all add: SC_Chat_L_def client_ok_def push_chat_bound)

lemma cl_OnItemDrop_ok: "client_ok s \<Longrightarrow> lok SC_ItemDrop_L d \<Longrightarrow> ends_ok (cl_OnItemDrop d s)"
  unfolding cl_OnItemDrop_def
  by (intro c_text_ok ends_ok_bind [OF set_item_ok] client_ok_redraws) (simp_all add: SC_ItemDrop_L_def)

lemma cl_OnInventoryUpdate_ok: "client_ok s \<Longrightarrow> ends_ok (cl_OnInventoryUpdate u s)"
  unfolding cl_OnInventoryUpdate_def put_update_def
  by (intro ends_ok_bind [OF set_item_ok] client_ok_redraws)

lemma cl_OnInventoryList_ok: "client_ok s \<Longrightarrow> lok SC_InventoryList_L l \<Longrightarrow> ends_ok (cl_OnInventoryList l s)"
  unfolding cl_OnInventoryList_def
  by (intro array_take_ok ends_ok_bind [OF put_updates_ok] client_ok_redraws)
    (simp_all add: SC_InventoryList_L_def MAX_INVENTORY_def)

lemma cl_handle_ok:
  assumes "client_ok s" and "sc_safe p"
  shows "ends_ok (cl_handle p s)"
proof (cases p)
  case (P_LoginResult x)
  then show ?thesis using assms
    by (auto simp: sc_safe_def cl_OnLoginResult_def SC_LoginResult_L_def intro!: c_text_ok)
next
  case (P_CharCreateResult x)
  then show ?thesis using assms
    by (auto simp: sc_safe_def cl_OnCharCreateResult_def SC_CharCreateResult_L_def intro!: c_text_ok)
next
  case (P_Error x)
  then show ?thesis using assms
    by (auto simp: sc_safe_def cl_OnError_def SC_Error_L_def Let_def intro!: c_text_ok client_ok_redraws)
qed (use assms in \<open>auto simp: sc_safe_def cl_OnCharList_ok cl_OnShopList_ok cl_OnQuestListResult_ok
       cl_OnPartyUpdateRecv_ok cl_OnChatMsg_ok cl_OnCharInfo_def cl_OnCharLeave_def cl_OnMoveResult_def
       cl_OnNpcSpawn_def cl_OnNpcDeath_def cl_OnAttackResult_def cl_OnExpUpdate_def cl_OnLevelUp_def
       cl_OnHeartbeat_def cl_OnAttendanceInfo_def cl_OnAttendanceResult_def cl_OnItemDrop_ok
       cl_OnItemUseResult_def cl_OnEquipResult_def cl_OnInventoryUpdate_ok cl_OnInventoryList_ok cl_OnShopResult_def cl_OnQuestAcceptResult_def
       cl_OnQuestProgressUpdate_def cl_OnQuestRewardResult_def cl_OnPartyInviteRecv_def
       cl_OnPartyLeaveRecv_def Let_def
       SC_ItemUseResult_L_def SC_EquipResult_L_def SC_ShopResult_L_def
       SC_QuestAcceptResult_L_def SC_QuestReward_L_def
     intro!: c_text_ok client_ok_redraws client_ok_draws split: option.split\<close>)

lemma run_packets_ok:
  assumes "client_ok s" and "list_all sc_safe ps"
  shows "\<exists>s'. run_packets cl_handle ps s = Inr s' \<and> client_ok s'"
  using assms
proof (induction ps arbitrary: s)
  case (Cons p ps)
  then obtain s1 where "cl_handle p s = Inr s1" "client_ok s1"
    using cl_handle_ok [of s p] by (auto simp: ends_ok_def split: sum.splits)
  with Cons show ?case by simp
qed simp

subsection \<open>Properties\<close>

text \<open>The client survives every sequence of well-formed messages whose counts fit its arrays: no
  handler leaves an array or a text, and the arrays keep their length and the counts stay within
  them.\<close>

theorem client_survives:
  assumes "client_ok s" and "list_all sc_safe ps"
  shows "\<exists>s'. run_packets cl_handle ps s = Inr s' \<and> client_ok s'"
  using assms by (rule run_packets_ok)

theorem client_survives_witness:
  "\<exists>s'. run_packets cl_handle [P_PartyLeave \<lparr>pl_charUid = 0\<rparr>, P_Chat \<lparr>sch_channel = 1, sch_senderName = ''Bob'',
     sch_message = ''hi''\<rparr>] new_client = Inr s' \<and> client_ok s'"
  by (rule client_survives [OF new_client_ok])
    (simp add: sc_safe_def SC_PartyLeave_L_def SC_Chat_L_def)

text \<open>A count beyond the array brings the client down.\<close>

theorem long_list_crashes:
  assumes "MAX_SHOP_ITEMS < unat (shl_count l)"
  shows "cl_handle (P_ShopList l) s = Inl OutOfBounds"
  using assms by (simp add: cl_OnShopList_def Let_def)

lemma length_rows: "(\<And>y. length (f y) = k) \<Longrightarrow> length (concat (map f [0..<n])) = n * k"
  by (induction n) simp_all

lemma nth_rows:
  assumes "\<And>y. length (f y) = k" and "y < n" and "x < k"
  shows "concat (map f [0..<n]) ! (k * y + x) = f y ! x"
  using assms(2)
proof (induction n)
  case (Suc n)
  have len: "length (concat (map f [0..<n])) = n * k" by (rule length_rows) (rule assms(1))
  show ?case
  proof (cases "y < n")
    case True
    have "k * y + x < k * Suc y" using assms(3) by simp
    also have "\<dots> \<le> k * n" using True by (intro mult_le_mono) simp_all
    finally show ?thesis using Suc.IH True len by (simp add: nth_append mult.commute)
  next
    case False
    then have "y = n" using Suc.prems by simp
    then show ?thesis using len assms(1,3) by (simp add: nth_append mult.commute)
  qed
qed simp

lemma length_map_row: "length (map_row s y) = 23"
  by (simp add: map_row_def CLIENT_MAP_SIZE_def endl_def)

lemma map_text_cell:
  assumes "x < CLIENT_MAP_SIZE" and "y < CLIENT_MAP_SIZE"
  shows "map_text s ! (23 * (y + 1) + 1 + x) = map_cell s y x"
proof -
  have border: "length map_border = 23" by (simp add: map_border_def CLIENT_MAP_SIZE_def endl_def)
  have "length (concat (map (map_row s) [0..<CLIENT_MAP_SIZE])) = 460"
    using length_rows [where f = "map_row s" and k = 23, OF length_map_row] by (simp add: CLIENT_MAP_SIZE_def)
  moreover have "23 * y + (1 + x) < 460" using assms by (simp add: CLIENT_MAP_SIZE_def)
  ultimately have "map_text s ! (23 + (23 * y + (1 + x)))
      = concat (map (map_row s) [0..<CLIENT_MAP_SIZE]) ! (23 * y + (1 + x))"
    by (simp only: map_text_def nth_append border) simp
  also have "\<dots> = map_row s y ! (1 + x)"
    using assms by (intro nth_rows [OF length_map_row]) (simp_all add: CLIENT_MAP_SIZE_def)
  also have "\<dots> = map_cell s y x" using assms(1) by (simp add: map_row_def nth_append)
  finally show ?thesis by (simp add: algebra_simps)
qed

text \<open>The map on the game screen shows the player where the player is, and nowhere else: of its twenty
  rows of twenty cells, laid out in the text behind the upper border with 23 characters to a row,
  exactly the cell of the player's position holds the player's mark.\<close>

theorem map_shows_player:
  assumes "sint (me_posX (c_myPlayer s)) = int px" and "sint (me_posY (c_myPlayer s)) = int py"
    and "x < CLIENT_MAP_SIZE" and "y < CLIENT_MAP_SIZE"
  shows "map_text s ! (23 * (y + 1) + 1 + x) = CHR ''@'' \<longleftrightarrow> x = px \<and> y = py"
  unfolding map_text_cell [OF assms(3,4)] using assms(1,2) by (auto simp: map_cell_def split: if_splits)

theorem map_shows_player_witness:
  "map_text new_client ! 264 = CHR ''@'' \<and> map_text new_client ! 265 \<noteq> CHR ''@''"
  using map_shows_player [of new_client 10 10 10 10] map_shows_player [of new_client 10 10 11 10]
  by (simp add: new_client_def new_client_player_def CLIENT_MAP_SIZE_def)

end
