(* ===== verification/Server_Messages.thy ===== *)
theory Server_Messages
  imports World_Invariant Client_Handlers
begin

text \<open>
  What the server sends. A message that is safe for the client and says nothing of the inventory or the NPCs is
  \<open>quiet\<close>; the locale \<open>message_invariant\<close> is the contract of a property of worlds that quiet messages,
  changes of players and changes of the other maps keep, and in it every handler that leaves the
  inventories and the NPCs alone is shown to keep the property. Its extensions add the contracts of
  the other operations. They are interpreted for the property that everything sent is safe, here, and
  for what the clients know of the inventories and the NPCs, in \<open>Mirror\<close> and \<open>Npc_Mirror\<close>.
\<close>

subsection \<open>Quiet messages\<close>

fun about_inventory :: "sc_packet \<Rightarrow> bool" where
  "about_inventory (P_ItemDrop d) \<longleftrightarrow> True"
| "about_inventory (P_InventoryUpdate u) \<longleftrightarrow> True"
| "about_inventory (P_InventoryList l) \<longleftrightarrow> True"
| "about_inventory p \<longleftrightarrow> False"

fun about_npcs :: "sc_packet \<Rightarrow> bool" where
  "about_npcs (P_NpcSpawn n) \<longleftrightarrow> True"
| "about_npcs (P_NpcDeath d) \<longleftrightarrow> True"
| "about_npcs p \<longleftrightarrow> False"

definition quiet :: "sc_packet \<Rightarrow> bool" where
  "quiet p \<longleftrightarrow> sc_safe p \<and> \<not> about_inventory p \<and> \<not> about_npcs p"

lemma ncopy_fits [simp]: "k < n \<Longrightarrow> length (ncopy k s) < n"
  using length_ncopy [of k s] by simp

lemma ncopy_nul [simp]: "CHR 0x00 \<notin> set (ncopy k s)"
  by (rule ncopy_no_nul)

lemmas struct_layouts = SC_LoginResult_L_def SC_CharListEntry_L_def SC_CharList_L_def SC_CharCreateResult_L_def
  SC_CharInfo_L_def SC_CharLeave_L_def SC_MoveResult_L_def SC_AttackResult_L_def SC_Error_L_def SC_NpcSpawn_L_def
  SC_NpcDeath_L_def SC_ExpUpdate_L_def SC_LevelUp_L_def SC_Chat_L_def SC_ItemDrop_L_def SC_ItemUseResult_L_def
  SC_EquipResult_L_def SC_InventoryUpdate_L_def SC_InventoryList_L_def SC_AttendanceInfo_L_def
  SC_AttendanceResult_L_def SC_ShopEntry_L_def SC_ShopList_L_def SC_ShopResult_L_def SC_QuestEntry_L_def
  SC_QuestList_L_def SC_QuestAcceptResult_L_def SC_QuestProgress_L_def SC_QuestReward_L_def SC_PartyInvite_L_def
  SC_PartyMember_L_def SC_PartyUpdate_L_def SC_PartyLeave_L_def

text \<open>Messages without a list, and with texts that are copied within bounds.\<close>

lemma quiet_infos [simp]:
  "quiet (P_CharInfo (own_char_info p))" "quiet (P_CharInfo (public_char_info p))"
  "quiet (P_CharLeave l)" "quiet (P_MoveResult m)"
  "quiet (P_AttackResult a)" "quiet (P_ExpUpdate e)" "quiet (P_LevelUp u)" "quiet (P_AttendanceInfo ai)"
  "quiet (P_AttendanceResult ar)" "quiet (P_QuestProgress q)" "quiet (P_PartyLeave pl)" "quiet P_Heartbeat"
  "quiet (P_Chat (chat_reply w sid chat))" "quiet (P_PartyInvite \<lparr>spi_inviterName = ncopy 19 name\<rparr>)"
  by (simp_all add: quiet_def sc_safe_def struct_layouts own_char_info_def public_char_info_def chat_reply_def)

lemma quiet_texts:
  assumes "length m < 64" and "CHR 0x00 \<notin> set m"
  shows "quiet (P_Error \<lparr>er_errorCode = c, er_message = m\<rparr>)"
    "quiet (P_LoginResult \<lparr>lr_success = a, lr_accountUid = b, lr_message = m\<rparr>)"
    "quiet (P_QuestAcceptResult \<lparr>qar_success = a, qar_questId = q, qar_message = m\<rparr>)"
    "quiet (P_QuestReward \<lparr>qr_success = a, qr_questId = q, qr_rewardGold = g, qr_rewardExp = x,
       qr_rewardItemId = t, qr_message = m\<rparr>)"
  using assms by (simp_all add: quiet_def sc_safe_def struct_layouts)

lemma quiet_short_texts:
  assumes "length m < 32" and "CHR 0x00 \<notin> set m"
  shows "quiet (P_CharCreateResult \<lparr>ccr_success = a, ccr_charUid = b, ccr_message = m\<rparr>)"
    "quiet (P_ShopResult \<lparr>shr_success = a, shr_itemId = t, shr_remainGold = g, shr_message = m\<rparr>)"
    "quiet (P_EquipResult \<lparr>eqr_success = a, eqr_slot = s, eqr_atk = k, eqr_def = d,
       eqr_weaponName = item_name_or_empty x, eqr_armorName = item_name_or_empty y, eqr_message = m\<rparr>)"
    "quiet (P_EquipResult \<lparr>eqr_success = a, eqr_slot = s, eqr_atk = k, eqr_def = d,
       eqr_weaponName = [], eqr_armorName = [], eqr_message = m\<rparr>)"
  using assms by (simp_all add: quiet_def sc_safe_def struct_layouts item_name_or_empty_def split: option.split)

lemma quiet_item_use [simp]:
  "quiet (P_ItemUseResult \<lparr>iur_charUid = c, iur_charName = ncopy 19 n, iur_itemName = ncopy 31 i,
     iur_effectType = t, iur_effectValue = v\<rparr>)"
  by (simp add: quiet_def sc_safe_def struct_layouts)

lemma safe_npc [simp]: "sc_safe (P_NpcSpawn n)" "sc_safe (P_NpcDeath d)"
  by (simp_all add: sc_safe_def struct_layouts)

text \<open>Messages with lists.\<close>

lemma strncpy_s_Some: "strncpy_s cap s n = Some t \<Longrightarrow> length t < cap \<and> CHR 0x00 \<notin> set t"
  using cstr_no_nul [of s] by (auto simp: strncpy_s_def Let_def split: if_splits dest: in_set_takeD)

lemma strcpy_s_Some: "strcpy_s cap s = Some t \<Longrightarrow> length t < cap \<and> CHR 0x00 \<notin> set t"
  using cstr_no_nul [of s] by (auto simp: strcpy_s_def Let_def split: if_splits)

lemma fetch_chars_ok:
  "fetch_chars rows es = Inr entries \<Longrightarrow> length es \<le> 5 \<Longrightarrow> list_all (lok SC_CharListEntry_L) es \<Longrightarrow>
    length entries \<le> 5 \<and> list_all (lok SC_CharListEntry_L) entries"
proof (induction rows es rule: fetch_chars.induct)
  case (2 charUid charName charType level xp rows es)
  then show ?case
    by (auto simp: SC_CharListEntry_L_def split: if_splits option.splits dest!: strncpy_s_Some)
qed simp

lemma quiet_char_list:
  assumes "fetch_chars rows [] = Inr entries"
  shows "quiet (P_CharList \<lparr>cl_count = n, cl_chars = entries @ replicate (5 - length entries) zero_SC_CharListEntry\<rparr>)"
  using fetch_chars_ok [OF assms]
  by (simp add: quiet_def sc_safe_def SC_CharList_L_def list_all_iff)
    (auto simp: zero_SC_CharListEntry_def SC_CharListEntry_L_def)

lemma quiet_shop_list:
  "quiet (P_ShopList \<lparr>shl_count = word_of_nat (min n 10),
     shl_items = map shop_entry (take (min n 10) items) @ replicate (10 - min n 10) zero_SC_ShopEntry\<rparr>)"
  if "n = length items"
  using that by (auto simp: quiet_def sc_safe_def struct_layouts list_all_iff shop_entry_def zero_SC_ShopEntry_def
      unat_of_nat MAX_SHOP_ITEMS_def min_def)

lemma quiet_quest_list:
  "quiet (P_QuestList \<lparr>ql_count = word_of_nat (min n MAX_QUEST_LIST),
     ql_quests = map (quest_entry qp) (take (min n MAX_QUEST_LIST) quests)
       @ replicate (MAX_QUEST_LIST - min n MAX_QUEST_LIST) zero_SC_QuestEntry\<rparr>)"
  if "n = length quests"
  using that by (auto simp: quiet_def sc_safe_def struct_layouts list_all_iff quest_entry_def Let_def
      zero_SC_QuestEntry_def unat_of_nat MAX_QUEST_LIST_def min_def)

lemma quiet_party_update:
  assumes "length (pt_members party) \<le> MAX_PARTY"
  shows "quiet (P_PartyUpdate (party_update w party))"
proof -
  have "lok SC_PartyMember_L (party_member w m)" for m
    by (simp add: party_member_def SC_PartyMember_L_def zero_SC_PartyMember_def Let_def split: option.split)
  moreover have "lok SC_PartyMember_L zero_SC_PartyMember"
    by (simp add: SC_PartyMember_L_def zero_SC_PartyMember_def)
  ultimately show ?thesis using assms
    by (simp add: quiet_def sc_safe_def SC_PartyUpdate_L_def party_update_def list_all_iff unat_of_nat MAX_PARTY_def)
      auto
qed

subsection \<open>Properties that quiet messages keep\<close>

lemma loggedIn_gain [simp]: "p_loggedIn (gain x g p) = p_loggedIn p"
  by (simp add: gain_def)

lemma loggedIn_level_ups: "level_ups p = (p', ups) \<Longrightarrow> p_loggedIn p' = p_loggedIn p"
  using level_ups_frame [of p] by simp

locale message_invariant =
  fixes good :: "'d world \<Rightarrow> bool"
  assumes good_send: "good w \<Longrightarrow> quiet p \<Longrightarrow> good (Send i p w)"
    and good_cast: "good w \<Longrightarrow> quiet p \<Longrightarrow> good (Broadcast p w)"
    and good_cast_except: "good w \<Longrightarrow> quiet p \<Longrightarrow> good (BroadcastExcept i p w)"
    and good_player: "good w \<Longrightarrow> p_loggedIn (f (GetPlayer w i)) = p_loggedIn (GetPlayer w i) \<Longrightarrow>
      good (upd_player i f w)"
    and good_other: "good w \<Longrightarrow> w_sessions w' = w_sessions w \<Longrightarrow> w_inventories w' = w_inventories w \<Longrightarrow>
      w_npcs w' = w_npcs w \<Longrightarrow> w_out w' = w_out w \<Longrightarrow> good w'"
begin

text \<open>The operations the handlers are made of.\<close>

lemmas good_sends = good_send good_cast good_cast_except good_player

lemma good_fields:
  assumes "good w"
  shows "good (w\<lparr>w_db := d\<rparr>)" "good (w\<lparr>w_rand := r\<rparr>)" "good (w\<lparr>w_nextNpcUid := u\<rparr>)"
    "good (w\<lparr>w_pendingInvites := m\<rparr>)" "good (w\<lparr>w_playerParty := pp\<rparr>)" "good (w\<lparr>w_parties := ps\<rparr>)"
    "good (set_qp sid qp w)" "good (ensure_qp sid w)" "good (set_progress sid q st w)"
    "good (SaveQuestProgress E c q1 s n w)" "good (ensure_party p w)" "good (RemoveItemFromDB E x w)"
    "good (EquipItemDB E c es x w)" "good (LoadQuestProgress E sid w)"
  by (rule good_other [OF assms]; simp)+

lemma good_fold: "good w \<Longrightarrow> (\<And>x w. x \<in> set xs \<Longrightarrow> good w \<Longrightarrow> good (f x w)) \<Longrightarrow> good (fold f xs w)"
  by (induction xs arbitrary: w) auto

lemma good_send_each: "good w \<Longrightarrow> quiet p \<Longrightarrow> good (send_each mids p w)"
  by (simp add: send_each_def good_fold good_sends)

text \<open>Players.\<close>

lemma good_SendCharInfo: "good w \<Longrightarrow> good (SendCharInfo sid w)"
  by (simp add: SendCharInfo_def good_sends)

lemma good_SendOtherPlayers: "good w \<Longrightarrow> good (SendOtherPlayers sid w)"
  by (auto simp: SendOtherPlayers_def Let_def ForEach_def intro!: good_fold good_sends)

lemma good_OnMove: "good w \<Longrightarrow> good (OnMove sid m w)"
  by (auto simp: OnMove_def Let_def intro!: good_sends)

lemma good_CheckLevelUp: "good w \<Longrightarrow> good (CheckLevelUp sid w)"
  by (auto simp: CheckLevelUp_def loggedIn_level_ups intro!: good_fold good_sends split: prod.split)

text \<open>Accounts.\<close>

lemma good_SendCharList: "good w \<Longrightarrow> SendCharList E sid w = Inr w' \<Longrightarrow> good w'"
  by (auto simp: SendCharList_def bind_result_Inr quiet_char_list intro!: good_sends good_fields split: prod.splits)

lemma good_OnLogin: "good w \<Longrightarrow> OnLogin E sid login w = Inr w' \<Longrightarrow> good w'"
  by (auto simp: OnLogin_def bind_result_Inr Let_def case_prod_beta split: if_split_asm
      elim!: good_SendCharList [rotated] intro!: good_sends good_fields quiet_texts)

lemma good_OnCharCreate: "good w \<Longrightarrow> OnCharCreate E sid req w = Inr w' \<Longrightarrow> good w'"
  by (auto simp: OnCharCreate_def Let_def split: prod.splits if_splits
      elim!: good_SendCharList [rotated] intro!: good_sends good_fields quiet_short_texts)

lemma good_SendAttendanceInfo: "good w \<Longrightarrow> good (SendAttendanceInfo E sid w)"
  by (auto simp: SendAttendanceInfo_def Let_def split: prod.splits intro!: good_sends good_fields)

lemma good_OnAttendanceCheck: "good w \<Longrightarrow> good (OnAttendanceCheck E sid w)"
  by (auto simp: OnAttendanceCheck_def Let_def split: prod.splits intro!: good_sends good_fields)

lemma good_OnHeartbeat: "good w \<Longrightarrow> good (OnHeartbeat sid w)"
  by (simp add: OnHeartbeat_def good_sends)

text \<open>Selecting a character, up to the inventory.\<close>

lemma good_fetch_name: "good w \<Longrightarrow> good (fetch_name E sid c w)"
  by (auto simp: fetch_name_def Let_def split: prod.splits option.splits list.splits intro!: good_sends good_fields)

text \<open>Shop list and quests.\<close>

lemma good_OnShopOpen: "good w \<Longrightarrow> good (OnShopOpen E sid w)"
  by (simp add: OnShopOpen_def Let_def good_sends quiet_shop_list)

lemma good_shop_refusal: "good w \<Longrightarrow> length m < 32 \<Longrightarrow> CHR 0x00 \<notin> set m \<Longrightarrow> good (shop_refusal sid m g w)"
  by (simp add: shop_refusal_def good_sends quiet_short_texts)

lemma good_OnQuestList: "good w \<Longrightarrow> good (OnQuestList E sid w)"
  by (simp add: OnQuestList_def Let_def good_sends good_fields quiet_texts quiet_quest_list)

lemma good_OnQuestAccept: "good w \<Longrightarrow> good (OnQuestAccept E sid req w)"
  by (auto simp: OnQuestAccept_def accept_result_def Let_def quiet_texts split: option.split
      intro!: good_sends good_fields)

lemma good_exp_update: "good w \<Longrightarrow> good (exp_update sid w)"
  by (simp add: exp_update_def Let_def good_sends)

lemma good_quest_refusal: "good w \<Longrightarrow> length m < 64 \<Longrightarrow> CHR 0x00 \<notin> set m \<Longrightarrow> good (quest_refusal sid q m w)"
  by (simp add: quest_refusal_def good_sends quiet_texts)

lemma good_update_quest: "good w \<Longrightarrow> good (update_quest E sid q st w)"
  by (auto simp: update_quest_def Let_def split: option.split intro!: good_sends good_fields)

lemma good_UpdateQuestProgress: "good w \<Longrightarrow> good (UpdateQuestProgress E sid w)"
  by (auto simp: UpdateQuestProgress_def Let_def intro!: good_fold good_update_quest good_fields)

text \<open>Combat, but for the item drop.\<close>

lemma good_share_with: "good w \<Longrightarrow> good (share_with E k x g mid w)"
  by (auto simp: share_with_def Let_def
      intro!: good_UpdateQuestProgress good_CheckLevelUp good_exp_update good_sends)

lemma good_reward_kill: "good w \<Longrightarrow> reward_kill E sid npc w = Inr w' \<Longrightarrow> good w'"
  by (auto simp: reward_kill_def Let_def split: option.splits if_splits
      intro!: good_fold good_share_with good_CheckLevelUp good_exp_update good_sends good_fields)

text \<open>Chat.\<close>

lemma good_chat_error: "good w \<Longrightarrow> length m < 64 \<Longrightarrow> CHR 0x00 \<notin> set m \<Longrightarrow> good (chat_error sid m w)"
  by (simp add: chat_error_def good_sends quiet_texts)

lemma good_whisper: "good w \<Longrightarrow> quiet (P_Chat reply) \<Longrightarrow> good (whisper sid chat reply w)"
  by (auto simp: whisper_def whisper_fold intro!: good_chat_error good_fold good_sends split: prod.splits)

lemma good_route_chat: "good w \<Longrightarrow> good (route_chat sid chat w)"
  by (auto simp: route_chat_def Let_def intro!: good_whisper good_chat_error good_send_each good_sends good_fields
      split: option.split)

text \<open>Parties: the update lists no more members than a party may have.\<close>

lemma good_SendPartyUpdate:
  "good w \<Longrightarrow> (\<And>p. map_of (w_parties w) q = Some p \<Longrightarrow> length (pt_members p) \<le> MAX_PARTY) \<Longrightarrow> good (SendPartyUpdate q w)"
  by (auto simp: SendPartyUpdate_def intro!: good_send_each quiet_party_update split: option.split)

lemma good_RemoveFromParty: "good w \<Longrightarrow> sizes_ok w \<Longrightarrow> good (RemoveFromParty sid w)"
proof -
  assume good: "good w" and sizes: "sizes_ok w"
  have small: "length ms \<le> MAX_PARTY"
    if "removeAll sid (pt_members party) = ms" "map_of (w_parties w) p = Some party" for p party ms
  proof -
    have "length (pt_members party) \<le> MAX_PARTY" using sizes that(2) by (auto simp: sizes_ok_def party_at_def)
    then show ?thesis using length_filter_le [of "\<lambda>i. sid \<noteq> i" "pt_members party"]
      unfolding that(1) [symmetric] by (simp add: removeAll_filter_not_eq del: length_filter_le)
  qed
  show "good (RemoveFromParty sid w)"
    using good by (auto simp: RemoveFromParty_def Let_def split: option.split list.split
        intro!: good_SendPartyUpdate good_send_each good_sends good_fields)
      (drule small, assumption, simp)+
qed

lemma good_try_invite: "good w \<Longrightarrow> good (snd (try_invite sid req w))"
  by (auto simp: try_invite_def party_error_def Let_def quiet_texts split: option.split
      intro!: good_sends good_fields)

lemma good_inviter_party: "good w \<Longrightarrow> good (snd (inviter_party i w))"
  by (auto simp: inviter_party_def Let_def split: option.split intro: good_other)

lemma good_OnPartyAccept: "good w \<Longrightarrow> good (OnPartyAccept sid req w)"
  by (auto simp: OnPartyAccept_def Let_def not_le case_prod_beta split: option.split
      intro!: good_SendPartyUpdate good_inviter_party good_fields)

end

subsection \<open>All packets\<close>

text \<open>
  With contracts for the six operations on inventories and for the selection of a character, for
  the sessions that act, the property is kept by every packet but an attack.
\<close>

locale packet_invariant = message_invariant good
  for good :: "'d world \<Rightarrow> bool" +
  fixes E :: "'d env"
    and actor :: "SessionId \<Rightarrow> bool"
  assumes good_grant_item: "good w \<Longrightarrow> actor sid \<Longrightarrow> good (grant_item E sid tid w)"
    and good_OnItemUse: "good w \<Longrightarrow> actor sid \<Longrightarrow> good (OnItemUse E sid use w)"
    and good_OnItemEquip: "good w \<Longrightarrow> actor sid \<Longrightarrow> good (OnItemEquip E sid equip w)"
    and good_OnShopBuy: "good w \<Longrightarrow> actor sid \<Longrightarrow> OnShopBuy E sid buy w = Inr w' \<Longrightarrow> good w'"
    and good_OnShopSell: "good w \<Longrightarrow> actor sid \<Longrightarrow> OnShopSell E sid sell w = Inr w' \<Longrightarrow> good w'"
    and good_OnCharSelect: "good w \<Longrightarrow> actor sid \<Longrightarrow> good (OnCharSelect E sid req w)"
begin

lemma good_OnQuestComplete: "good w \<Longrightarrow> actor sid \<Longrightarrow> good (OnQuestComplete E sid req w)"
  by (auto simp: OnQuestComplete_def reward_item_def Let_def quiet_texts split: option.split
      intro!: good_quest_refusal good_SendCharInfo good_CheckLevelUp good_exp_update good_grant_item
        good_sends good_fields)

lemma good_item_drop: "good w \<Longrightarrow> actor sid \<Longrightarrow> item_drop E sid w = Inr w' \<Longrightarrow> good w'"
  by (auto simp: item_drop_def bind_result_Inr Let_def split: prod.splits
      intro!: good_grant_item good_fields)

lemma good_peaceful:
  assumes "good w" and "actor sid" and "sizes_ok w" and "\<nexists>atk. p = C_Attack atk"
  shows "ensures (handle E sid p w) good"
  using assms
  by (cases p)
    (simp_all add: OnCharList_def good_OnCharSelect good_OnAttendanceCheck good_OnHeartbeat good_OnMove
      good_route_chat good_OnItemUse good_OnItemEquip good_OnShopOpen good_OnQuestList good_OnQuestAccept
      good_OnQuestComplete good_try_invite good_OnPartyAccept OnPartyLeave_def good_RemoveFromParty,
     auto intro!: ensuresI intro: good_OnLogin good_SendCharList good_OnCharCreate good_OnShopBuy good_OnShopSell)

end

text \<open>A property that looks neither at the NPCs and what is said of them nor at who is logged in.\<close>

locale npc_blind = message_invariant good
  for good :: "'d world \<Rightarrow> bool" +
  assumes good_npc_send: "good w \<Longrightarrow> about_npcs p \<Longrightarrow> sc_safe p \<Longrightarrow> good (Send i p w)"
    and good_npc_cast: "good w \<Longrightarrow> about_npcs p \<Longrightarrow> sc_safe p \<Longrightarrow> good (Broadcast p w)"
    and good_enter: "good w \<Longrightarrow> good (upd_player i (enter_game c row x y) w)"
    and good_world: "good w \<Longrightarrow> w_sessions w' = w_sessions w \<Longrightarrow> w_inventories w' = w_inventories w \<Longrightarrow>
      w_out w' = w_out w \<Longrightarrow> good w'"
begin

lemma good_npc_fields: "good w \<Longrightarrow> good (set_npc i f w)" "good w \<Longrightarrow> good (w\<lparr>w_nextNpcUid := u\<rparr>)"
  by (erule good_world; simp)+

lemma good_SendAllNPCs: "good w \<Longrightarrow> good (SendAllNPCs sid w)"
  by (auto simp: SendAllNPCs_def intro!: good_fold good_npc_send)

lemma good_SpawnNPC: "good w \<Longrightarrow> good (SpawnNPC E i w)"
  by (auto simp: SpawnNPC_def draw_def Let_def intro!: good_npc_cast good_npc_fields good_fields)

lemma good_respawn: "good w \<Longrightarrow> good (respawn E w)"
  by (simp add: respawn_def good_SpawnNPC split: option.split)

lemma good_after_death: "good w \<Longrightarrow> good (after_death sid i w)"
  by (simp add: after_death_def good_npc_cast good_npc_fields)

lemma good_entering:
  "good w \<Longrightarrow> good (SendAttendanceInfo E sid (SendOtherPlayers sid (SendAllNPCs sid (SendCharInfo sid
     (fetch_name E sid c (upd_player sid (enter_game c row x y) w))))))"
  by (intro good_SendAttendanceInfo good_SendOtherPlayers good_SendAllNPCs good_SendCharInfo good_fetch_name good_enter)

end

text \<open>For such a property the contract of \<open>LoadInventory\<close> takes the place of the last one.\<close>

locale bag_invariant = npc_blind good
  for good :: "'d world \<Rightarrow> bool" +
  fixes E :: "'d env"
    and actor :: "SessionId \<Rightarrow> bool"
  assumes good_grant: "good w \<Longrightarrow> actor sid \<Longrightarrow> good (grant_item E sid tid w)"
    and good_LoadInventory: "good w \<Longrightarrow> actor sid \<Longrightarrow> good (LoadInventory E sid w)"
    and good_use: "good w \<Longrightarrow> actor sid \<Longrightarrow> good (OnItemUse E sid use w)"
    and good_equip: "good w \<Longrightarrow> actor sid \<Longrightarrow> good (OnItemEquip E sid equip w)"
    and good_buy: "good w \<Longrightarrow> actor sid \<Longrightarrow> OnShopBuy E sid buy w = Inr w' \<Longrightarrow> good w'"
    and good_sell: "good w \<Longrightarrow> actor sid \<Longrightarrow> OnShopSell E sid sell w = Inr w' \<Longrightarrow> good w'"
begin

lemma good_select: "good w \<Longrightarrow> actor sid \<Longrightarrow> good (OnCharSelect E sid req w)"
  by (auto simp: OnCharSelect_def draw_def Let_def quiet_texts split: prod.split option.split list.split
      intro!: good_LoadInventory good_entering good_sends good_fields)

end

sublocale bag_invariant \<subseteq> packet_invariant
  by unfold_locales (fact good_grant good_use good_equip good_buy good_sell good_select)+

context bag_invariant
begin

lemma good_on_kill: "good w \<Longrightarrow> actor sid \<Longrightarrow> on_kill E sid i w = Inr w' \<Longrightarrow> good w'"
proof -
  assume good: "good w" and actor: "actor sid" and kill: "on_kill E sid i w = Inr w'"
  from kill obtain w3 w4 where w3: "reward_kill E sid (w_npcs w ! i) (after_death sid i w) = Inr w3"
    and w4: "item_drop E sid (UpdateQuestProgress E sid w3) = Inr w4" and w': "w' = respawn E w4"
    by (rule on_kill_cases)
  have "good (UpdateQuestProgress E sid w3)"
    by (rule good_UpdateQuestProgress, rule good_reward_kill [OF good_after_death [OF good] w3])
  from good_item_drop [OF this actor w4] show "good w'" unfolding w' by (rule good_respawn)
qed

lemma good_OnAttack: "good w \<Longrightarrow> actor sid \<Longrightarrow> OnAttack E sid atk w = Inr w' \<Longrightarrow> good w'"
  by (auto simp: OnAttack_def Let_def split: option.splits if_splits
      elim!: good_on_kill [rotated 2] intro!: good_sends good_npc_fields)

lemma good_handle:
  assumes "good w" and "actor sid" and "sizes_ok w"
  shows "ensures (handle E sid p w) good"
proof (cases "\<exists>atk. p = C_Attack atk")
  case True
  then show ?thesis using good_OnAttack [OF assms(1,2)] by (auto intro!: ensuresI)
qed (use good_peaceful [OF assms] in blast)

end

subsection \<open>Everything that is sent is safe\<close>

definition out_safe :: "'d world \<Rightarrow> bool" where
  "out_safe w \<longleftrightarrow> (\<forall>(i, p) \<in> set (w_out w). sc_safe p)"

lemma out_safe_Send [simp]: "out_safe w \<Longrightarrow> sc_safe p \<Longrightarrow> out_safe (Send i p w)"
  by (auto simp: out_safe_def w_out_Send session_send_def split: option.split)

lemma out_safe_casts:
  "out_safe w \<Longrightarrow> sc_safe p \<Longrightarrow> out_safe (Broadcast p w)"
  "out_safe w \<Longrightarrow> sc_safe p \<Longrightarrow> out_safe (BroadcastExcept i p w)"
  by (auto simp: out_safe_def w_out_Broadcast w_out_BroadcastExcept)

lemma out_safe_cong: "w_out w' = w_out w \<Longrightarrow> out_safe w' = out_safe w"
  by (simp add: out_safe_def)

lemma out_safe_frame [simp]:
  "out_safe (upd_player i f w) = out_safe w" "out_safe (set_inv i iv w) = out_safe w"
  "out_safe (ensure_inv i w) = out_safe w" "out_safe (snd (AddItemToDB E c t w)) = out_safe w"
  "out_safe (RemoveItemFromDB E u w) = out_safe w" "out_safe (EquipItemDB E c s u w) = out_safe w"
  "out_safe (w\<lparr>w_db := d\<rparr>) = out_safe w"
  by (rule out_safe_cong, simp)+

lemma quiet_safe: "quiet p \<Longrightarrow> sc_safe p"
  by (simp add: quiet_def)

lemma safe_update [simp]:
  "sc_safe (P_InventoryUpdate \<lparr>iu_slot = s, iu_itemId = t, iu_itemName = ncopy 31 n\<rparr>)"
  "sc_safe (P_InventoryUpdate \<lparr>iu_slot = s, iu_itemId = t, iu_itemName = item_name_or_empty it\<rparr>)"
  "sc_safe (P_InventoryUpdate \<lparr>iu_slot = s, iu_itemId = t, iu_itemName = []\<rparr>)"
  "sc_safe (P_ItemDrop \<lparr>idr_slot = s, idr_itemId = t, idr_itemName = ncopy 31 n\<rparr>)"
  by (simp_all add: sc_safe_def struct_layouts item_name_or_empty_def split: option.split)

lemma safe_inventory_list: "sc_safe (P_InventoryList (inventory_list E iv))"
proof -
  let ?ok = "\<lambda>l. length (il_items l) = MAX_INVENTORY \<and> list_all (lok SC_InventoryUpdate_L) (il_items l)"
  have "?ok (inventory_list E iv)"
    unfolding inventory_list_def
    by (rule fold_invariant [where P = ?ok])
      (auto simp: list_slot_def inventory_entry_def list_all_update SC_InventoryUpdate_L_def zero_SC_InventoryUpdate_def list_all_iff
        split: option.split dest!: set_list_update_subset [THEN subsetD])
  then show ?thesis by (simp add: sc_safe_def SC_InventoryList_L_def MAX_INVENTORY_def)
qed

lemma out_safe_LoadInventory: "out_safe w \<Longrightarrow> out_safe (LoadInventory E sid w)"
  by (auto simp: LoadInventory_def Let_def safe_inventory_list quiet_safe quiet_short_texts
      split: prod.split option.split)

lemma out_safe_OnItemUse: "out_safe w \<Longrightarrow> out_safe (OnItemUse E sid req w)"
  by (auto simp: OnItemUse_def SendCharInfo_def Let_def quiet_safe out_safe_casts split: option.split)

lemma out_safe_OnItemEquip: "out_safe w \<Longrightarrow> out_safe (OnItemEquip E sid req w)"
  by (auto simp: OnItemEquip_def SendCharInfo_def Let_def quiet_safe quiet_short_texts split: option.split)

lemma out_safe_OnShopBuy: "out_safe w \<Longrightarrow> OnShopBuy E sid req w = Inr w' \<Longrightarrow> out_safe w'"
  by (auto simp: OnShopBuy_def shop_refusal_def Let_def case_prod_beta quiet_safe quiet_short_texts
      split: option.splits if_splits dest!: strcpy_s_Some)

lemma out_safe_OnShopSell: "out_safe w \<Longrightarrow> OnShopSell E sid req w = Inr w' \<Longrightarrow> out_safe w'"
  by (auto simp: OnShopSell_def shop_refusal_def Let_def quiet_safe quiet_short_texts
      split: option.splits if_splits dest!: strcpy_s_Some)

lemma out_safe_grant_item: "out_safe w \<Longrightarrow> out_safe (grant_item E sid tid w)"
  by (auto simp: grant_item_def Let_def case_prod_beta split: option.split)

interpretation safe: bag_invariant out_safe E "\<lambda>_. True" for E :: "'d env"
  by unfold_locales
    (auto simp: quiet_safe out_safe_casts out_safe_LoadInventory out_safe_OnItemUse out_safe_OnItemEquip
      out_safe_grant_item intro: out_safe_OnShopBuy out_safe_OnShopSell iffD2 [OF out_safe_cong])

subsection \<open>In every reached world\<close>

lemma out_safe_sessions: "out_safe (upd_session sid f w) = out_safe w" "out_safe (Accept w) = out_safe w"
    "out_safe (RemoveSession sid w) = out_safe w"
  by (rule out_safe_cong, simp add: RemoveSession_def upd_session_def Accept_def AddSession_def split: option.split)+

lemma out_safe_step:
  assumes "world_inv n w" and "out_safe w" and "server_step E w w'"
  shows "out_safe w'"
proof -
  have sizes: "sizes_ok w" using assms(1) by (simp add: world_inv_def)
  show ?thesis
    using assms(3)
  proof cases
    case accept
    then show ?thesis using assms(2) by (simp add: out_safe_sessions)
  next
    case (packet sid payload header)
    show ?thesis
      using HandlePacket_handle [of E sid header payload w] packet(3) assms(2)
        ensuresD [OF safe.good_handle [OF assms(2) TrueI sizes]] by fastforce
  next
    case (buffered buf k sid)
    then show ?thesis using assms(2) by (simp add: set_buffer_def out_safe_sessions)
  next
    case (read_error sid)
    let ?w = "upd_session sid (\<lambda>s. s\<lparr>s_connected := False\<rparr>) w"
    have "sizes_ok ?w" using sizes by (rule party_inv_cong(2) [THEN iffD2, rotated 2]) (simp_all add: upd_session_def AddSession_def split: option.split)
    then have "out_safe (RemoveFromParty sid ?w)"
      using assms(2) by (intro safe.good_RemoveFromParty) (simp_all add: out_safe_sessions)
    then have "out_safe (OnPlayerDisconnect sid ?w)"
      by (simp add: OnPlayerDisconnect_def Let_def out_safe_def)
    then have "out_safe (OnDisconnect sid ?w)"
      unfolding OnDisconnect_def Let_def
      by (auto simp: out_safe_sessions quiet_safe intro!: out_safe_casts)
    then show ?thesis using read_error by (simp add: ReadError_def)
  next
    case (write_error sid)
    then show ?thesis using assms(2) by (simp add: WriteError_def out_safe_sessions)
  qed
qed

lemma out_safe_initial: "out_safe (initial_world E db)"
proof -
  have "w_out (initial_world E db) = []"
    unfolding initial_world_def
    by (subst fold_keeps [where g = w_out]) (simp_all add: place_npc_def draw_def Let_def empty_world_def)
  then show ?thesis by (simp add: out_safe_def)
qed

interpretation messages: bounded_invariant "server_step E" "initial_world E db"
    "\<lambda>n w. world_inv n w \<and> out_safe w" max_steps
  for E :: "'d env" and db :: 'd
  by unfold_locales
    (auto simp: out_safe_initial intro: server.starts out_safe_step dest: server.keeps)

end
