(* ===== verification/Client_Net.thy ===== *)
theory Client_Net
  imports Client_Handlers
begin

text \<open>
  The connection of the client, \<open>GameClient/TcpClient.cpp\<close>: connecting, the thread that
  receives, and the loop that cuts packets off the received bytes. The loop is a partial function,
  as on the server: a zero length field makes it run for ever. The locale \<open>frame_sink\<close> is what it
  relies on in the handlers, and is interpreted on the client's table of handlers.
\<close>

subsection \<open>The connection\<close>

text \<open>What the socket library answers.\<close>

record socket_api =
  wsa_startup :: int
  open_socket :: bool
  connects :: "string \<Rightarrow> int \<Rightarrow> bool"

record TcpClient =
  tc_connected :: bool
  tc_recvBuffer :: "u8 list"

definition new_TcpClient :: TcpClient where
  "new_TcpClient = \<lparr>tc_connected = False, tc_recvBuffer = []\<rparr>"

definition IsConnected :: "TcpClient \<Rightarrow> bool" where
  "IsConnected c = tc_connected c"

definition Connect :: "socket_api \<Rightarrow> string \<Rightarrow> int \<Rightarrow> TcpClient \<Rightarrow> bool \<times> TcpClient" where
  "Connect api ip port c =
     (if wsa_startup api \<noteq> 0 then (False, c)
      else if \<not> open_socket api then (False, c)
      else if \<not> connects api ip port then (False, c)
      else (True, c\<lparr>tc_connected := True\<rparr>))"

definition Disconnect :: "TcpClient \<Rightarrow> TcpClient" where
  "Disconnect c = c\<lparr>tc_connected := False\<rparr>"

subsection \<open>Receiving\<close>

partial_function (option) ProcessPackets ::
  "(PacketHeader \<Rightarrow> u8 list \<Rightarrow> 's \<Rightarrow> 's result) \<Rightarrow> u8 list \<Rightarrow> 's \<Rightarrow> (u8 list \<times> 's) result option" where
  "ProcessPackets handler recvBuffer s =
     (if length recvBuffer < HEADER_SIZE then Some (Inr (recvBuffer, s))
      else let header = lget PacketHeader_L recvBuffer in
        if length recvBuffer < unat (ph_length header) then Some (Inr (recvBuffer, s))
        else case handler header (drop HEADER_SIZE recvBuffer) s of
          Inl c \<Rightarrow> Some (Inl c)
        | Inr s' \<Rightarrow> ProcessPackets handler (drop (unat (ph_length header)) recvBuffer) s')"

text \<open>What one call of \<open>recv\<close> can return.\<close>

datatype recv_result = Received "u8 list" | Closed | WouldBlock | Failed

text \<open>The turns of the receive loop, one per call of \<open>recv\<close>.\<close>

fun RecvLoop ::
  "(PacketHeader \<Rightarrow> u8 list \<Rightarrow> 's \<Rightarrow> 's result) \<Rightarrow> recv_result list \<Rightarrow> TcpClient \<times> 's
     \<Rightarrow> (TcpClient \<times> 's) result option" where
  "RecvLoop handler [] st = Some (Inr st)"
| "RecvLoop handler (received # rest) (c, s) =
     (if \<not> tc_connected c then Some (Inr (c, s))
      else case received of
        Received bytes \<Rightarrow>
          (case ProcessPackets handler (tc_recvBuffer c @ bytes) s of
             None \<Rightarrow> None
           | Some (Inl e) \<Rightarrow> Some (Inl e)
           | Some (Inr (recvBuffer, s')) \<Rightarrow> RecvLoop handler rest (c\<lparr>tc_recvBuffer := recvBuffer\<rparr>, s'))
      | Closed \<Rightarrow> Some (Inr (c\<lparr>tc_connected := False\<rparr>, s))
      | WouldBlock \<Rightarrow> RecvLoop handler rest (c, s)
      | Failed \<Rightarrow> Some (Inr (c\<lparr>tc_connected := False\<rparr>, s)))"

text \<open>The bytes that arrived.\<close>

fun arrived :: "recv_result list \<Rightarrow> u8 list" where
  "arrived [] = []"
| "arrived (Received bytes # rs) = bytes @ arrived rs"
| "arrived (r # rs) = arrived rs"

fun keeps_open :: "recv_result \<Rightarrow> bool" where
  "keeps_open Closed = False"
| "keeps_open Failed = False"
| "keeps_open r = True"

subsection \<open>Delivery\<close>

definition sc_stream :: "sc_packet list \<Rightarrow> u8 list" where
  "sc_stream ps = concat (map sc_frame ps)"

lemma sc_stream_simps [simp]: "sc_stream [] = []" "sc_stream (p # ps) = sc_frame p @ sc_stream ps"
  by (simp_all add: sc_stream_def)

locale frame_sink =
  fixes handler :: "PacketHeader \<Rightarrow> u8 list \<Rightarrow> 's \<Rightarrow> 's result"
    and handle :: "sc_packet \<Rightarrow> 's \<Rightarrow> 's result"
  assumes handler_reads: "sc_ok p \<Longrightarrow> ph_type header = packet_code (sc_type p) \<Longrightarrow>
    handler header (sc_payload p @ rest) s = handle p s"
begin

lemma frame_step:
  assumes "sc_ok p"
  shows "ProcessPackets handler (sc_frame p @ rest) s = (case handle p s of
    Inl c \<Rightarrow> Some (Inl c) | Inr s' \<Rightarrow> ProcessPackets handler rest s')"
proof -
  have frame: "is_frame (sc_frame p)" by simp
  let ?header = "lget PacketHeader_L (sc_frame p @ rest)"
  have len: "unat (ph_length ?header) = length (sc_frame p)" "HEADER_SIZE \<le> length (sc_frame p)"
    using frame is_frame_header [OF frame, of rest] by (simp_all add: is_frame_def)
  have "ph_type ?header = packet_code (sc_type p)" by (simp add: sc_frame_def frame_header)
  moreover have "drop HEADER_SIZE (sc_frame p @ rest) = sc_payload p @ rest"
    unfolding sc_frame_def by (rule frame_payload)
  ultimately have "handler ?header (drop HEADER_SIZE (sc_frame p @ rest)) s = handle p s"
    using handler_reads [OF assms] by simp
  then show ?thesis using len
    by (subst ProcessPackets.simps) (cases "handle p s"; simp add: Let_def)
qed

lemma frames_delivered:
  assumes "list_all sc_ok ps" and "incomplete tail"
  shows "ProcessPackets handler (sc_stream ps @ tail) s =
    (case run_packets handle ps s of Inl e \<Rightarrow> Some (Inl e) | Inr s' \<Rightarrow> Some (Inr (tail, s')))"
  using assms(1)
proof (induction ps arbitrary: s)
  case Nil
  show ?case using assms(2) by (subst ProcessPackets.simps) (auto simp: incomplete_def Let_def)
next
  case (Cons p ps)
  then show ?case by (cases "handle p s") (simp_all add: frame_step)
qed

text \<open>Whatever the sizes of the pieces \<open>recv\<close> returns.\<close>

lemma all_delivered:
  assumes "list_all sc_ok ps" and "incomplete tail" and "incomplete (tc_recvBuffer c)"
    and "tc_recvBuffer c @ arrived rs = sc_stream ps @ tail" and "tc_connected c" and "list_all keeps_open rs"
  shows "RecvLoop handler rs (c, s) =
    (case run_packets handle ps s of Inl e \<Rightarrow> Some (Inl e)
     | Inr s' \<Rightarrow> Some (Inr (c\<lparr>tc_recvBuffer := tail\<rparr>, s')))"
  using assms
proof (induction rs arbitrary: ps c s)
  case Nil
  have "ps = []"
    using Nil.prems(3,4) is_frame_complete [OF is_frame_sc] by (cases ps) auto
  with Nil.prems show ?case by simp
next
  case (Cons r rs)
  show ?case
  proof (cases r)
    case (Received bytes)
    have frames: "list_all is_frame (map sc_frame ps)" by (simp add: list_all_iff)
    have "concat (map sc_frame ps) @ tail = (tc_recvBuffer c @ bytes) @ arrived rs"
      using Cons.prems(4) Received by (simp add: sc_stream_def)
    from frames_prefix [OF this Cons.prems(2) frames] obtain k t where
      now: "tc_recvBuffer c @ bytes = sc_stream (take k ps) @ t" and t: "incomplete t"
      and later: "t @ arrived rs = sc_stream (drop k ps) @ tail"
      by (auto simp: sc_stream_def take_map drop_map)
    have ok: "list_all sc_ok (take k ps)" "list_all sc_ok (drop k ps)"
      using Cons.prems(1) by (auto simp: list_all_iff dest: in_set_takeD in_set_dropD)
    have run: "run_packets handle ps s =
        bind_result (run_packets handle (take k ps) s) (run_packets handle (drop k ps))"
      by (metis append_take_drop_id run_packets_append)
    show ?thesis
    proof (cases "run_packets handle (take k ps) s")
      case (Inl e)
      then show ?thesis using Cons.prems(5) Received now frames_delivered [OF ok(1) t] run by simp
    next
      case (Inr s')
      have "RecvLoop handler (r # rs) (c, s) = RecvLoop handler rs (c\<lparr>tc_recvBuffer := t\<rparr>, s')"
        using Cons.prems(5) Received now frames_delivered [OF ok(1) t] Inr by simp
      also have "\<dots> = (case run_packets handle (drop k ps) s' of Inl e \<Rightarrow> Some (Inl e)
          | Inr s'' \<Rightarrow> Some (Inr (c\<lparr>tc_recvBuffer := tail\<rparr>, s'')))"
        using Cons.IH [OF ok(2) Cons.prems(2), of "c\<lparr>tc_recvBuffer := t\<rparr>" s'] t later Cons.prems(5,6)
        by (cases "run_packets handle (drop k ps) s'") simp_all
      finally show ?thesis unfolding run Inr bind_result.simps .
    qed
  next
    case WouldBlock
    then show ?thesis using Cons.IH [OF Cons.prems(1,2,3)] Cons.prems by simp
  qed (use Cons.prems(6) in simp_all)
qed

end

interpretation client_sink: frame_sink ClientPacket cl_handle
  by unfold_locales (rule ClientPacket_handle)

subsection \<open>Zero lengths\<close>

lemma ProcessPackets_zero_diverges:
  assumes "\<And>s. \<exists>s'. handler (lget PacketHeader_L buf) (drop HEADER_SIZE buf) s = Inr s'"
    and "HEADER_SIZE \<le> length buf" and "ph_length (lget PacketHeader_L buf) = 0"
  shows "ProcessPackets handler buf s = None"
proof (rule ccontr)
  assume "ProcessPackets handler buf s \<noteq> None"
  then obtain r where ret: "ProcessPackets handler buf s = Some r" by blast
  have "\<not> ((\<forall>s. \<exists>s'. handler (lget PacketHeader_L buf) (drop HEADER_SIZE buf) s = Inr s') \<and>
      HEADER_SIZE \<le> length buf \<and> ph_length (lget PacketHeader_L buf) = 0)"
  proof (rule ProcessPackets.raw_induct [where P = "\<lambda>handler buf s r.
      \<not> ((\<forall>s. \<exists>s'. handler (lget PacketHeader_L buf) (drop HEADER_SIZE buf) s = Inr s') \<and>
      HEADER_SIZE \<le> length buf \<and> ph_length (lget PacketHeader_L buf) = 0)", OF _ ret])
    fix f and h :: "PacketHeader \<Rightarrow> u8 list \<Rightarrow> 'a \<Rightarrow> 'a result" and buf s r
    assume IH: "\<And>h buf s r. f h buf s = Some r \<Longrightarrow>
        \<not> ((\<forall>s. \<exists>s'. h (lget PacketHeader_L buf) (drop HEADER_SIZE buf) s = Inr s') \<and>
        HEADER_SIZE \<le> length buf \<and> ph_length (lget PacketHeader_L buf) = 0)"
      and eq: "(if length buf < HEADER_SIZE then Some (Inr (buf, s))
        else let header = lget PacketHeader_L buf in
          if length buf < unat (ph_length header) then Some (Inr (buf, s))
          else case h header (drop HEADER_SIZE buf) s of Inl c \<Rightarrow> Some (Inl c)
          | Inr s' \<Rightarrow> f h (drop (unat (ph_length header)) buf) s') = Some r"
    show "\<not> ((\<forall>s. \<exists>s'. h (lget PacketHeader_L buf) (drop HEADER_SIZE buf) s = Inr s') \<and>
        HEADER_SIZE \<le> length buf \<and> ph_length (lget PacketHeader_L buf) = 0)"
    proof
      assume stuck: "(\<forall>s. \<exists>s'. h (lget PacketHeader_L buf) (drop HEADER_SIZE buf) s = Inr s') \<and>
        HEADER_SIZE \<le> length buf \<and> ph_length (lget PacketHeader_L buf) = 0"
      then obtain s' where "h (lget PacketHeader_L buf) (drop HEADER_SIZE buf) s = Inr s'" by blast
      with eq stuck have "f h buf s' = Some r" by (simp add: Let_def)
      from IH [OF this] stuck show False by blast
    qed
  qed
  with assms show False by blast
qed

end
