(* ===== verification/Client_Input.thy ===== *)
theory Client_Input
  imports Client_Net
begin

text \<open>
  The keyboard half of the client: \<open>ReadSlot\<close>, \<open>FindNearestNpc\<close>, \<open>CreateCharacter\<close>, the
  login and the key loop of \<open>main\<close> in \<open>GameClient/main.cpp\<close>, with the chat line's UTF-8 input.
  What \<open>_getch\<close>, \<open>_getwch\<close> and \<open>std::cin\<close> return, in order, is the record \<open>console\<close>; a
  function that reads more than is there is still waiting, the value \<open>None\<close>. What the client sends
  is the field \<open>u_sent\<close>. The echo of what is typed is not part of the model.
\<close>

subsection \<open>Input and output\<close>

record console =
  con_keys :: "char list"
  con_wide :: "u16 list"
  con_words :: "string list"
  con_numbers :: "int list"

record ui =
  u_client :: client
  u_console :: console
  u_sent :: "cs_packet list"

type_synonym turn = "(bool \<times> ui) result option"

definition send :: "cs_packet \<Rightarrow> ui \<Rightarrow> ui" where
  "send p u = u\<lparr>u_sent := u_sent u @ [p]\<rparr>"

definition upd_client :: "(client \<Rightarrow> client) \<Rightarrow> ui \<Rightarrow> ui" where
  "upd_client f u = u\<lparr>u_client := f (u_client u)\<rparr>"

text \<open>A turn of the loop that ends here, and one that ends by drawing the game screen.\<close>

definition go_on :: "ui \<Rightarrow> turn" where
  "go_on u = Some (Inr (True, u))"

definition go_draw :: "ui \<Rightarrow> turn" where
  "go_draw u = (case DrawMap (u_client u) of
     Inl e \<Rightarrow> Some (Inl e)
   | Inr s \<Rightarrow> Some (Inr (True, u\<lparr>u_client := s\<rparr>)))"

subsection \<open>Reading a slot number\<close>

definition CR :: char where "CR = CHR 0x0D"

definition ESC :: char where "ESC = CHR 0x1B"

fun slot_keys :: "string \<Rightarrow> char list \<Rightarrow> (string \<times> char list) option" where
  "slot_keys input [] = None"
| "slot_keys input (c # keys) =
     (if c = CR then Some (input, keys)
      else if c = ESC then Some ([], keys)
      else if is_digit c then slot_keys (input @ [c]) keys
      else slot_keys input keys)"

definition ReadSlot :: "char list \<Rightarrow> (int result \<times> char list) option" where
  "ReadSlot keys = (case slot_keys [] keys of
     None \<Rightarrow> None
   | Some (input, rest) \<Rightarrow> Some (if input = [] then Inr (- 1) else stoi input, rest))"

definition with_slot :: "(u8 \<Rightarrow> cs_packet) \<Rightarrow> ui \<Rightarrow> turn" where
  "with_slot request u =
     (if c_showInventory (u_client u) then
        case ReadSlot (con_keys (u_console u)) of
          None \<Rightarrow> None
        | Some (Inl e, keys) \<Rightarrow> Some (Inl e)
        | Some (Inr slot, keys) \<Rightarrow>
            let u1 = u\<lparr>u_console := u_console u\<lparr>con_keys := keys\<rparr>\<rparr>
            in go_on (if 0 \<le> slot \<and> slot < int MAX_INVENTORY then send (request (word_of_int slot)) u1 else u1)
      else go_on u)"

subsection \<open>The nearest NPC\<close>

definition npc_distance :: "client \<Rightarrow> ClientNpc \<Rightarrow> int" where
  "npc_distance s npc = \<bar>sint (cn_posX npc) - sint (me_posX (c_myPlayer s))\<bar>
     + \<bar>sint (cn_posY npc) - sint (me_posY (c_myPlayer s))\<bar>"

fun nearest_from :: "client \<Rightarrow> int \<Rightarrow> u64 \<Rightarrow> (u64, ClientNpc) omap \<Rightarrow> u64" where
  "nearest_from s minDist nearest [] = nearest"
| "nearest_from s minDist nearest ((uid, npc) # npcs) =
     (let dist = npc_distance s npc
      in if dist < minDist then nearest_from s dist uid npcs else nearest_from s minDist nearest npcs)"

definition FindNearestNpc :: "client \<Rightarrow> u64" where
  "FindNearestNpc s = nearest_from s (2 ^ 31 - 1) 0 (c_npcs s)"

subsection \<open>Requests with text\<close>

text \<open>A zero-initialised array with a string copied into it.\<close>

definition char_array :: "nat \<Rightarrow> string \<Rightarrow> string" where
  "char_array n s = pad n (ncopy (n - 1) s)"

definition CreateCharacter :: "ui \<Rightarrow> turn" where
  "CreateCharacter u = (case (con_words (u_console u), con_numbers (u_console u)) of
     (name # names, type # types) \<Rightarrow>
       go_on (send (C_CharCreate \<lparr>cc_name = char_array 20 name, cc_charType = word_of_int type\<rparr>)
         (u\<lparr>u_console := u_console u\<lparr>con_words := names, con_numbers := types\<rparr>\<rparr>))
   | _ \<Rightarrow> None)"

definition invite_player :: "ui \<Rightarrow> turn" where
  "invite_player u = (case con_words (u_console u) of
     name # names \<Rightarrow> go_on (send (C_PartyInvite \<lparr>cpi_targetName = char_array 20 name\<rparr>)
       (u\<lparr>u_console := u_console u\<lparr>con_words := names\<rparr>\<rparr>))
   | [] \<Rightarrow> None)"

subsection \<open>The chat line\<close>

text \<open>
  \<open>WideCharToMultiByte\<close> of one 16-bit unit: half of a surrogate pair has no encoding and is
  replaced by U+FFFD.
\<close>

definition utf8 :: "u16 \<Rightarrow> string" where
  "utf8 wc = (let n = unat wc in
     if n < 0x80 then [char_of n]
     else if n < 0x800 then [char_of (0xC0 + n div 64), char_of (0x80 + n mod 64)]
     else if 0xD800 \<le> n \<and> n < 0xE000 then [CHR 0xEF, CHR 0xBF, CHR 0xBD]
     else [char_of (0xE0 + n div 4096), char_of (0x80 + n div 64 mod 64), char_of (0x80 + n mod 64)])"

definition is_continuation :: "char \<Rightarrow> bool" where
  "is_continuation c \<longleftrightarrow> (of_char c :: nat) div 64 = 2"

text \<open>Erasing from the last byte that does not continue a character, on the reversed line.\<close>

fun drop_char :: "string \<Rightarrow> string" where
  "drop_char [] = []"
| "drop_char [c] = []"
| "drop_char (c # d # s) = (if is_continuation c then drop_char (d # s) else d # s)"

definition erase_last :: "string \<Rightarrow> string" where
  "erase_last input = rev (drop_char (rev input))"

fun chat_keys :: "string \<Rightarrow> u16 list \<Rightarrow> (string \<times> u16 list) option" where
  "chat_keys input [] = None"
| "chat_keys input (wc # keys) =
     (if wc = 13 \<or> wc = 10 then Some (input, keys)
      else if wc = 8 \<or> wc = 127 then chat_keys (erase_last input) keys
      else chat_keys (input @ utf8 wc) keys)"

definition chat_packet :: "u8 \<Rightarrow> string \<Rightarrow> string \<Rightarrow> cs_packet" where
  "chat_packet channel target message = C_Chat \<lparr>cch_channel = channel,
     cch_targetName = char_array 20 target, cch_message = char_array 128 message\<rparr>"

text \<open>The request of a line that is not empty; a whisper without a second blank is dropped.\<close>

definition chat_request :: "string \<Rightarrow> cs_packet option" where
  "chat_request input =
     (if take 3 input = ''/w '' then
        let rest = drop 3 input in
        if CHR '' '' \<in> set rest
        then Some (chat_packet 1 (takeWhile (\<lambda>c. c \<noteq> CHR '' '') rest)
               (tl (dropWhile (\<lambda>c. c \<noteq> CHR '' '') rest)))
        else None
      else if take 3 input = ''/p '' then Some (chat_packet 2 [] (drop 3 input))
      else Some (chat_packet 0 [] input))"

definition chat_mode :: "ui \<Rightarrow> turn" where
  "chat_mode u = (case chat_keys [] (con_wide (u_console u)) of
     None \<Rightarrow> None
   | Some (input, keys) \<Rightarrow>
       let u1 = u\<lparr>u_console := u_console u\<lparr>con_wide := keys\<rparr>\<rparr>
       in go_on (if input = [] then u1
                 else case chat_request input of None \<Rightarrow> u1 | Some p \<Rightarrow> send p u1))"

subsection \<open>Keys\<close>

definition tolower :: "char \<Rightarrow> char" where
  "tolower c = (let n = of_char c :: nat in if 65 \<le> n \<and> n \<le> 90 then char_of (n + 32) else c)"

definition move_by :: "i8 \<Rightarrow> i8 \<Rightarrow> cs_packet" where
  "move_by dx dy = C_Move \<lparr>mv_dirX = dx, mv_dirY = dy\<rparr>"

text \<open>Selecting a character.\<close>

definition select_key :: "char \<Rightarrow> ui \<Rightarrow> turn" where
  "select_key key u =
     (let chars = c_charList (u_client u); idx = of_char key - 49 :: int in
      if key = CHR ''c'' \<or> key = CHR ''C'' then CreateCharacter u
      else if 0 \<le> idx \<and> idx \<le> 4 then
        (if idx < int (length chars)
         then case array_at chars (nat idx) of
             Inl e \<Rightarrow> Some (Inl e)
           | Inr c \<Rightarrow> go_on (send (C_CharSelect \<lparr>cs_charUid = ce_charUid c\<rparr>) u)
         else go_on u)
      else if key = CHR ''q'' \<or> key = CHR ''Q'' then Some (Inr (False, u))
      else go_on u)"

text \<open>The keys of the game, one definition per panel.\<close>

definition party_key :: "ui \<Rightarrow> turn" where
  "party_key u =
     (if 0 < c_partyCount (u_client u)
      then go_draw (upd_client (\<lambda>s. say ''Left party'' (s\<lparr>c_partyCount := 0\<rparr>)) (send C_PartyLeave u))
      else invite_player u)"

definition accept_key :: "ui \<Rightarrow> turn" where
  "accept_key u = go_on
     (if c_pendingInvite (u_client u)
      then upd_client (\<lambda>s. s\<lparr>c_pendingInvite := False\<rparr>) (send (C_PartyAccept \<lparr>pa_accept = 1\<rparr>) u)
      else u)"

definition reject_key :: "ui \<Rightarrow> turn" where
  "reject_key u =
     (if c_pendingInvite (u_client u)
      then go_draw (upd_client (\<lambda>s. say ''Invite rejected'' (s\<lparr>c_pendingInvite := False\<rparr>))
             (send (C_PartyAccept \<lparr>pa_accept = 0\<rparr>) u))
      else go_on u)"

definition inventory_key :: "ui \<Rightarrow> turn" where
  "inventory_key u = go_draw
     (upd_client (\<lambda>s. s\<lparr>c_showInventory := \<not> c_showInventory s, c_showShop := False\<rparr>) u)"

definition shop_key :: "ui \<Rightarrow> turn" where
  "shop_key u =
     (let u1 = upd_client (\<lambda>s. s\<lparr>c_showShop := \<not> c_showShop s, c_showInventory := False,
                 c_showQuestList := False\<rparr>) u
      in if c_showShop (u_client u1) then go_on (send C_ShopOpen u1) else go_draw u1)"

definition near_quest_npc :: "ClientPlayer \<Rightarrow> bool" where
  "near_quest_npc p \<longleftrightarrow> \<bar>sint (me_posX p) - sint CLIENT_QUEST_NPC_X\<bar> \<le> 1 \<and>
     \<bar>sint (me_posY p) - sint CLIENT_QUEST_NPC_Y\<bar> \<le> 1"

definition quest_key :: "ui \<Rightarrow> turn" where
  "quest_key u =
     (if c_showQuestList (u_client u) then go_draw (upd_client (\<lambda>s. s\<lparr>c_showQuestList := False\<rparr>) u)
      else if near_quest_npc (c_myPlayer (u_client u)) then
        go_on (send (C_QuestList \<lparr>cql_npcUid = 0\<rparr>) (upd_client (\<lambda>s. s\<lparr>c_showQuestList := True,
          c_showInventory := False, c_showShop := False\<rparr>) u))
      else go_draw (upd_client (say ''Move near Quest NPC (Q) to manage quests'') u))"

definition number_key :: "nat \<Rightarrow> ui \<Rightarrow> turn" where
  "number_key idx u = (let s = u_client u in
     if c_showQuestList s then
       if idx < c_questCount s then
         case array_at (c_questEntries s) idx of
           Inl e \<Rightarrow> Some (Inl e)
         | Inr q \<Rightarrow> go_on
             (if qen_status q = 0 then send (C_QuestAccept \<lparr>qa_questId = qen_questId q\<rparr>) u
              else if qen_status q = 2 then send (C_QuestComplete \<lparr>qc_questId = qen_questId q\<rparr>) u
              else u)
       else go_on u
     else if c_showShop s then
       if idx < c_shopCount s then
         case array_at (c_shopItems s) idx of
           Inl e \<Rightarrow> Some (Inl e)
         | Inr item \<Rightarrow> go_on (send (C_ShopBuy \<lparr>sb_itemId = shi_itemId item\<rparr>) u)
       else go_on u
     else go_on u)"

text \<open>Escape closes each panel that is open and draws after each.\<close>

definition close_panel :: "(client \<Rightarrow> bool) \<Rightarrow> (client \<Rightarrow> client) \<Rightarrow> client \<Rightarrow> client result" where
  "close_panel open hide s = (if open s then DrawMap (hide s) else Inr s)"

definition close_panels :: "client \<Rightarrow> client result" where
  "close_panels s =
     bind_result (close_panel c_showInventory (\<lambda>s. s\<lparr>c_showInventory := False\<rparr>) s) (\<lambda>s1.
     bind_result (close_panel c_showShop (\<lambda>s. s\<lparr>c_showShop := False\<rparr>) s1) (\<lambda>s2.
     close_panel c_showQuestList (\<lambda>s. s\<lparr>c_showQuestList := False\<rparr>) s2))"

definition escape_key :: "ui \<Rightarrow> turn" where
  "escape_key u = (case close_panels (u_client u) of
     Inl e \<Rightarrow> Some (Inl e) | Inr s \<Rightarrow> go_on (u\<lparr>u_client := s\<rparr>))"

definition game_key :: "char \<Rightarrow> ui \<Rightarrow> turn" where
  "game_key key u =
     (let k = tolower key; idx = of_char key - 49 :: int in
      if k = CHR ''w'' then go_on (send (move_by 0 (- 1)) u)
      else if k = CHR ''s'' then go_on (send (move_by 0 1) u)
      else if k = CHR ''a'' then go_on (send (move_by (- 1) 0) u)
      else if k = CHR ''d'' then go_on (send (move_by 1 0) u)
      else if k = CHR '' '' then go_on (send (C_Attack \<lparr>at_targetUid = FindNearestNpc (u_client u)\<rparr>) u)
      else if k = CHR ''t'' then go_on (send C_AttendanceCheck u)
      else if k = CHR ''p'' then party_key u
      else if k = CHR ''y'' then accept_key u
      else if k = CHR ''n'' then reject_key u
      else if k = CHR ''i'' then inventory_key u
      else if k = CHR ''b'' then shop_key u
      else if k = CHR ''j'' then quest_key u
      else if 0 \<le> idx \<and> idx \<le> 8 then number_key (nat idx) u
      else if k = CHR ''u'' then with_slot (\<lambda>slot. C_ItemUse \<lparr>ciu_slot = slot\<rparr>) u
      else if k = CHR ''e'' then with_slot (\<lambda>slot. C_ItemEquip \<lparr>cie_slot = slot\<rparr>) u
      else if k = CHR ''x'' then with_slot (\<lambda>slot. C_ShopSell \<lparr>ss_slot = slot\<rparr>) u
      else if k = ESC then escape_key u
      else if k = CR then chat_mode u
      else if k = CHR ''q'' then Some (Inr (False, u))
      else go_on u)"

text \<open>One turn of the loop of \<open>main\<close> with a key pressed.\<close>

definition key_turn :: "char \<Rightarrow> ui \<Rightarrow> turn" where
  "key_turn key u = (case c_gameState (u_client u) of
     Login \<Rightarrow> go_on u
   | CharSelect \<Rightarrow> select_key key u
   | InGame \<Rightarrow> game_key key u)"

subsection \<open>The program\<close>

text \<open>
  Up to the loop: the answers to the two questions, the connection, the login request. \<open>None\<close>
  stands for the exit with status 1.
\<close>

definition first_request :: "string \<Rightarrow> cs_packet result" where
  "first_request inputId = (case strcpy_s 32 inputId of
     None \<Rightarrow> Inl InvalidParameter
   | Some account \<Rightarrow> Inr (C_Login \<lparr>lg_accountId = pad 32 account, lg_password = pad 32 []\<rparr>))"

definition start_client ::
  "socket_api \<Rightarrow> string \<Rightarrow> string \<Rightarrow> console \<Rightarrow> (TcpClient \<times> ui) result option" where
  "start_client api inputId serverIp console =
     (let accountId = (if inputId = [] then ''1'' else inputId);
          ip = (if serverIp = [] then ''127.0.0.1'' else serverIp)
      in case Connect api ip 9000 new_TcpClient of
           (False, c) \<Rightarrow> None
         | (True, c) \<Rightarrow> Some (bind_result (first_request accountId) (\<lambda>p.
             Inr (c, \<lparr>u_client = new_client, u_console = console, u_sent = [p]\<rparr>))))"

text \<open>
  The loop of \<open>main\<close> and the receiving thread, one turn of either at a time: a key that was
  pressed, or a packet that arrived. The thread takes no lock the loop takes, so in the program
  the two overlap; the model is the runs in which they do not.
\<close>

datatype event = Key char | Packet sc_packet

fun client_turn :: "event \<Rightarrow> ui \<Rightarrow> turn" where
  "client_turn (Key key) u = key_turn key u"
| "client_turn (Packet p) u = (case cl_handle p (u_client u) of
     Inl e \<Rightarrow> Some (Inl e) | Inr s \<Rightarrow> go_on (u\<lparr>u_client := s\<rparr>))"

fun run_client :: "event list \<Rightarrow> ui \<Rightarrow> turn" where
  "run_client [] u = go_on u"
| "run_client (e # es) u = (case client_turn e u of
     None \<Rightarrow> None
   | Some (Inl c) \<Rightarrow> Some (Inl c)
   | Some (Inr (False, u')) \<Rightarrow> Some (Inr (False, u'))
   | Some (Inr (True, u')) \<Rightarrow> run_client es u')"

subsection \<open>What a turn sends\<close>

text \<open>A request the server can read, one step in one direction, a slot the inventory has.\<close>

fun request_ok :: "cs_packet \<Rightarrow> bool" where
  "request_ok (C_Move m) \<longleftrightarrow> \<bar>sint (mv_dirX m)\<bar> + \<bar>sint (mv_dirY m)\<bar> = 1"
| "request_ok (C_ItemUse r) \<longleftrightarrow> unat (ciu_slot r) < MAX_INVENTORY"
| "request_ok (C_ItemEquip r) \<longleftrightarrow> unat (cie_slot r) < MAX_INVENTORY"
| "request_ok (C_ShopSell r) \<longleftrightarrow> unat (ss_slot r) < MAX_INVENTORY"
| "request_ok p \<longleftrightarrow> cs_ok p"

definition asks :: "ui \<Rightarrow> turn \<Rightarrow> bool" where
  "asks u t \<longleftrightarrow> (\<forall>b u'. t = Some (Inr (b, u')) \<longrightarrow>
     u_sent u' = u_sent u \<or> (\<exists>p. request_ok p \<and> cs_ok p \<and> u_sent u' = u_sent u @ [p]))"

lemma asks_None [simp]: "asks u None"
  by (simp add: asks_def)

lemma asks_crash [simp]: "asks u (Some (Inl e))"
  by (simp add: asks_def)

lemma asks_go_on: "u_sent u' = u_sent u \<or> (\<exists>p. request_ok p \<and> cs_ok p \<and> u_sent u' = u_sent u @ [p]) \<Longrightarrow> asks u (go_on u')"
  by (auto simp: asks_def go_on_def)

lemma asks_go_draw: "u_sent u' = u_sent u \<or> (\<exists>p. request_ok p \<and> cs_ok p \<and> u_sent u' = u_sent u @ [p]) \<Longrightarrow> asks u (go_draw u')"
  by (auto simp: asks_def go_draw_def split: sum.splits)

lemma u_sent_simps [simp]:
  "u_sent (send p u) = u_sent u @ [p]" "u_sent (upd_client f u) = u_sent u"
  "u_client (send p u) = u_client u" "u_console (send p u) = u_console u"
  by (simp_all add: send_def upd_client_def)

lemma length_char_array [simp]: "length (char_array n s) = n"
  by (simp add: char_array_def)

lemma asks_with_slot:
  assumes "\<And>slot. unat slot < MAX_INVENTORY \<Longrightarrow> request_ok (r slot) \<and> cs_ok (r slot)"
  shows "asks u (with_slot r u)"
proof -
  have "unat (word_of_int slot :: u8) < MAX_INVENTORY" if "0 \<le> slot" "slot < int MAX_INVENTORY" for slot
  proof -
    have "slot < 256" using that by (simp add: MAX_INVENTORY_def)
    with that have "uint (word_of_int slot :: u8) = slot" by (simp add: uint_word_of_int_eq take_bit_int_eq_self_iff)
    with that show ?thesis by (simp add: unat_eq_nat_uint)
  qed
  with assms show ?thesis
    by (auto simp: with_slot_def Let_def intro!: asks_go_on split: option.split prod.split sum.split)
qed

lemma chat_request_ok: "chat_request input = Some p \<Longrightarrow> request_ok p \<and> cs_ok p"
  by (auto simp: chat_request_def chat_packet_def CS_Chat_L_def Let_def split: if_splits)

lemma asks_chat: "asks u (chat_mode u)"
  by (auto simp: chat_mode_def Let_def chat_request_ok intro!: asks_go_on split: option.split prod.split)

lemma asks_select: "asks u (select_key key u)"
proof -
  have "asks u (CreateCharacter u)"
    by (auto simp: CreateCharacter_def CS_CharCreate_L_def intro!: asks_go_on split: list.split)
  then show ?thesis
    by (auto simp: select_key_def Let_def CS_CharSelect_L_def asks_def [of _ "Some (Inr _)"] intro!: asks_go_on
        split: sum.split)
qed

lemma asks_panels:
  "asks u (party_key u)" "asks u (accept_key u)" "asks u (reject_key u)" "asks u (inventory_key u)"
  "asks u (shop_key u)" "asks u (quest_key u)" "asks u (number_key i u)" "asks u (escape_key u)"
  by (auto simp: party_key_def invite_player_def CS_PartyInvite_L_def accept_key_def CS_PartyAccept_L_def
      reject_key_def inventory_key_def shop_key_def quest_key_def CS_QuestList_L_def number_key_def
      CS_QuestAccept_L_def CS_QuestComplete_L_def CS_ShopBuy_L_def escape_key_def Let_def
      intro!: asks_go_on asks_go_draw split: list.split sum.split)

lemma asks_game: "asks u (game_key key u)"
proof -
  have "asks u (with_slot (\<lambda>slot. C_ItemUse \<lparr>ciu_slot = slot\<rparr>) u)"
    "asks u (with_slot (\<lambda>slot. C_ItemEquip \<lparr>cie_slot = slot\<rparr>) u)"
    "asks u (with_slot (\<lambda>slot. C_ShopSell \<lparr>ss_slot = slot\<rparr>) u)"
    by (rule asks_with_slot; simp add: CS_ItemUse_L_def CS_ItemEquip_L_def CS_ShopSell_L_def)+
  then show ?thesis
    by (auto simp: game_key_def Let_def asks_panels asks_chat move_by_def CS_Move_L_def CS_Attack_L_def
        asks_def [of _ "Some (Inr _)"] intro!: asks_go_on)
qed

lemma asks_turn: "asks u (client_turn e u)"
proof (cases e)
  case (Key key)
  then show ?thesis
    by (auto simp: key_turn_def asks_select asks_game intro!: asks_go_on split: GameState.split)
next
  case (Packet p)
  then show ?thesis by (auto intro!: asks_go_on split: sum.split)
qed

lemma run_client_asks:
  assumes "run_client es u = Some (Inr (b, u'))" and "list_all (\<lambda>p. request_ok p \<and> cs_ok p) (u_sent u)"
  shows "list_all (\<lambda>p. request_ok p \<and> cs_ok p) (u_sent u')"
  using assms
proof (induction es arbitrary: u)
  case Nil
  then show ?case by (simp add: go_on_def)
next
  case (Cons e es)
  then obtain b1 u1 where turn: "client_turn e u = Some (Inr (b1, u1))"
    by (auto split: option.splits sum.splits)
  have "u_sent u1 = u_sent u \<or> (\<exists>p. request_ok p \<and> cs_ok p \<and> u_sent u1 = u_sent u @ [p])"
    using asks_turn [of u e] turn by (auto simp: asks_def)
  then have "list_all (\<lambda>p. request_ok p \<and> cs_ok p) (u_sent u1)" using Cons.prems(2) by auto
  with Cons turn show ?case by (cases b1) auto
qed

subsection \<open>Crashes of a turn\<close>

text \<open>With its arrays in order, the client can only go down by a slot number beyond an int.\<close>

definition keeps_up :: "turn \<Rightarrow> bool" where
  "keeps_up t \<longleftrightarrow> (case t of None \<Rightarrow> True | Some (Inl e) \<Rightarrow> e = OutOfRange | Some (Inr (b, u)) \<Rightarrow> client_ok (u_client u))"

lemma keeps_go_on [simp]: "keeps_up (go_on u) \<longleftrightarrow> client_ok (u_client u)"
  by (simp add: keeps_up_def go_on_def)

lemma keeps_None [simp]: "keeps_up None"
  by (simp add: keeps_up_def)

lemma keeps_exit [simp]: "keeps_up (Some (Inr (b, u))) \<longleftrightarrow> client_ok (u_client u)"
  by (simp add: keeps_up_def)

lemma keeps_go_draw: "client_ok (u_client u) \<Longrightarrow> keeps_up (go_draw u)"
  using client_ok_draws [of "u_client u"]
  by (auto simp: keeps_up_def go_draw_def ends_ok_def split: sum.splits)

lemma u_client_upd [simp]: "u_client (upd_client f u) = f (u_client u)"
  by (simp add: upd_client_def)

lemma keeps_with_slot: "client_ok (u_client u) \<Longrightarrow> keeps_up (with_slot r u)"
  by (auto simp: with_slot_def Let_def ReadSlot_def stoi_def keeps_up_def [of "Some (Inl _)"]
      split: option.splits prod.splits sum.splits if_splits)

lemma close_panel_ok: "client_ok s \<Longrightarrow> (\<And>s. client_ok s \<Longrightarrow> client_ok (hide s)) \<Longrightarrow> ends_ok (close_panel open hide s)"
  by (simp add: close_panel_def client_ok_draws)

lemma keeps_panels:
  assumes "client_ok (u_client u)"
  shows "keeps_up (party_key u)" "keeps_up (accept_key u)" "keeps_up (reject_key u)" "keeps_up (inventory_key u)"
    "keeps_up (shop_key u)" "keeps_up (quest_key u)" "keeps_up (number_key i u)" "keeps_up (escape_key u)"
proof -
  have "ends_ok (close_panels (u_client u))"
    unfolding close_panels_def using assms by (intro ends_ok_bind close_panel_ok) simp_all
  then show "keeps_up (escape_key u)"
    by (auto simp: escape_key_def ends_ok_def split: sum.splits)
  have "c_questCount (u_client u) \<le> length (c_questEntries (u_client u))"
    "c_shopCount (u_client u) \<le> length (c_shopItems (u_client u))" using assms by (simp_all add: client_ok_def)
  then show "keeps_up (number_key i u)" using assms by (auto simp: number_key_def Let_def array_at_in)
qed (use assms in \<open>auto simp: party_key_def invite_player_def accept_key_def reject_key_def inventory_key_def
      shop_key_def quest_key_def Let_def intro!: keeps_go_draw split: list.split\<close>)

lemma keeps_turn:
  assumes "client_ok (u_client u)" and "\<And>p. e = Packet p \<Longrightarrow> sc_safe p"
  shows "keeps_up (client_turn e u)"
proof (cases e)
  case (Key key)
  have "keeps_up (select_key key u)"
    using assms(1) by (auto simp: select_key_def CreateCharacter_def Let_def array_at_def split: list.split)
  moreover have "keeps_up (chat_mode u)"
    using assms(1) by (auto simp: chat_mode_def Let_def split: option.split prod.split)
  then have "keeps_up (game_key key u)"
    using assms(1) by (auto simp: game_key_def Let_def keeps_panels keeps_with_slot)
  ultimately show ?thesis using Key assms(1) by (simp add: key_turn_def split: GameState.split)
next
  case (Packet p)
  then show ?thesis using cl_handle_ok [OF assms(1), of p] assms(2)
    by (auto simp: ends_ok_def split: sum.splits)
qed

lemma keeps_run:
  assumes "client_ok (u_client u)" and "\<And>p. Packet p \<in> set es \<Longrightarrow> sc_safe p"
  shows "keeps_up (run_client es u)"
  using assms
proof (induction es arbitrary: u)
  case (Cons e es)
  have "keeps_up (client_turn e u)" using Cons.prems by (intro keeps_turn) auto
  with Cons show ?case
    by (auto simp: keeps_up_def [of "client_turn e u"] keeps_up_def [of "Some (Inl _)"]
        split: option.split sum.split prod.splits bool.split)
qed simp

subsection \<open>The nearest NPC\<close>

lemma npc_distance_bound: "npc_distance s npc < 2 ^ 31 - 1"
proof -
  have "\<bar>sint a - sint b\<bar> < 65536" for a b :: i16
    using sint_range_size [of a] sint_range_size [of b] by (simp add: word_size abs_less_iff)
  from this [of "cn_posX npc" "me_posX (c_myPlayer s)"] this [of "cn_posY npc" "me_posY (c_myPlayer s)"]
  show ?thesis unfolding npc_distance_def by simp
qed

lemma nearest_from_min:
  "(\<forall>(uid, npc) \<in> set npcs. m \<le> npc_distance s npc) \<and> nearest_from s m k npcs = k \<or>
   (\<exists>npc. (nearest_from s m k npcs, npc) \<in> set npcs \<and> npc_distance s npc < m \<and>
      (\<forall>(uid, other) \<in> set npcs. npc_distance s npc \<le> npc_distance s other))"
proof (induction s m k npcs rule: nearest_from.induct)
  case (2 s m k uid npc npcs)
  show ?case
  proof (cases "npc_distance s npc < m")
    case True
    have step: "nearest_from s m k ((uid, npc) # npcs) = nearest_from s (npc_distance s npc) uid npcs"
      using True by (simp add: Let_def)
    from 2(1) [OF refl True] show ?thesis
    proof (elim disjE conjE exE)
      assume "\<forall>(uid, npc') \<in> set npcs. npc_distance s npc \<le> npc_distance s npc'"
        "nearest_from s (npc_distance s npc) uid npcs = uid"
      with True show ?thesis unfolding step by (intro disjI2 exI [of _ npc]) auto
    next
      fix npc'
      assume "(nearest_from s (npc_distance s npc) uid npcs, npc') \<in> set npcs"
        "npc_distance s npc' < npc_distance s npc"
        "\<forall>(uid, other) \<in> set npcs. npc_distance s npc' \<le> npc_distance s other"
      with True show ?thesis unfolding step by (intro disjI2 exI [of _ npc']) auto
    qed
  next
    case False
    have step: "nearest_from s m k ((uid, npc) # npcs) = nearest_from s m k npcs"
      using False by (simp add: Let_def)
    from 2(2) [OF refl False] show ?thesis
    proof (elim disjE conjE exE)
      assume "\<forall>(uid, npc') \<in> set npcs. m \<le> npc_distance s npc'" "nearest_from s m k npcs = k"
      with False show ?thesis unfolding step by auto
    next
      fix npc'
      assume "(nearest_from s m k npcs, npc') \<in> set npcs" "npc_distance s npc' < m"
        "\<forall>(uid, other) \<in> set npcs. npc_distance s npc' \<le> npc_distance s other"
      with False show ?thesis unfolding step by (intro disjI2 exI [of _ npc']) auto
    qed
  qed
qed simp

lemma FindNearestNpc_min:
  assumes "c_npcs s \<noteq> []"
  shows "\<exists>npc. (FindNearestNpc s, npc) \<in> set (c_npcs s) \<and>
    (\<forall>(uid, other) \<in> set (c_npcs s). npc_distance s npc \<le> npc_distance s other)"
proof -
  obtain uid npc where "(uid, npc) \<in> set (c_npcs s)" using assms by (cases "c_npcs s") auto
  with npc_distance_bound [of s npc] have "\<not> (\<forall>(uid, npc) \<in> set (c_npcs s). 2 ^ 31 - 1 \<le> npc_distance s npc)" by force
  with nearest_from_min [of "c_npcs s" "2 ^ 31 - 1" s 0] show ?thesis unfolding FindNearestNpc_def by blast
qed

subsection \<open>The chat line\<close>

text \<open>Erasing takes off what one key appended: the byte that starts an encoding continues none.\<close>

lemma of_char_code: "n < 256 \<Longrightarrow> of_char (char_of n) = (n :: nat)"
  by simp

lemma utf8_shape: "\<exists>c cs. utf8 wc = c # cs \<and> \<not> is_continuation c \<and> list_all is_continuation cs"
proof -
  have "unat wc < 65536" using unsigned_less [of wc, where 'a = nat] by simp
  then have lead: "unat wc div 4096 < 16" by simp
  have two: "unat wc div 64 < 32" if "unat wc < 2048" using that by simp
  have cont: "is_continuation (char_of (128 + n mod 64))" for n :: nat
    by (simp add: is_continuation_def)
  have none: "\<not> is_continuation (char_of n)" if "n < 128" for n :: nat
    using that by (simp add: is_continuation_def)
  have big: "\<not> is_continuation (char_of n)" if "192 \<le> n" "n < 256" for n :: nat
  proof -
    have "3 \<le> n div 64" using that(1) div_le_mono [of 192 n 64] by simp
    then show ?thesis using that(2) by (simp add: is_continuation_def)
  qed
  have "\<not> is_continuation (CHR 0xEF)" "is_continuation (CHR 0xBF)" "is_continuation (CHR 0xBD)"
    by (simp_all add: is_continuation_def)
  then show ?thesis using lead two cont none big by (auto simp: utf8_def Let_def)
qed

lemma drop_char_conts:
  "list_all is_continuation cs \<Longrightarrow> \<not> is_continuation c \<Longrightarrow> drop_char (cs @ c # s) = s"
proof (induction cs)
  case Nil
  then show ?case by (cases s) simp_all
next
  case (Cons d cs)
  then show ?case by (cases cs) auto
qed

lemma erase_typed: "erase_last (input @ utf8 wc) = input"
proof -
  obtain c cs where u: "utf8 wc = c # cs" "\<not> is_continuation c" "list_all is_continuation cs"
    using utf8_shape by blast
  then have "rev (input @ utf8 wc) = rev cs @ c # rev input" by simp
  with drop_char_conts [of "rev cs" c "rev input"] u show ?thesis by (simp add: erase_last_def list_all_rev)
qed

text \<open>A key that is erased again leaves no trace.\<close>

lemma chat_keys_erased:
  "wc \<notin> {8, 10, 13, 127} \<Longrightarrow> chat_keys input (wc # 8 # keys) = chat_keys input keys"
  by (simp add: erase_typed)

lemma tolower_W: "tolower (CHR ''W'') = CHR ''w''"
  by code_simp

lemma tolower_lower [simp]: "tolower (CHR ''b'') = CHR ''b''" "tolower (CHR ''u'') = CHR ''u''"
  by (simp_all add: tolower_def)

subsection \<open>Properties\<close>

text \<open>C16: Every request the client sends, whatever is typed and whatever the server sends, is one the
  server can read, a move goes one cell in one direction, and a slot is below the size of the
  inventory.\<close>

theorem requests_well_formed:
  assumes "run_client es \<lparr>u_client = s, u_console = con, u_sent = []\<rparr> = Some (Inr (b, u))"
  shows "list_all (\<lambda>p. request_ok p \<and> cs_ok p) (u_sent u)"
  using run_client_asks [OF assms] by simp

theorem requests_well_formed_witness:
  "list_all (\<lambda>p. request_ok p \<and> cs_ok p) [move_by 0 (- 1), C_ShopOpen]"
proof -
  let ?con = "\<lparr>con_keys = [], con_wide = [], con_words = [], con_numbers = []\<rparr>"
  let ?u = "\<lparr>u_client = new_client\<lparr>c_gameState := InGame\<rparr>, u_console = ?con, u_sent = []\<rparr>"
  have "\<exists>u. run_client [Key (CHR ''W''), Key (CHR ''b'')] ?u = Some (Inr (True, u)) \<and>
      u_sent u = [move_by 0 (- 1), C_ShopOpen]"
    by (simp add: key_turn_def game_key_def tolower_W go_on_def send_def shop_key_def upd_client_def
        new_client_def Let_def)
  then obtain u where "run_client [Key (CHR ''W''), Key (CHR ''b'')] ?u = Some (Inr (True, u))"
    "u_sent u = [move_by 0 (- 1), C_ShopOpen]" by blast
  then show ?thesis using requests_well_formed [of "[Key (CHR ''W''), Key (CHR ''b'')]"] by metis
qed

text \<open>C26: With the turns of the key loop and of the receive thread taken one at a time, the only way a
  client whose arrays are in order goes down, on any keys and any well-formed messages whose counts
  fit its arrays, is a slot number too large for an int: no key and no message makes it access an
  array or a vector outside its bounds.\<close>

theorem client_goes_down_only:
  assumes "client_ok s" and "\<And>p. Packet p \<in> set es \<Longrightarrow> sc_safe p"
    and "run_client es \<lparr>u_client = s, u_console = con, u_sent = sent\<rparr> = Some (Inl e)"
  shows "e = OutOfRange"
  using keeps_run [of "\<lparr>u_client = s, u_console = con, u_sent = sent\<rparr>" es] assms
  by (simp add: keeps_up_def)

lemma big_slot_crashes:
  "run_client [Key (CHR ''u'')] \<lparr>u_client = new_client\<lparr>c_gameState := InGame, c_showInventory := True\<rparr>,
     u_console = \<lparr>con_keys = ''9999999999'' @ [CR], con_wide = [], con_words = [], con_numbers = []\<rparr>,
     u_sent = []\<rparr> = Some (Inl OutOfRange)"
  by (simp add: key_turn_def game_key_def with_slot_def ReadSlot_def CR_def ESC_def is_digit_def
      stoi_def Let_def)

theorem client_goes_down_only_witness:
  "\<exists>e. run_client [Key (CHR ''u'')] \<lparr>u_client = new_client\<lparr>c_gameState := InGame, c_showInventory := True\<rparr>,
     u_console = \<lparr>con_keys = ''9999999999'' @ [CR], con_wide = [], con_words = [], con_numbers = []\<rparr>,
     u_sent = []\<rparr> = Some (Inl e) \<and> e = OutOfRange"
proof -
  obtain e where "run_client [Key (CHR ''u'')] \<lparr>u_client = new_client\<lparr>c_gameState := InGame, c_showInventory := True\<rparr>,
     u_console = \<lparr>con_keys = ''9999999999'' @ [CR], con_wide = [], con_words = [], con_numbers = []\<rparr>,
     u_sent = []\<rparr> = Some (Inl e)" using big_slot_crashes by blast
  with client_goes_down_only [OF _ _ this] show ?thesis by auto
qed

text \<open>The attack key aims at an NPC the client knows that is no further away, by the sum of the two
  coordinate distances, than any other.\<close>

theorem nearest_is_nearest:
  assumes "c_npcs s \<noteq> []"
  shows "\<exists>npc. (FindNearestNpc s, npc) \<in> set (c_npcs s) \<and>
    (\<forall>(uid, other) \<in> set (c_npcs s). npc_distance s npc \<le> npc_distance s other)"
  using assms by (rule FindNearestNpc_min)

theorem nearest_is_nearest_witness:
  "FindNearestNpc (new_client\<lparr>c_npcs := [(7, \<lparr>cn_uid = 7, cn_posX = 0, cn_posY = 0, cn_hp = 30, cn_maxHp = 30\<rparr>)]\<rparr>) = 7"
  using nearest_is_nearest [of "new_client\<lparr>c_npcs := [(7, \<lparr>cn_uid = 7, cn_posX = 0, cn_posY = 0, cn_hp = 30, cn_maxHp = 30\<rparr>)]\<rparr>"]
  by simp

text \<open>C40: Typing a key into the chat line and erasing it leaves the line as it was, byte for byte, whatever
  the encoding of the key is.\<close>

theorem typed_and_erased:
  assumes "wc \<notin> {8, 10, 13, 127}"
  shows "chat_keys input (wc # 8 # keys) = chat_keys input keys"
  using assms by (rule chat_keys_erased)

theorem typed_and_erased_witness: "chat_keys ''hi'' [0xAC00, 8, 13] = Some (''hi'', [])"
  using typed_and_erased [of "0xAC00" "''hi''" "[13]"] by simp

end
