(* ===== verification/Client_View.thy ===== *)
theory Client_View
  imports Client_Input
begin

text \<open>
  What of the client's state depends on the messages alone. The locale \<open>key_view\<close> is a part of the
  state that drawing, opening panels and writing a message leave alone: no key changes it. When
  every handler changes it by a function of the message and of the part itself (\<open>packet_view\<close>), it
  is after any run the fold of that function over the messages of the run.
\<close>

fun packets_of :: "event list \<Rightarrow> sc_packet list" where
  "packets_of [] = []"
| "packets_of (Packet p # es) = p # packets_of es"
| "packets_of (Key k # es) = packets_of es"

lemma packets_of_map: "packets_of (map Packet ps) = ps"
  by (induction ps) simp_all

lemma run_client_packets:
  "run_packets cl_handle ps (u_client u) = Inr s \<Longrightarrow> run_client (map Packet ps) u = Some (Inr (True, u\<lparr>u_client := s\<rparr>))"
proof (induction ps arbitrary: u)
  case (Cons p ps)
  then obtain s1 where "cl_handle p (u_client u) = Inr s1" "run_packets cl_handle ps s1 = Inr s"
    by (auto simp: bind_result_Inr)
  then show ?case using Cons.IH [of "u\<lparr>u_client := s1\<rparr>"] by (simp add: go_on_def)
qed (simp add: go_on_def)

subsection \<open>A part of the state that keys leave alone\<close>

definition turn_keeps :: "(client \<Rightarrow> 'v) \<Rightarrow> 'v \<Rightarrow> turn \<Rightarrow> bool" where
  "turn_keeps view v t \<longleftrightarrow> (case t of Some (Inr bu) \<Rightarrow> view (u_client (snd bu)) = v | _ \<Rightarrow> True)"

lemma turn_keeps_go_on [simp]: "turn_keeps view v (go_on u) \<longleftrightarrow> view (u_client u) = v"
  by (simp add: turn_keeps_def go_on_def)

lemma turn_keeps_simps [simp]:
  "turn_keeps view v None" "turn_keeps view v (Some (Inl e))"
  "turn_keeps view v (Some (Inr (b, u))) \<longleftrightarrow> view (u_client u) = v"
  by (simp_all add: turn_keeps_def)

definition ends_with :: "(client \<Rightarrow> 'v) \<Rightarrow> 'v \<Rightarrow> client result \<Rightarrow> bool" where
  "ends_with view v r \<longleftrightarrow> (case r of Inl e \<Rightarrow> True | Inr s \<Rightarrow> view s = v)"

lemma ends_with_simps [simp]: "ends_with view v (Inl e)" "ends_with view v (Inr s) \<longleftrightarrow> view s = v"
  by (simp_all add: ends_with_def)

lemma ends_c_text: "ends_with view v r \<Longrightarrow> ends_with view v (c_text n t r)"
  by (simp add: c_text_def)

lemmas cl_handlers = cl_OnLoginResult_def cl_OnCharCreateResult_def cl_OnCharInfo_def cl_OnCharLeave_def
  cl_OnMoveResult_def cl_OnNpcSpawn_def cl_OnNpcDeath_def cl_OnAttackResult_def cl_OnExpUpdate_def
  cl_OnLevelUp_def cl_OnHeartbeat_def cl_OnAttendanceInfo_def cl_OnAttendanceResult_def cl_OnItemDrop_def
  cl_OnItemUseResult_def cl_OnEquipResult_def cl_OnInventoryUpdate_def cl_OnInventoryList_def
  cl_OnShopList_def cl_OnShopResult_def cl_OnQuestListResult_def cl_OnQuestAcceptResult_def
  cl_OnQuestProgressUpdate_def cl_OnQuestRewardResult_def cl_OnPartyInviteRecv_def cl_OnPartyUpdateRecv_def
  cl_OnPartyLeaveRecv_def cl_OnChatMsg_def cl_OnError_def

lemma ends_bind: "(\<And>s. r = Inr s \<Longrightarrow> ends_with view v (f s)) \<Longrightarrow> ends_with view v (bind_result r f)"
  by (cases r) simp_all

lemma array_take_Inr: "array_take n xs = Inr ys \<Longrightarrow> ys = take n xs"
  by (simp add: array_take_def split: if_splits)

lemma set_item_Inr: "set_item slot itemId name s = Inr s' \<Longrightarrow> s' = (if unat slot < MAX_INVENTORY
    then s\<lparr>c_inventory := (c_inventory s)[unat slot := \<lparr>csl_itemId = itemId, csl_name = name\<rparr>]\<rparr> else s)"
  by (auto simp: set_item_def array_put_def split: if_splits)

lemma ends_CharList:
  "(\<And>es. view (DrawCharSelect (s\<lparr>c_charList := es, c_gameState := CharSelect\<rparr>)) = v) \<Longrightarrow> ends_with view v (cl_OnCharList l s)"
  by (simp add: cl_OnCharList_def ends_bind)

locale key_view =
  fixes view :: "client \<Rightarrow> 'v"
  assumes view_screen: "view (s\<lparr>c_screen := t\<rparr>) = view s"
    and view_say: "view (say t s) = view s"
    and view_party: "view (s\<lparr>c_partyCount := n\<rparr>) = view s"
    and view_invite: "view (s\<lparr>c_pendingInvite := b\<rparr>) = view s"
    and view_inventory: "view (s\<lparr>c_showInventory := b\<rparr>) = view s"
    and view_shop: "view (s\<lparr>c_showShop := b\<rparr>) = view s"
    and view_quests: "view (s\<lparr>c_showQuestList := b\<rparr>) = view s"
begin

lemmas view_fields = view_screen view_say view_party view_invite view_inventory view_shop view_quests

lemma view_DrawMap: "DrawMap s = Inr s' \<Longrightarrow> view s' = view s"
  by (auto simp: DrawMap_def view_fields split: if_splits)

lemma ends_DrawMap: "view s = v \<Longrightarrow> ends_with view v (DrawMap s)"
  by (simp add: DrawMap_def view_fields)

lemma ends_redraw: "view s = v \<Longrightarrow> ends_with view v (redraw s)"
  by (simp add: redraw_def ends_DrawMap)

lemma turn_go_draw: "view (u_client u) = v \<Longrightarrow> turn_keeps view v (go_draw u)"
  by (auto simp: turn_keeps_def go_draw_def view_DrawMap split: sum.splits)

lemma view_close_panel:
  "close_panel open_now hide s = Inr s' \<Longrightarrow> (\<And>s. view (hide s) = view s) \<Longrightarrow> view s' = view s"
  using view_DrawMap [of "hide s" s'] by (auto simp: close_panel_def split: if_splits)

lemma view_close_panels:
  assumes "close_panels s = Inr s'"
  shows "view s' = view s"
proof -
  from assms obtain s1 s2 where
      "close_panel c_showInventory (\<lambda>s. s\<lparr>c_showInventory := False\<rparr>) s = Inr s1"
      "close_panel c_showShop (\<lambda>s. s\<lparr>c_showShop := False\<rparr>) s1 = Inr s2"
      "close_panel c_showQuestList (\<lambda>s. s\<lparr>c_showQuestList := False\<rparr>) s2 = Inr s'"
    by (auto simp: close_panels_def bind_result_Inr)
  from this [THEN view_close_panel] show ?thesis by (simp add: view_fields)
qed

lemma turn_panels:
  "turn_keeps view (view (u_client u)) (party_key u)" "turn_keeps view (view (u_client u)) (accept_key u)"
  "turn_keeps view (view (u_client u)) (reject_key u)" "turn_keeps view (view (u_client u)) (inventory_key u)"
  "turn_keeps view (view (u_client u)) (shop_key u)" "turn_keeps view (view (u_client u)) (quest_key u)"
  "turn_keeps view (view (u_client u)) (number_key i u)" "turn_keeps view (view (u_client u)) (escape_key u)"
  "turn_keeps view (view (u_client u)) (chat_mode u)" "turn_keeps view (view (u_client u)) (select_key k u)"
  "turn_keeps view (view (u_client u)) (with_slot r u)"
  by (auto simp: party_key_def invite_player_def accept_key_def reject_key_def inventory_key_def shop_key_def
      quest_key_def number_key_def escape_key_def view_close_panels chat_mode_def select_key_def with_slot_def
      CreateCharacter_def Let_def view_fields intro!: turn_go_draw split: list.split sum.split option.split prod.split)

lemma turn_key: "turn_keeps view (view (u_client u)) (key_turn key u)"
proof -
  have "turn_keeps view (view (u_client u)) (game_key key u)"
    by (simp add: game_key_def Let_def turn_panels)
  then show ?thesis by (simp add: key_turn_def turn_panels split: GameState.split)
qed

end

subsection \<open>A part of the state that messages determine\<close>

locale packet_view = key_view view
  for view :: "client \<Rightarrow> 'v" +
  fixes seen :: "sc_packet \<Rightarrow> 'v \<Rightarrow> 'v"
  assumes ends_handle: "ends_with view (seen p (view s)) (cl_handle p s)"
begin

lemma handled: "cl_handle p s = Inr s' \<Longrightarrow> view s' = seen p (view s)"
  using ends_handle [of p s] by simp

lemma run_packets_view:
  "run_packets cl_handle ps s = Inr s' \<Longrightarrow> view s' = fold seen ps (view s)"
proof (induction ps arbitrary: s)
  case (Cons p ps)
  then obtain s1 where "cl_handle p s = Inr s1" "run_packets cl_handle ps s1 = Inr s'"
    by (auto simp: bind_result_Inr)
  with Cons.IH [OF this(2)] handled [of p s s1] show ?case by simp
qed simp

lemma run_client_view:
  assumes "run_client es u = Some (Inr (True, u'))"
  shows "view (u_client u') = fold seen (packets_of es) (view (u_client u))"
  using assms
proof (induction es arbitrary: u)
  case (Cons e es)
  then obtain u1 where turn: "client_turn e u = Some (Inr (True, u1))" and rest: "run_client es u1 = Some (Inr (True, u'))"
    by (auto split: option.splits sum.splits bool.splits)
  show ?case
  proof (cases e)
    case (Key key)
    then show ?thesis using Cons.IH [OF rest] turn turn_key [of u key] by (simp add: turn_keeps_def)
  next
    case (Packet p)
    then show ?thesis using Cons.IH [OF rest] turn handled [of p "u_client u"]
      by (auto simp: go_on_def split: sum.splits)
  qed
qed (simp add: go_on_def)

end

end
