(* ===== verification/Sample_Run.thy ===== *)
theory Sample_Run
  imports World_Invariant
begin

text \<open>
  A run of the sample server: two clients connect, the first invites the second into a party,
  the second accepts, and then its connection is lost. Its worlds are reached from the
  initial world by steps of the transition system, so the properties of reached worlds are
  evaluated at them; a heartbeat is the read they are evaluated at.
\<close>

definition invite_payload :: "u8 list" where
  "invite_payload = replicate (MAX_RECV_BUFFER_SIZE - HEADER_SIZE) 0"

definition accept_payload :: "u8 list" where
  "accept_payload = 1 # replicate (MAX_RECV_BUFFER_SIZE - HEADER_SIZE - 1) 0"

definition one_client :: "nat world" where
  "one_client = Accept (initial_world sample_env 0)"

definition two_clients :: "nat world" where
  "two_clients = Accept one_client"

definition invited :: "nat world" where
  "invited = snd (try_invite 1 (lget CS_PartyInvite_L invite_payload) two_clients)"

definition joined :: "nat world" where
  "joined = OnPartyAccept 2 (lget CS_PartyAccept_L accept_payload) invited"

definition dropped :: "nat world" where
  "dropped = ReadError 2 joined"

lemma payload_lengths:
  "length invite_payload = MAX_RECV_BUFFER_SIZE - HEADER_SIZE"
  "length accept_payload = MAX_RECV_BUFFER_SIZE - HEADER_SIZE"
  by (simp_all add: invite_payload_def accept_payload_def MAX_RECV_BUFFER_SIZE_def HEADER_SIZE_def)

lemma byte_char_zero: "byte_char 0 = CHR 0x00"
  by (simp add: byte_char_def char_of_def)

lemma payload_structs:
  "cpi_targetName (lget CS_PartyInvite_L invite_payload) = replicate 20 CHR 0x00"
  "pa_accept (lget CS_PartyAccept_L accept_payload) = 1"
  by (simp_all add: CS_PartyInvite_L_def CS_PartyAccept_L_def viaL_def arrayL_def wordL_def invite_payload_def
      accept_payload_def MAX_RECV_BUFFER_SIZE_def HEADER_SIZE_def byte_char_zero min_def)

subsection \<open>The worlds of the run\<close>

lemma one_client_maps:
  "w_sessions one_client = [(1, new_session)]" "w_nextSessionId one_client = 2" "w_playerParty one_client = []"
  "w_parties one_client = []" "w_pendingInvites one_client = []" "w_nextPartyId one_client = 1"
  by (simp_all add: one_client_def Accept_def AddSession_def initial_rest)

lemma two_clients_maps:
  "w_sessions two_clients = [(1, new_session), (2, new_session)]" "w_playerParty two_clients = []"
  "w_parties two_clients = []" "w_pendingInvites two_clients = []" "w_nextPartyId two_clients = 1"
  by (simp_all add: two_clients_def Accept_def AddSession_def one_client_maps)

lemma invited_maps:
  "w_sessions invited = [(1, new_session), (2, new_session)]" "w_playerParty invited = []"
  "w_parties invited = []" "w_pendingInvites invited = [(2, 1)]" "w_nextPartyId invited = 1"
proof -
  have "find_target two_clients (replicate 20 CHR 0x00) = Some 2"
    by (simp add: find_target_def two_clients_maps new_session_def new_player_def strncmp_eq_def cstr_def numeral_nat)
  then show "w_sessions invited = [(1, new_session), (2, new_session)]" "w_playerParty invited = []"
    "w_parties invited = []" "w_pendingInvites invited = [(2, 1)]" "w_nextPartyId invited = 1"
    by (simp_all add: invited_def try_invite_def Let_def two_clients_maps payload_structs)
qed

lemma joined_party: "party_of joined 2 = Some 1" "live joined 1" "live joined 2"
proof -
  have live: "live invited 1" "live invited 2" by (simp_all add: live_def GetSession_def invited_maps)
  then have "accepts invited 2 (lget CS_PartyAccept_L accept_payload) 1"
    by (simp add: accepts_def invited_maps payload_structs)
  from OnPartyAccept_maps(1) [OF this, of 2] show "party_of joined 2 = Some 1"
    by (simp add: joined_def host_members_def host_party_def party_of_def party_at_def invited_maps MAX_PARTY_def)
  show "live joined 1" "live joined 2" using live by (simp_all add: joined_def)
qed

lemma dropped_gone: "\<not> live dropped 2"
  by (simp add: dropped_def ReadError_def live_def GetSession_def OnDisconnect_fields)

lemma first_client: "GetSession one_client 1 = Some new_session"
  by (simp add: GetSession_def one_client_maps)

subsection \<open>The run is a run of the transition system\<close>

lemma invited_step: "server_step sample_env two_clients invited"
proof (rule server_step.packet [OF _ payload_lengths(1)])
  show "live two_clients 1" by (simp add: live_def GetSession_def two_clients_maps)
  show "HandlePacket sample_env 1 \<lparr>ph_length = 24, ph_type = packet_code CS_PARTY_INVITE\<rparr> invite_payload two_clients
      = Inr invited"
    by (simp add: HandlePacket_known [where t = CS_PARTY_INVITE] invited_def payload_structs terminated_def
        del: packet_code.simps)
qed

lemma joined_step: "server_step sample_env invited joined"
proof (rule server_step.packet [OF _ payload_lengths(2)])
  show "live invited 2" by (simp add: live_def GetSession_def invited_maps)
  show "HandlePacket sample_env 2 \<lparr>ph_length = 5, ph_type = packet_code CS_PARTY_ACCEPT\<rparr> accept_payload invited
      = Inr joined"
    by (simp add: HandlePacket_known [where t = CS_PARTY_ACCEPT] joined_def del: packet_code.simps)
qed

abbreviation run_of :: "nat \<Rightarrow> nat world \<Rightarrow> bool" where
  "run_of n w \<equiv> reached (server_step sample_env) (initial_world sample_env 0) n w"

lemma one_client_reached: "run_of (Suc 0) one_client"
  unfolding one_client_def by (rule reached.after, rule reached.here, rule server_step.accept)

lemma two_clients_reached: "run_of (Suc (Suc 0)) two_clients"
  unfolding two_clients_def by (rule reached.after [OF one_client_reached server_step.accept])

lemma joined_reached: "run_of (Suc (Suc (Suc (Suc 0)))) joined"
  by (rule reached.after [OF reached.after [OF two_clients_reached invited_step] joined_step])

lemma dropped_reached: "run_of (Suc (Suc (Suc (Suc (Suc 0))))) dropped"
  unfolding dropped_def by (rule reached.after [OF joined_reached server_step.read_error [OF joined_party(3)]])

subsection \<open>A heartbeat\<close>

definition heartbeat :: "u8 list" where
  "heartbeat = cs_frame C_Heartbeat"

lemma le_put_2: "le_put 2 v = [word_of_nat v, word_of_nat (v div 256)]"
  by (simp add: numeral_2_eq_2)

lemma heartbeat_bytes: "heartbeat = [4, 0, 1, 255]"
  by (simp add: heartbeat_def cs_frame_def frame_bytes_def HEADER_SIZE_def PacketHeader_L_def viaL_def pairL_def
      wordL_def le_put_2)

lemma heartbeat_stream: "heartbeat = stream [C_Heartbeat]"
  by (simp add: heartbeat_def)

text \<open>Read in one piece, and in two.\<close>

lemma heartbeat_read:
  "\<exists>w'. ReadDone sample_env 1 heartbeat one_client = Some (Inr w')"
proof -
  have frame: "cs_frame C_Heartbeat = [4, 0, 1, 255]" using heartbeat_bytes by (simp add: heartbeat_def)
  have "incomplete []" by (simp add: incomplete_def HEADER_SIZE_def)
  then obtain buf where
    "OnReadComplete (HandlePacket sample_env 1) heartbeat (s_recvBuffer new_session, 0, one_client)
       = Some (Inr (buf, 0, OnHeartbeat 1 one_client))"
    using server_sink.read_delivers [of "[C_Heartbeat]" "[]" 0 "s_recvBuffer new_session" heartbeat sample_env 1
        one_client]
    by (auto simp: frame heartbeat_def new_session_def MAX_RECV_BUFFER_SIZE_def)
  then show ?thesis by (simp add: ReadDone_def first_client new_session_def)
qed

lemma heartbeat_halves:
  "reads_fit (HandlePacket sample_env 1) [[4, 0], [1, 255]] (s_recvBuffer new_session, 0, one_client)"
  by (simp add: new_session_def read_fits_def OnReadComplete_def ProcessBuffer_short HEADER_SIZE_def
      MAX_RECV_BUFFER_SIZE_def split: option.split sum.split)

lemma sample_short_names: "short_names sample_env"
  by (simp add: short_names_def sample_env_def sample_item_def cstr_def)

end
