(* ===== verification/Mirror.thy ===== *)
theory Mirror
  imports Server_Messages Client_View Sample_Run
begin

text \<open>
  What a client knows of the server. The inventory a client shows is made of messages alone:
  \<open>shown\<close> is the item ids after a list of messages, and the client's handlers compute it. The
  invariant \<open>in_step\<close> says that for every connected session whose inventory was loaded at most once,
  before any other inventory message, what was sent so far shows the inventory the server has. It is
  an instance of \<open>bag_invariant\<close> and holds in every reached world.
\<close>

subsection \<open>What the messages show\<close>

definition put_id :: "u8 \<Rightarrow> u16 \<Rightarrow> u16 list \<Rightarrow> u16 list" where
  "put_id slot t ts = (if unat slot < MAX_INVENTORY then ts[unat slot := t] else ts)"

fun show_message :: "sc_packet \<Rightarrow> u16 list \<Rightarrow> u16 list" where
  "show_message (P_ItemDrop d) ts = put_id (idr_slot d) (idr_itemId d) ts"
| "show_message (P_InventoryUpdate u) ts = put_id (iu_slot u) (iu_itemId u) ts"
| "show_message (P_InventoryList l) ts =
     fold (\<lambda>u. put_id (iu_slot u) (iu_itemId u)) (take (min (unat (il_count l)) MAX_INVENTORY) (il_items l)) ts"
| "show_message p ts = ts"

definition shown_ids :: "client \<Rightarrow> u16 list" where
  "shown_ids s = map csl_itemId (c_inventory s)"

definition shown :: "sc_packet list \<Rightarrow> u16 list" where
  "shown ps = fold show_message ps (replicate MAX_INVENTORY 0)"

lemma length_put_id [simp]: "length (put_id i t ts) = length ts"
  by (simp add: put_id_def)

lemma length_put_ids: "length (fold (\<lambda>u. put_id (iu_slot u) (iu_itemId u)) us ts) = length ts"
  by (rule fold_keeps) simp

lemma length_show_message [simp]: "length (show_message p ts) = length ts"
  by (cases p) (simp_all add: length_put_ids)

lemma length_shown [simp]: "length (shown ps) = MAX_INVENTORY"
  unfolding shown_def by (subst fold_keeps [where g = length]) simp_all

lemma show_quiet: "\<not> about_inventory p \<Longrightarrow> show_message p ts = ts"
  by (cases p) simp_all

lemma shown_about: "shown (filter about_inventory ps) = shown ps"
proof -
  have "fold show_message (filter about_inventory ps) ts = fold show_message ps ts" for ts
    by (induction ps arbitrary: ts) (simp_all add: show_quiet)
  then show ?thesis by (simp add: shown_def)
qed

subsection \<open>The client computes it\<close>

lemma shown_ids_fields [simp]:
  "shown_ids (upd_me f s) = shown_ids s" "shown_ids (say t s) = shown_ids s"
  "shown_ids (print_out t s) = shown_ids s" "shown_ids (s\<lparr>c_screen := t\<rparr>) = shown_ids s"
  "shown_ids (draw_if_selecting s) = shown_ids s" "shown_ids (DrawCharSelect s) = shown_ids s"
  "shown_ids (upd_quest q g s) = shown_ids s" "shown_ids (s\<lparr>c_gameState := gs\<rparr>) = shown_ids s"
  "shown_ids (s\<lparr>c_npcs := ns\<rparr>) = shown_ids s" "shown_ids (s\<lparr>c_otherPlayers := os\<rparr>) = shown_ids s"
  "shown_ids (s\<lparr>c_partyCount := n\<rparr>) = shown_ids s" "shown_ids (s\<lparr>c_attendance := a\<rparr>) = shown_ids s"
  "shown_ids (s\<lparr>c_chatLog := l\<rparr>) = shown_ids s" "shown_ids (s\<lparr>c_charList := cs\<rparr>) = shown_ids s"
  "shown_ids (s\<lparr>c_accountUid := u\<rparr>) = shown_ids s"
  "shown_ids (s\<lparr>c_equippedWeapon := wn\<rparr>) = shown_ids s" "shown_ids (s\<lparr>c_equippedArmor := an\<rparr>) = shown_ids s"
  "shown_ids (s\<lparr>c_shopCount := n\<rparr>) = shown_ids s" "shown_ids (s\<lparr>c_shopItems := si\<rparr>) = shown_ids s"
  "shown_ids (s\<lparr>c_showShop := b\<rparr>) = shown_ids s" "shown_ids (s\<lparr>c_questCount := n\<rparr>) = shown_ids s"
  "shown_ids (s\<lparr>c_questEntries := qe\<rparr>) = shown_ids s" "shown_ids (s\<lparr>c_showQuestList := b\<rparr>) = shown_ids s"
  "shown_ids (s\<lparr>c_partyMembers := pm\<rparr>) = shown_ids s" "shown_ids (s\<lparr>c_pendingInvite := b\<rparr>) = shown_ids s"
  "shown_ids (s\<lparr>c_inviterName := t\<rparr>) = shown_ids s" "shown_ids (s\<lparr>c_showInventory := b\<rparr>) = shown_ids s"
  by (simp_all add: shown_ids_def upd_me_def say_def print_out_def draw_if_selecting_def DrawCharSelect_def
      upd_quest_def)

lemma shown_ids_set_item: "set_item slot t name s = Inr s' \<Longrightarrow> shown_ids s' = put_id slot t (shown_ids s)"
  by (drule set_item_Inr) (simp add: shown_ids_def put_id_def map_update)

lemma shown_ids_put_updates: "fold_result put_update us s = Inr s' \<Longrightarrow>
    shown_ids s' = fold (\<lambda>u. put_id (iu_slot u) (iu_itemId u)) us (shown_ids s)"
  by (induction us arbitrary: s) (auto simp: put_update_def bind_result_Inr dest: shown_ids_set_item)

interpretation bag_view: key_view shown_ids
  by unfold_locales simp_all

lemma cl_handle_inventory: "ends_with shown_ids (show_message p (shown_ids s)) (cl_handle p s)"
  by (cases p) (auto simp: cl_handlers put_update_def Let_def
      dest!: array_take_Inr shown_ids_set_item shown_ids_put_updates
      intro!: ends_CharList ends_bind ends_c_text bag_view.ends_redraw bag_view.ends_DrawMap split: option.split)

interpretation bag_view: packet_view shown_ids show_message
  by unfold_locales (rule cl_handle_inventory)

lemma shown_ids_new: "shown_ids new_client = replicate MAX_INVENTORY 0"
  by (simp add: shown_ids_def new_client_def)

subsection \<open>What was sent to a session\<close>

definition sent_to :: "SessionId \<Rightarrow> 'd world \<Rightarrow> sc_packet list" where
  "sent_to sid w = map snd (filter (\<lambda>(i, p). i = sid) (w_out w))"

definition inv_log :: "'d world \<Rightarrow> SessionId \<Rightarrow> sc_packet list" where
  "inv_log w sid = filter about_inventory (sent_to sid w)"

definition connected :: "'d world \<Rightarrow> SessionId \<Rightarrow> bool" where
  "connected w sid \<longleftrightarrow> (case GetSession w sid of None \<Rightarrow> False | Some s \<Rightarrow> s_connected s)"

definition bag_ids :: "'d world \<Rightarrow> SessionId \<Rightarrow> u16 list" where
  "bag_ids w sid = map sl_itemTid (inv_slots (get_inv w sid))"

lemma sent_to_append: "w_out w' = w_out w @ xs \<Longrightarrow> sent_to sid w' = sent_to sid w @ map snd (filter (\<lambda>(i, p). i = sid) xs)"
  by (simp add: sent_to_def)

lemma inv_log_cong: "w_out w' = w_out w \<Longrightarrow> inv_log w' = inv_log w"
  by (simp add: inv_log_def sent_to_def fun_eq_iff)

lemma connected_cong: "w_sessions w' = w_sessions w \<Longrightarrow> connected w' = connected w"
  by (simp add: connected_def GetSession_def fun_eq_iff)

lemma inv_log_Send:
  "inv_log (Send j p w) i = inv_log w i @ (if i = j \<and> about_inventory p \<and> connected w j then [p] else [])"
  by (simp add: inv_log_def sent_to_append [OF w_out_Send] connected_def session_send_def split: option.split)

lemma inv_log_quiet:
  assumes "\<not> about_inventory p"
  shows "inv_log (Send j p w) = inv_log w" "inv_log (Broadcast p w) = inv_log w"
    "inv_log (BroadcastExcept j p w) = inv_log w"
proof -
  show "inv_log (Send j p w) = inv_log w" using assms by (simp add: fun_eq_iff inv_log_Send)
  have "filter about_inventory (map snd (filter (\<lambda>(i, q). i = sid) (map (\<lambda>(i, s). (i, p)) ys))) = []"
    for sid and ys :: "(SessionId \<times> Session) list"
    using assms by (auto simp: filter_empty_conv)
  then show "inv_log (Broadcast p w) = inv_log w" "inv_log (BroadcastExcept j p w) = inv_log w"
    by (simp_all add: fun_eq_iff inv_log_def sent_to_append [OF w_out_Broadcast] sent_to_append [OF w_out_BroadcastExcept])
qed

lemma connected_frame [simp]:
  "connected (Send j p w) = connected w" "connected (Broadcast p w) = connected w"
  "connected (BroadcastExcept j p w) = connected w" "connected (ensure_inv j w) = connected w"
  "connected (set_inv j iv w) = connected w" "connected (snd (AddItemToDB E c t w)) = connected w"
  "connected (RemoveItemFromDB E u w) = connected w" "connected (EquipItemDB E c s u w) = connected w"
  "connected (w\<lparr>w_db := d\<rparr>) = connected w"
  by (rule connected_cong, simp)+

lemma connected_upd_player [simp]: "connected (upd_player j f w) = connected w"
  by (simp add: fun_eq_iff connected_def GetSession_upd_player split: option.split)

lemma inv_log_frame [simp]:
  "inv_log (upd_player j f w) = inv_log w" "inv_log (ensure_inv j w) = inv_log w"
  "inv_log (set_inv j iv w) = inv_log w" "inv_log (snd (AddItemToDB E c t w)) = inv_log w"
  "inv_log (RemoveItemFromDB E u w) = inv_log w" "inv_log (EquipItemDB E c s u w) = inv_log w"
  "inv_log (w\<lparr>w_db := d\<rparr>) = inv_log w"
  by (rule inv_log_cong, simp)+

subsection \<open>In step\<close>

fun is_list :: "sc_packet \<Rightarrow> bool" where
  "is_list (P_InventoryList l) \<longleftrightarrow> True"
| "is_list p \<longleftrightarrow> False"

text \<open>The inventory is loaded at most once, before anything else is said about it.\<close>

definition orderly :: "sc_packet list \<Rightarrow> bool" where
  "orderly ps \<longleftrightarrow> list_all (\<lambda>p. \<not> is_list p) (tl ps)"

text \<open>An item the server has no data for is never named to the client.\<close>

definition slot_shown :: "'d env \<Rightarrow> u16 \<Rightarrow> u16 \<Rightarrow> bool" where
  "slot_shown E t s \<longleftrightarrow> t = s \<or> t = 0 \<and> FindItem E s = None"

definition mirrored :: "'d env \<Rightarrow> 'd world \<Rightarrow> SessionId \<Rightarrow> bool" where
  "mirrored E w i \<longleftrightarrow> (connected w i \<longrightarrow> orderly (inv_log w i) \<longrightarrow>
     list_all2 (slot_shown E) (shown (inv_log w i)) (bag_ids w i))"

definition in_step :: "'d env \<Rightarrow> SessionId set \<Rightarrow> 'd world \<Rightarrow> bool" where
  "in_step E K w \<longleftrightarrow> (\<forall>i. mirrored E w i) \<and> inventories_ok w \<and> (\<forall>i. i \<notin> K \<longrightarrow> inv_log w i = [])"

lemma in_step_view:
  assumes "in_step E K w" and "inv_log w' = inv_log w" and "inventories_ok w'"
    and "\<And>i. connected w' i \<Longrightarrow> connected w i \<and> bag_ids w' i = bag_ids w i"
  shows "in_step E K w'"
  using assms by (auto simp: in_step_def mirrored_def)

lemma in_step_same:
  assumes "in_step E K w" and "inv_log w' = inv_log w" and "get_inv w' = get_inv w" and "connected w' = connected w"
  shows "in_step E K w'"
  by (rule in_step_view [OF assms(1,2)])
    (use assms in \<open>simp_all add: in_step_def inventories_ok_def bag_ids_def\<close>)

text \<open>A message about one slot, and the slot it is about.\<close>

definition update_of :: "sc_packet \<Rightarrow> nat \<Rightarrow> u16 \<Rightarrow> bool" where
  "update_of u slot t \<longleftrightarrow> (\<exists>x name. unat x = slot \<and>
     (u = P_InventoryUpdate \<lparr>iu_slot = x, iu_itemId = t, iu_itemName = name\<rparr> \<or>
      u = P_ItemDrop \<lparr>idr_slot = x, idr_itemId = t, idr_itemName = name\<rparr>))"

lemma update_of_show:
  "update_of u slot t \<Longrightarrow> slot < MAX_INVENTORY \<Longrightarrow> show_message u ts = ts[slot := t] \<and> about_inventory u \<and> \<not> is_list u"
  by (auto simp: update_of_def put_id_def)

lemma in_step_send:
  assumes step: "in_step E K w" and "sid \<in> K" and slot: "slot < MAX_INVENTORY"
    and inv: "get_inv w1 = (get_inv w)(sid := iv)" and iv: "inv_slots iv = (inv_slots (get_inv w sid))[slot := s]"
    and same: "connected w1 = connected w" "inv_log w1 = inv_log w" and u: "update_of u slot (sl_itemTid s)"
  shows "in_step E K (Send sid u w1)"
proof -
  note msg = update_of_show [OF u slot]
  have bags: "bag_ids (Send sid u w1) i = (if i = sid then (bag_ids w sid)[slot := sl_itemTid s] else bag_ids w i)" for i
    by (simp add: bag_ids_def inv iv map_update)
  have len: "length (inv_slots (get_inv w sid)) = MAX_INVENTORY"
    using step by (simp add: in_step_def inv_wf_def [symmetric])
  have "inventories_ok (Send sid u w1)"
    using step len by (auto simp: in_step_def inventories_ok_def inv iv inv_wf_def)
  moreover have "mirrored E (Send sid u w1) i" for i
  proof -
    have old: "mirrored E w i" using step by (simp add: in_step_def)
    show ?thesis
    proof (cases "i = sid \<and> connected w sid")
      case True
      have log: "inv_log (Send sid u w1) sid = inv_log w sid @ [u]"
        using True msg by (simp add: inv_log_Send same)
      show ?thesis
        unfolding mirrored_def
      proof (intro impI)
        assume "orderly (inv_log (Send sid u w1) i)"
        then have "orderly (inv_log w i)" using True by (auto simp: log orderly_def tl_append split: list.splits)
        then have "list_all2 (slot_shown E) (shown (inv_log w sid)) (bag_ids w sid)"
          using old True by (simp add: mirrored_def)
        then have "list_all2 (slot_shown E) ((shown (inv_log w sid))[slot := sl_itemTid s])
            ((bag_ids w sid)[slot := sl_itemTid s])"
          by (rule list_all2_update_cong) (simp add: slot_shown_def)
        then show "list_all2 (slot_shown E) (shown (inv_log (Send sid u w1) i)) (bag_ids (Send sid u w1) i)"
          using True msg by (simp add: bags log shown_def)
      qed
    next
      case False
      then show ?thesis using old by (auto simp: mirrored_def inv_log_Send same bags)
    qed
  qed
  ultimately show ?thesis
    using step assms(2) by (auto simp: in_step_def inv_log_Send same)
qed

subsection \<open>The operations on inventories\<close>

lemma get_inv_cast: "get_inv (BroadcastExcept i p w) = get_inv w"
  by (rule get_inv_cong) simp

lemma get_inv_ensure_inv: "get_inv (ensure_inv sid w) = get_inv w"
  by (simp add: fun_eq_iff)

lemma in_step_quiet:
  assumes "in_step E K w"
  shows "\<not> about_inventory p \<Longrightarrow> in_step E K (Send i p w)" "\<not> about_inventory p \<Longrightarrow> in_step E K (Broadcast p w)"
    "\<not> about_inventory p \<Longrightarrow> in_step E K (BroadcastExcept i p w)" "in_step E K (upd_player i f w)"
    "w_sessions w' = w_sessions w \<Longrightarrow> w_inventories w' = w_inventories w \<Longrightarrow> w_out w' = w_out w \<Longrightarrow> in_step E K w'"
proof -
  show "in_step E K w'" if "w_sessions w' = w_sessions w" "w_inventories w' = w_inventories w" "w_out w' = w_out w"
    by (rule in_step_same [OF assms inv_log_cong get_inv_cong connected_cong]) (use that in simp_all)
qed (rule in_step_same [OF assms]; simp add: inv_log_quiet get_inv_cast)+

lemma not_about_inventory: "quiet p \<Longrightarrow> \<not> about_inventory p" "about_npcs p \<Longrightarrow> \<not> about_inventory p"
  by (simp add: quiet_def) (cases p; simp)

interpretation step_messages: npc_blind "in_step E K" for E :: "'d env" and K
  by unfold_locales (rule in_step_quiet, simp_all add: not_about_inventory)+

lemma in_step_ensure_inv: "in_step E K w \<Longrightarrow> in_step E K (ensure_inv sid w)"
  by (rule in_step_same) (simp_all add: get_inv_ensure_inv)

lemma in_step_AddItem: "in_step E K w \<Longrightarrow> in_step E K (snd (AddItemToDB E' c t w))"
  by (rule in_step_same) simp_all

lemma get_inv_set_inv: "get_inv (set_inv sid iv w) = (get_inv w)(sid := iv)"
  by (simp add: fun_eq_iff)

lemma inv_slots_set_slot: "inv_slots (set_slot slot s iv) = (inv_slots iv)[slot := s]"
  by (simp add: set_slot_def)

lemma in_step_grant_item: "in_step E K w \<Longrightarrow> sid \<in> K \<Longrightarrow> in_step E K (grant_item E sid tid w)"
proof -
  assume step: "in_step E K w" and sid: "sid \<in> K"
  show "in_step E K (grant_item E sid tid w)"
  proof (cases "FindEmptySlot (get_inv w sid)")
    case None
    then show ?thesis using step by (simp add: grant_item_def in_step_ensure_inv get_inv_ensure_inv)
  next
    case (Some slot)
    show ?thesis
    proof (cases "FindItem E tid")
      case None
      then show ?thesis using step Some by (simp add: grant_item_def in_step_ensure_inv get_inv_ensure_inv)
    next
      case item: (Some item)
      have slot: "slot < MAX_INVENTORY" using FindEmptySlot_Some [OF Some] by simp
      then have small: "slot mod 256 = slot" by (simp add: MAX_INVENTORY_def)
      let ?s = "item_slot (new_item_uid E (p_charUid (GetPlayer w sid)) tid (w_db w)) tid"
      show ?thesis
        unfolding grant_item_def using Some item
        by (simp add: Let_def get_inv_ensure_inv AddItemToDB_eq)
          (rule in_step_send [OF step sid slot, where s = ?s],
            auto simp: get_inv_set_inv get_inv_ensure_inv inv_slots_set_slot update_of_def item_slot_def unat_of_nat
              small slot intro!: exI dest: FindItem_Some)
    qed
  qed
qed

lemma tid_empty [simp]: "sl_itemTid empty_slot = 0"
  by (simp add: empty_slot_def)

lemma in_step_OnItemUse: "in_step E K w \<Longrightarrow> sid \<in> K \<Longrightarrow> in_step E K (OnItemUse E sid req w)"
proof -
  assume step: "in_step E K w" and sid: "sid \<in> K"
  have stored: "in_step E K (Send sid (P_InventoryUpdate \<lparr>iu_slot = ciu_slot req, iu_itemId = 0, iu_itemName = []\<rparr>)
      (Broadcast (P_ItemUseResult (r :: SC_ItemUseResult)) (set_inv sid (set_slot (unat (ciu_slot req)) empty_slot (get_inv w sid))
        (RemoveItemFromDB E u (upd_player sid f (ensure_inv sid w))))))"
    if "unat (ciu_slot req) < MAX_INVENTORY" for r u f
    by (rule in_step_send [OF step sid that, where s = empty_slot
          and iv = "set_slot (unat (ciu_slot req)) empty_slot (get_inv w sid)"])
      (simp_all add: get_inv_set_inv get_inv_ensure_inv inv_slots_set_slot inv_log_quiet update_of_def)
  show ?thesis
    using step stored
    by (auto simp: OnItemUse_def Let_def get_inv_ensure_inv not_le in_step_ensure_inv split: option.split
        intro!: step_messages.good_SendCharInfo)
qed

lemma in_step_OnItemEquip: "in_step E K w \<Longrightarrow> sid \<in> K \<Longrightarrow> in_step E K (OnItemEquip E sid req w)"
proof -
  assume step: "in_step E K w" and sid: "sid \<in> K"
  let ?slot = "unat (cie_slot req)"
  have stored: "in_step E K (Send sid (P_InventoryUpdate \<lparr>iu_slot = cie_slot req,
        iu_itemId = t, iu_itemName = name\<rparr>)
      (Send sid (P_EquipResult (r :: SC_EquipResult)) (EquipItemDB E c e u (upd_player sid f
        (set_inv sid iv (ensure_inv sid w))))))"
    if "?slot < MAX_INVENTORY" "iv = swap_weapon ?slot (get_inv w sid) \<or> iv = swap_armor ?slot (get_inv w sid)"
      "t = sl_itemTid (get_slot iv ?slot)"
    for iv t name r c e u f
  proof -
    have "?slot < length (inv_slots (get_inv w sid))"
      using step that(1) by (simp add: in_step_def inv_wf_def [symmetric] inventories_okD [unfolded inv_wf_def])
    then show ?thesis using that
      by (intro in_step_send [OF step sid that(1), where s = "get_slot iv ?slot"])
        (auto simp: get_inv_set_inv get_inv_ensure_inv inv_log_quiet update_of_def swap_weapon_def swap_armor_def
          set_slot_def get_slot_def)
  qed
  show ?thesis
    using step
    by (auto simp: OnItemEquip_def Let_def get_inv_ensure_inv not_le in_step_ensure_inv quiet_short_texts
        split: option.split
        intro!: step_messages.good_SendCharInfo stored step_messages.good_send [where p = "P_EquipResult r" for r])
qed

lemma in_step_OnShopSell:
  "in_step E K w \<Longrightarrow> sid \<in> K \<Longrightarrow> OnShopSell E sid req w = Inr w' \<Longrightarrow> in_step E K w'"
proof -
  assume step: "in_step E K w" and sid: "sid \<in> K" and sell: "OnShopSell E sid req w = Inr w'"
  let ?sold = "\<lambda>v. Send sid (P_InventoryUpdate \<lparr>iu_slot = ss_slot req, iu_itemId = 0, iu_itemName = []\<rparr>)
    (set_inv sid (set_slot (unat (ss_slot req)) empty_slot (get_inv w sid)) v)"
  have stored: "in_step E K (?sold v)"
    if "unat (ss_slot req) < MAX_INVENTORY" "get_inv v = get_inv w" "connected v = connected w" "inv_log v = inv_log w" for v
    by (rule in_step_send [OF step sid that(1), where s = empty_slot
          and iv = "set_slot (unat (ss_slot req)) empty_slot (get_inv w sid)"])
      (simp_all add: that get_inv_set_inv inv_slots_set_slot update_of_def)
  show ?thesis
    using sell step
    by (auto simp: OnShopSell_def Let_def get_inv_ensure_inv not_le in_step_ensure_inv quiet_short_texts
        split: option.splits if_splits dest!: strcpy_s_Some
        intro!: step_messages.good_shop_refusal stored step_messages.good_send [where p = "P_ShopResult r" for r])
qed

lemma in_step_OnShopBuy:
  "in_step E K w \<Longrightarrow> sid \<in> K \<Longrightarrow> OnShopBuy E sid req w = Inr w' \<Longrightarrow> in_step E K w'"
proof -
  assume step: "in_step E K w" and sid: "sid \<in> K" and buy: "OnShopBuy E sid req w = Inr w'"
  have stored: "in_step E K (Send sid (P_InventoryUpdate \<lparr>iu_slot = word_of_nat slot, iu_itemId = it_id item,
        iu_itemName = name\<rparr>) (set_inv sid (set_slot slot (item_slot u (sb_itemId req)) (get_inv w sid)) v))"
    if "FindEmptySlot (get_inv w sid) = Some slot" "FindItem E (sb_itemId req) = Some item"
      "get_inv v = get_inv w" "connected v = connected w" "inv_log v = inv_log w" for slot item name u v
  proof -
    have slot: "slot < MAX_INVENTORY" using FindEmptySlot_Some [OF that(1)] by simp
    then have small: "slot mod 256 = slot" by (simp add: MAX_INVENTORY_def)
    show ?thesis
      by (rule in_step_send [OF step sid slot, where s = "item_slot u (sb_itemId req)"])
        (use FindItem_Some [OF that(2)] in \<open>auto simp: that(3-) get_inv_set_inv inv_slots_set_slot update_of_def
          item_slot_def unat_of_nat small\<close>)
  qed
  show ?thesis
    using buy step
    by (auto simp: OnShopBuy_def Let_def get_inv_ensure_inv in_step_ensure_inv quiet_short_texts AddItemToDB_eq
        split: option.splits if_splits dest!: strcpy_s_Some
        intro!: step_messages.good_shop_refusal stored step_messages.good_send [where p = "P_ShopResult r" for r])
qed

subsection \<open>Loading\<close>

lemma shown_slots_append: "shown_slots E iv (xs @ ys) = shown_slots E iv xs @ shown_slots E iv ys"
  by (induction xs) (simp_all split: option.split)

definition listed_id :: "'d env \<Rightarrow> u16 \<Rightarrow> u16" where
  "listed_id E t = (if FindItem E t = None then 0 else t)"

lemma slot_shown_listed: "slot_shown E (listed_id E t) t"
  by (simp add: slot_shown_def listed_id_def)

lemma show_entries:
  assumes "n \<le> MAX_INVENTORY"
  shows "fold (\<lambda>u. put_id (iu_slot u) (iu_itemId u))
      (map (\<lambda>(i, item). inventory_entry i item) (shown_slots E iv [0..<n])) (replicate MAX_INVENTORY 0)
    = map (\<lambda>i. if i < n then listed_id E (sl_itemTid (get_slot iv i)) else 0) [0..<MAX_INVENTORY]"
  using assms
proof (induction n)
  case 0
  then show ?case by (simp add: map_replicate_const)
next
  case (Suc n)
  let ?t = "sl_itemTid (get_slot iv n)"
  have n: "n < MAX_INVENTORY" "unat (word_of_nat n :: u8) = n"
    using Suc.prems by (simp_all add: MAX_INVENTORY_def unat_of_nat)
  have put: "(map (\<lambda>i. if i < n then f i else 0) [0..<MAX_INVENTORY])[n := f n] =
      map (\<lambda>i. if i < Suc n then f i else 0) [0..<MAX_INVENTORY]" for f :: "nat \<Rightarrow> u16"
    using n(1) by (intro nth_equalityI) (auto simp: nth_list_update less_Suc_eq)
  have skip: "map (\<lambda>i. if i < n then f i else 0) [0..<MAX_INVENTORY] =
      map (\<lambda>i. if i < Suc n then f i else 0) [0..<MAX_INVENTORY]" if "f n = 0" for f :: "nat \<Rightarrow> u16"
    using that by (auto simp: less_Suc_eq)
  have IH: "fold (\<lambda>u. put_id (iu_slot u) (iu_itemId u))
      (map (\<lambda>(i, item). inventory_entry i item) (shown_slots E iv [0..<n])) (replicate MAX_INVENTORY 0)
    = map (\<lambda>i. if i < n then listed_id E (sl_itemTid (get_slot iv i)) else 0) [0..<MAX_INVENTORY]"
    using Suc by simp
  show ?case
  proof (cases "?t = 0 \<or> FindItem E ?t = None")
    case True
    then have none: "shown_slots E iv [n] = []" by auto
    have "listed_id E ?t = 0" using True by (auto simp: listed_id_def)
    from skip [of "\<lambda>i. listed_id E (sl_itemTid (get_slot iv i))", OF this]
    show ?thesis using IH none by (simp add: shown_slots_append)
  next
    case False
    then obtain item where item: "FindItem E ?t = Some item" by auto
    then have one: "shown_slots E iv [n] = [(n, item)]" using False by simp
    have more: "shown_slots E iv [0..<Suc n] = shown_slots E iv [0..<n] @ [(n, item)]"
      unfolding one [symmetric] by (simp add: shown_slots_append)
    have "it_id item = listed_id E ?t" using FindItem_Some [OF item] item by (simp add: listed_id_def)
    then have "put_id (word_of_nat n) (it_id item) ts = ts[n := listed_id E ?t]" for ts
      using n by (simp add: put_id_def)
    then show ?thesis
      using put [of "\<lambda>i. listed_id E (sl_itemTid (get_slot iv i))"] IH
      unfolding more by (simp add: inventory_entry_def)
  qed
qed

lemma shown_slots_length: "length (shown_slots E iv is) \<le> length is"
  by (induction "is") (auto split: option.split)

lemma show_list:
  "show_message (P_InventoryList (inventory_list E iv)) (replicate MAX_INVENTORY 0) =
    map (\<lambda>i. listed_id E (sl_itemTid (get_slot iv i))) [0..<MAX_INVENTORY]"
proof -
  have "length (shown_slots E iv [0..<MAX_INVENTORY]) \<le> MAX_INVENTORY"
    using shown_slots_length [of E iv "[0..<MAX_INVENTORY]"] by simp
  then show ?thesis
    using show_entries [of MAX_INVENTORY E iv] inventory_list_entries [of E iv] by (simp add: min_def)
qed

lemma in_step_send_list:
  assumes step: "in_step E K w" and "sid \<in> K" and inv: "get_inv w1 = (get_inv w)(sid := iv)" and wf: "inv_wf iv"
    and same: "connected w1 = connected w" "inv_log w1 = inv_log w"
  shows "in_step E K (Send sid (P_InventoryList (inventory_list E iv)) w1)"
proof -
  let ?p = "P_InventoryList (inventory_list E iv)"
  have bags: "bag_ids (Send sid ?p w1) i = (if i = sid then map sl_itemTid (inv_slots iv) else bag_ids w i)" for i
    by (simp add: bag_ids_def inv)
  have "mirrored E (Send sid ?p w1) i" for i
  proof (cases "i = sid \<and> connected w sid")
    case True
    then have log: "inv_log (Send sid ?p w1) sid = inv_log w sid @ [?p]" by (simp add: inv_log_Send same)
    have "list_all2 (slot_shown E) (map (\<lambda>i. listed_id E (sl_itemTid (get_slot iv i))) [0..<MAX_INVENTORY])
        (map sl_itemTid (inv_slots iv))"
      using wf by (simp add: list_all2_conv_all_nth inv_wf_def slot_shown_listed get_slot_def)
    moreover have "inv_log w sid = []" if "orderly (inv_log w sid @ [?p])"
      using that by (cases "inv_log w sid") (auto simp: orderly_def)
    ultimately show ?thesis
      using True show_list [of E iv] by (auto simp: mirrored_def log bags shown_def)
  next
    case False
    then show ?thesis using step by (auto simp: in_step_def mirrored_def inv_log_Send same bags)
  qed
  moreover have "inventories_ok (Send sid ?p w1)"
    using step wf by (simp add: in_step_def inventories_ok_def inv)
  ultimately show ?thesis
    using step assms(2) by (auto simp: in_step_def inv_log_Send same)
qed

lemma in_step_LoadInventory: "in_step E K w \<Longrightarrow> sid \<in> K \<Longrightarrow> in_step E K (LoadInventory E sid w)"
proof -
  assume step: "in_step E K w" and sid: "sid \<in> K"
  have listed: "in_step E K (Send sid (P_InventoryList (inventory_list E (loaded_inventory rows))) v)"
    if "get_inv v = (get_inv w)(sid := loaded_inventory rows)" "connected v = connected w" "inv_log v = inv_log w"
    for rows v
    by (rule in_step_send_list [OF step sid that(1) _ that(2,3)]) simp
  show ?thesis
    by (auto simp: LoadInventory_def Let_def get_inv_set_inv quiet_short_texts split: prod.split option.split
        intro!: listed step_messages.good_send [where p = "P_EquipResult r" for r])
qed

interpretation step: bag_invariant "in_step E K" E "\<lambda>sid. sid \<in> K" for E :: "'d env" and K
  by unfold_locales
    (auto intro: in_step_grant_item in_step_LoadInventory in_step_OnItemUse in_step_OnItemEquip
      in_step_OnShopBuy in_step_OnShopSell)

subsection \<open>In every reached world\<close>

definition known_ids :: "'d world \<Rightarrow> SessionId set" where
  "known_ids w = {i. i < w_nextSessionId w}"

lemma in_step_Accept:
  assumes "world_inv n w" and "n < max_steps" and "in_step E (known_ids w) w"
  shows "in_step E (known_ids (Accept w)) (Accept w)"
proof -
  let ?N = "w_nextSessionId w"
  have s: "sessions_inv n w" and k: "keys_live w" using assms(1) by (simp_all add: world_inv_def)
  then have "?N \<noteq> - 1" using assms(2) not_max [of ?N n] by (simp add: sessions_inv_def)
  then have up: "?N < ?N + 1" by (rule word_less_succ)
  have log: "inv_log (Accept w) = inv_log w" by (rule inv_log_cong) (simp add: Accept_def AddSession_def)
  have inv: "get_inv (Accept w) = get_inv w" by (rule get_inv_cong) (simp add: Accept_def AddSession_def)
  have conn: "connected (Accept w) i \<Longrightarrow> i \<noteq> ?N \<Longrightarrow> connected w i" for i
    by (simp add: connected_def Accept_def AddSession_def GetSession_def split: option.splits)
  have "\<not> live w ?N" using s by (cases "GetSession w ?N") (auto simp: live_def sessions_inv_iff)
  then have "?N \<notin> inv_keys w" using k by (auto simp: keys_live_def)
  then have "get_inv w ?N = new_inventory"
    by (auto simp: get_inv_def om_get_def inv_keys_def image_iff split: option.split dest!: map_of_SomeD)
  then have bag: "bag_ids w ?N = replicate MAX_INVENTORY 0"
    by (simp add: bag_ids_def new_inventory_def)
  have new: "inv_log w ?N = []" using assms(3) by (simp add: in_step_def known_ids_def)
  have bags: "bag_ids (Accept w) = bag_ids w" by (simp add: bag_ids_def inv fun_eq_iff)
  have start: "list_all2 (slot_shown E) (replicate m 0) (replicate m 0)" for m
    by (simp add: list_all2_conv_all_nth slot_shown_def)
  have "mirrored E (Accept w) i" for i
  proof (cases "i = ?N")
    case True
    then show ?thesis by (simp add: mirrored_def log bags bag new shown_def start)
  next
    case False
    then show ?thesis using assms(3) conn by (auto simp: in_step_def mirrored_def log bags)
  qed
  moreover have "inv_log (Accept w) i = []" if "i \<notin> known_ids (Accept w)" for i
  proof -
    have "\<not> i < ?N + 1" using that by (simp add: known_ids_def Accept_def AddSession_def)
    then have "i \<notin> known_ids w" using up by (auto simp: known_ids_def)
    then show ?thesis using assms(3) by (simp add: in_step_def log)
  qed
  ultimately show ?thesis using assms(3) by (simp add: in_step_def inventories_ok_def inv)
qed

lemma upd_session_fields [simp]:
  "w_out (upd_session sid f w) = w_out w" "w_inventories (upd_session sid f w) = w_inventories w"
  "w_nextSessionId (upd_session sid f w) = w_nextSessionId w" "w_parties (upd_session sid f w) = w_parties w"
  "w_playerParty (upd_session sid f w) = w_playerParty w"
  by (simp_all add: upd_session_def AddSession_def split: option.split)

lemma in_step_upd_session:
  assumes "in_step E K w" and "\<And>s. s_connected (f s) \<Longrightarrow> s_connected s"
  shows "in_step E K (upd_session sid f w)"
proof (rule in_step_view [OF assms(1)])
  show "inv_log (upd_session sid f w) = inv_log w" by (rule inv_log_cong) simp
  have inv: "get_inv (upd_session sid f w) = get_inv w" by (rule get_inv_cong) simp
  then show "inventories_ok (upd_session sid f w)" using assms(1) by (simp add: in_step_def inventories_ok_def)
  show "connected w i \<and> bag_ids (upd_session sid f w) i = bag_ids w i" if "connected (upd_session sid f w) i" for i
    using that assms(2) by (auto simp: connected_def GetSession_upd_session bag_ids_def inv split: option.splits if_splits)
qed

lemma in_step_OnDisconnect:
  assumes step: "in_step E K w" and "sizes_ok w" and down: "\<not> connected w sid"
  shows "in_step E K (OnDisconnect sid w)"
proof -
  let ?r = "RemoveFromParty sid w"
  let ?p = "OnPlayerDisconnect sid w"
  have r: "in_step E K ?r" using step_messages.good_RemoveFromParty [OF step assms(2)] .
  have conn: "connected ?r = connected w" by (rule connected_cong) simp
  have pconn: "connected ?p = connected w"
    by (rule connected_cong) (simp add: OnPlayerDisconnect_def Let_def)
  have inv: "get_inv ?p i = (if i = sid then new_inventory else get_inv ?r i)" for i
    by (simp add: OnPlayerDisconnect_def Let_def get_inv_def om_get_def)
  have p: "in_step E K ?p"
  proof (rule in_step_view [OF r])
    show "inv_log ?p = inv_log ?r" by (rule inv_log_cong) (simp add: OnPlayerDisconnect_def Let_def)
    show "inventories_ok ?p" using r by (simp add: in_step_def inventories_ok_def inv)
    show "connected ?r i \<and> bag_ids ?p i = bag_ids ?r i" if "connected ?p i" for i
      using that down by (auto simp: conn pconn bag_ids_def inv)
  qed
  have drop: "in_step E K (RemoveSession sid v)" if "in_step E K v" for v
  proof (rule in_step_view [OF that])
    show "inv_log (RemoveSession sid v) = inv_log v" by (rule inv_log_cong) (simp add: RemoveSession_def)
    have inv: "get_inv (RemoveSession sid v) = get_inv v" by (rule get_inv_cong) (simp add: RemoveSession_def)
    then show "inventories_ok (RemoveSession sid v)" using that by (simp add: in_step_def inventories_ok_def)
    show "connected v i \<and> bag_ids (RemoveSession sid v) i = bag_ids v i" if "connected (RemoveSession sid v) i" for i
      using that by (auto simp: connected_def RemoveSession_def GetSession_def bag_ids_def inv [unfolded RemoveSession_def]
          split: if_splits)
  qed
  show ?thesis unfolding OnDisconnect_def Let_def
    using p by (auto intro!: drop step_messages.good_sends)
qed

lemma in_step_step:
  assumes inv: "world_inv n w" and n: "n < max_steps" and step: "in_step E (known_ids w) w" and "server_step E w w'"
  shows "in_step E (known_ids w') w'"
  using assms(4)
proof cases
  case accept
  then show ?thesis using in_step_Accept [OF inv n step] by simp
next
  case (packet sid payload header)
  have sizes: "sizes_ok w" and known: "sid \<in> known_ids w"
    using inv packet(1) by (auto simp: world_inv_def sessions_inv_iff live_def known_ids_def)
  have "w' = w \<or> (\<exists>p. handle E sid p w = Inr w')"
    using HandlePacket_handle [of E sid header payload w] packet(3) by auto
  then show ?thesis
  proof (elim disjE exE)
    fix p assume h: "handle E sid p w = Inr w'"
    have "known_ids w' = known_ids w" using ensuresD [OF handle_next_session h] by (simp add: known_ids_def)
    then show ?thesis using ensuresD [OF step.good_handle [OF step known sizes] h] by simp
  qed (use step in simp)
next
  case (buffered buf k sid)
  have "in_step E (known_ids w) (upd_session sid (\<lambda>s. s\<lparr>s_recvBuffer := buf, s_recvSize := k\<rparr>) w)"
    by (rule in_step_upd_session [OF step]) simp
  then show ?thesis using buffered by (simp add: set_buffer_def known_ids_def)
next
  case (read_error sid)
  let ?w = "upd_session sid (\<lambda>s. s\<lparr>s_connected := False\<rparr>) w"
  have "sizes_ok ?w" using inv party_inv_cong(2) [of ?w w] by (simp add: world_inv_def)
  moreover have "\<not> connected ?w sid"
    by (simp add: connected_def GetSession_upd_session split: option.split)
  ultimately have "in_step E (known_ids w) (OnDisconnect sid ?w)"
    by (intro in_step_OnDisconnect in_step_upd_session [OF step]) simp_all
  then show ?thesis using read_error by (simp add: ReadError_def known_ids_def OnDisconnect_fields)
next
  case (write_error sid)
  have "in_step E (known_ids w) (upd_session sid (\<lambda>s. s\<lparr>s_connected := False\<rparr>) w)"
    by (rule in_step_upd_session [OF step]) simp
  then show ?thesis using write_error by (simp add: WriteError_def known_ids_def)
qed

lemma initial_out: "w_out (initial_world E db) = []"
  unfolding initial_world_def
  by (subst fold_keeps [where g = w_out]; simp add: place_npc_def draw_def Let_def empty_world_def)

lemma in_step_initial: "in_step E (known_ids (initial_world E db)) (initial_world E db)"
  using server.starts [of E db]
  by (simp add: in_step_def mirrored_def connected_def GetSession_def inv_log_def sent_to_def world_inv_def
      initial_out initial_rest)

interpretation mirror: bounded_invariant "server_step E" "initial_world E db"
    "\<lambda>n w. world_inv n w \<and> in_step E (known_ids w) w" max_steps
  for E :: "'d env" and db :: 'd
  by unfold_locales (auto intro: in_step_initial server.starts in_step_step dest: server.keeps)

subsection \<open>A client that enters the game\<close>

definition idle :: console where
  "idle = \<lparr>con_keys = [], con_wide = [], con_words = [], con_numbers = []\<rparr>"

definition select_payload :: "u8 list" where
  "select_payload = replicate (MAX_RECV_BUFFER_SIZE - HEADER_SIZE) 0"

definition entered :: "nat world" where
  "entered = OnCharSelect sample_env 1 (lget CS_CharSelect_L select_payload) one_client"

lemma entered_reached: "run_of (Suc (Suc 0)) entered"
proof (rule reached.after [OF one_client_reached server_step.packet])
  show "live one_client 1" by (simp add: live_def first_client)
  show "length select_payload = MAX_RECV_BUFFER_SIZE - HEADER_SIZE" by (simp add: select_payload_def)
  show "HandlePacket sample_env 1 \<lparr>ph_length = 12, ph_type = packet_code CS_CHAR_SELECT\<rparr> select_payload one_client
      = Inr entered"
    by (simp add: HandlePacket_known [where t = CS_CHAR_SELECT] entered_def del: packet_code.simps)
qed

interpretation same_log: npc_blind "\<lambda>w. inv_log w = log \<and> connected w = conn" for log conn
  by unfold_locales (auto simp: inv_log_quiet not_about_inventory dest: inv_log_cong connected_cong)

lemma LoadInventory_log:
  "\<exists>ps. inv_log (LoadInventory E sid w) i = inv_log w i @ ps \<and> length ps \<le> 1"
  "connected (LoadInventory E sid w) = connected w"
  by (auto simp: LoadInventory_def Let_def inv_log_Send split: prod.split option.split)

lemma OnCharSelect_loads:
  assumes "spCharacterLogin (dbConn E) (p_accountUid (GetPlayer w sid)) (cs_charUid req) (w_db w) = (Some (row # rows), db)"
  shows "\<exists>v. OnCharSelect E sid req w = LoadQuestProgress E sid (LoadInventory E sid v) \<and>
    inv_log v = inv_log w \<and> connected v = connected w"
proof -
  have quiet: "inv_log v = inv_log w \<and> connected v = connected w"
    if "v = SendAttendanceInfo E sid (SendOtherPlayers sid (SendAllNPCs sid (SendCharInfo sid
      (fetch_name E sid (cs_charUid req) (upd_player sid f (snd (draw E (snd (draw E (w\<lparr>w_db := db\<rparr>))))))))))" for f v
    unfolding that
    by (intro same_log.good_SendAttendanceInfo same_log.good_SendOtherPlayers same_log.good_SendAllNPCs
        same_log.good_SendCharInfo same_log.good_fetch_name) (simp add: draw_def inv_log_def sent_to_def connected_def GetSession_def fun_eq_iff)
  show ?thesis
    by (rule exI, rule conjI [OF _ quiet]) (simp_all add: OnCharSelect_def assms Let_def draw_def)
qed


lemma entered_view:
  "connected entered 1" "orderly (inv_log entered 1)" "sl_itemTid (inv_slots (get_inv entered 1) ! 0) = 1"
proof -
  have "spCharacterLogin (dbConn sample_env) a c d = (Some [(3, 20, 500)], d)" for a c d
    by (simp add: sample_env_def sample_db_def)
  from OnCharSelect_loads [OF this, of 1 "lget CS_CharSelect_L select_payload" one_client]
  obtain v where v: "entered = LoadQuestProgress sample_env 1 (LoadInventory sample_env 1 v)"
      "inv_log v = inv_log one_client" "connected v = connected one_client"
    by (auto simp: entered_def)
  have same: "inv_log entered = inv_log (LoadInventory sample_env 1 v)"
    "connected entered = connected (LoadInventory sample_env 1 v)" "get_inv entered = get_inv (LoadInventory sample_env 1 v)"
    unfolding v(1) by (simp_all add: LoadQuestProgress_def set_qp_def inv_log_def sent_to_def connected_def GetSession_def
        get_inv_def fun_eq_iff split: prod.split)
  show "connected entered 1"
    by (simp add: same LoadInventory_log v(3)) (simp add: connected_def first_client new_session_def)
  have "inv_log one_client 1 = []"
    by (simp add: inv_log_def sent_to_def one_client_def Accept_def AddSession_def initial_out)
  then show "orderly (inv_log entered 1)"
    using LoadInventory_log(1) [of sample_env 1 v 1] by (auto simp: same v(2) orderly_def neq_Nil_conv length_Suc_conv le_Suc_eq)
  show "sl_itemTid (inv_slots (get_inv entered 1) ! 0) = 1"
    by (simp add: same get_inv_LoadInventory) (simp add: sample_env_def sample_db_def loaded_inventory_def Let_def new_inventory_def
        MAX_INVENTORY_def set_slot_def item_slot_def)
qed

lemma entered_received: "\<exists>s. run_packets cl_handle (sent_to 1 entered) new_client = Inr s"
proof -
  have "out_safe entered" using messages.always [OF entered_reached] by (simp add: max_steps_def)
  then have "list_all sc_safe (sent_to 1 entered)" by (auto simp: out_safe_def sent_to_def list_all_iff)
  from run_packets_ok [OF new_client_ok this] show ?thesis by blast
qed

subsection \<open>Properties\<close>

text \<open>C2: A client shows the inventory the server has. In every reached world, take a connected session
  whose inventory was loaded at most once and before any other inventory message, and a client that
  has handled exactly the messages sent to that session, between any keys: every slot it shows holds
  the item of the server's slot, or nothing where the server's item is one the server has no data for.\<close>

theorem client_shows_inventory:
  assumes "reached (server_step E) (initial_world E db) n w" and "n \<le> max_steps"
    and "connected w sid" and "orderly (inv_log w sid)" and "packets_of es = sent_to sid w"
    and "run_client es \<lparr>u_client = new_client, u_console = con, u_sent = []\<rparr> = Some (Inr (True, u))"
    and "i < MAX_INVENTORY"
  shows "slot_shown E (csl_itemId (c_inventory (u_client u) ! i)) (sl_itemTid (inv_slots (get_inv w sid) ! i))"
proof -
  have inv: "world_inv n w" "in_step E (known_ids w) w" using mirror.always [OF assms(1,2)] by simp_all
  have "shown_ids (u_client u) = shown (sent_to sid w)"
    using bag_view.run_client_view [OF assms(6)] assms(5) by (simp add: shown_ids_new shown_def)
  also have "\<dots> = shown (inv_log w sid)" unfolding inv_log_def by (rule shown_about [symmetric])
  finally have ids: "map csl_itemId (c_inventory (u_client u)) = shown (inv_log w sid)"
    by (simp add: shown_ids_def)
  have "list_all2 (slot_shown E) (map csl_itemId (c_inventory (u_client u))) (bag_ids w sid)"
    unfolding ids using inv(2) assms(3,4) by (simp add: in_step_def mirrored_def)
  moreover have "length (inv_slots (get_inv w sid)) = MAX_INVENTORY"
    using inv(1) by (simp add: world_inv_def inv_wf_def [symmetric])
  ultimately show ?thesis using assms(7)
    by (auto simp: list_all2_conv_all_nth bag_ids_def)
qed

theorem client_shows_inventory_witness:
  "\<exists>u. run_client (map Packet (sent_to 1 entered)) \<lparr>u_client = new_client, u_console = idle, u_sent = []\<rparr>
      = Some (Inr (True, u)) \<and> csl_itemId (c_inventory (u_client u) ! 0) = 1"
proof -
  have bound: "Suc (Suc 0) \<le> max_steps" by (simp add: max_steps_def)
  obtain s where run: "run_packets cl_handle (sent_to 1 entered) new_client = Inr s"
    using entered_received by blast
  let ?u = "\<lparr>u_client = new_client, u_console = idle, u_sent = []\<rparr>"
  have "run_client (map Packet (sent_to 1 entered)) ?u = Some (Inr (True, ?u\<lparr>u_client := s\<rparr>))"
    by (rule run_client_packets) (simp add: run)
  with client_shows_inventory [OF entered_reached bound entered_view(1,2) packets_of_map this [simplified], of 0]
  show ?thesis by (simp add: entered_view slot_shown_def MAX_INVENTORY_def)
qed

text \<open>C7: The server never brings a client down: in every reached world, a client that receives the frames
  of all messages sent to a session, in pieces of any sizes and with the start of another frame behind
  them, handles every message to the end, keeps its arrays and counts in order, and is left with the
  incomplete frame.\<close>

theorem clients_survive_server:
  assumes "reached (server_step E) (initial_world E db) n w" and "n \<le> max_steps"
    and "arrived rs = sc_stream (sent_to sid w) @ tail" and "incomplete tail" and "list_all keeps_open rs"
  shows "\<exists>s. RecvLoop ClientPacket rs (\<lparr>tc_connected = True, tc_recvBuffer = []\<rparr>, new_client)
      = Some (Inr (\<lparr>tc_connected = True, tc_recvBuffer = tail\<rparr>, s)) \<and> client_ok s \<and>
    run_packets cl_handle (sent_to sid w) new_client = Inr s"
proof -
  have "out_safe w" using messages.always [OF assms(1,2)] by simp
  then have safe: "list_all sc_safe (sent_to sid w)" by (auto simp: out_safe_def sent_to_def list_all_iff)
  then obtain s where s: "run_packets cl_handle (sent_to sid w) new_client = Inr s" "client_ok s"
    using run_packets_ok [OF new_client_ok] by blast
  have "list_all sc_ok (sent_to sid w)" using safe by (simp add: list_all_iff sc_safe_def)
  from client_sink.all_delivered [OF this assms(4), of "\<lparr>tc_connected = True, tc_recvBuffer = []\<rparr>" rs new_client]
  show ?thesis using assms(3,5) s by (simp add: incomplete_def HEADER_SIZE_def)
qed

theorem clients_survive_server_witness:
  "\<exists>s. RecvLoop ClientPacket [Received (sc_stream (sent_to 1 entered)), WouldBlock]
      (\<lparr>tc_connected = True, tc_recvBuffer = []\<rparr>, new_client)
      = Some (Inr (\<lparr>tc_connected = True, tc_recvBuffer = []\<rparr>, s)) \<and> client_ok s"
  using clients_survive_server [OF entered_reached, of "[Received (sc_stream (sent_to 1 entered)), WouldBlock]" 1 "[]"]
  by (auto simp: max_steps_def incomplete_def HEADER_SIZE_def)

end
