(* ===== verification/Npc_Mirror.thy ===== *)
theory Npc_Mirror
  imports Mirror
begin

text \<open>
  The NPCs a client knows. Where the NPCs are is told by two messages, \<open>P_NpcSpawn\<close> and \<open>P_NpcDeath\<close>:
  \<open>placed\<close> is the map from ids to cells after a list of messages, and the client's handlers compute
  it. On the server, \<open>npc_snap\<close> is what it says to whom: the cells told to each session, which
  sessions are connected and which are in the game, and the NPCs. Every operation but a blow and
  the selection of a character leaves it alone, and the invariant \<open>npcs_known\<close>, that every connected
  session in the game was told exactly the cells of the living NPCs, holds in every reached world.
\<close>

subsection \<open>What the messages tell\<close>

type_synonym cells = "u64 \<Rightarrow> (i16 \<times> i16) option"

fun place_message :: "sc_packet \<Rightarrow> cells \<Rightarrow> cells" where
  "place_message (P_NpcSpawn n) m = m(ns_npcUid n \<mapsto> (ns_posX n, ns_posY n))"
| "place_message (P_NpcDeath d) m = m(nd_npcUid d := None)"
| "place_message p m = m"

definition placed :: "sc_packet list \<Rightarrow> cells" where
  "placed ps = fold place_message ps (\<lambda>_. None)"

lemma place_quiet: "\<not> about_npcs p \<Longrightarrow> place_message p m = m"
  by (cases p) simp_all

lemma placed_append [simp]: "placed (ps @ qs) = fold place_message qs (placed ps)"
  by (simp add: placed_def)

subsection \<open>The client computes it\<close>

definition npc_cell :: "ClientNpc \<Rightarrow> i16 \<times> i16" where
  "npc_cell n = (cn_posX n, cn_posY n)"

definition known_npcs :: "client \<Rightarrow> cells" where
  "known_npcs s uid = map_option npc_cell (map_of (c_npcs s) uid)"

lemma known_npcs_fields [simp]:
  "known_npcs (upd_me f s) = known_npcs s" "known_npcs (say t s) = known_npcs s"
  "known_npcs (print_out t s) = known_npcs s" "known_npcs (s\<lparr>c_screen := t\<rparr>) = known_npcs s"
  "known_npcs (draw_if_selecting s) = known_npcs s" "known_npcs (DrawCharSelect s) = known_npcs s"
  "known_npcs (upd_quest q g s) = known_npcs s" "known_npcs (s\<lparr>c_gameState := gs\<rparr>) = known_npcs s"
  "known_npcs (s\<lparr>c_otherPlayers := os\<rparr>) = known_npcs s" "known_npcs (s\<lparr>c_inventory := slots\<rparr>) = known_npcs s"
  "known_npcs (s\<lparr>c_partyCount := n\<rparr>) = known_npcs s" "known_npcs (s\<lparr>c_attendance := a\<rparr>) = known_npcs s"
  "known_npcs (s\<lparr>c_chatLog := l\<rparr>) = known_npcs s" "known_npcs (s\<lparr>c_charList := cs\<rparr>) = known_npcs s"
  "known_npcs (s\<lparr>c_accountUid := u\<rparr>) = known_npcs s" "known_npcs (s\<lparr>c_showInventory := b\<rparr>) = known_npcs s"
  "known_npcs (s\<lparr>c_equippedWeapon := wn\<rparr>) = known_npcs s" "known_npcs (s\<lparr>c_equippedArmor := an\<rparr>) = known_npcs s"
  "known_npcs (s\<lparr>c_shopCount := n\<rparr>) = known_npcs s" "known_npcs (s\<lparr>c_shopItems := si\<rparr>) = known_npcs s"
  "known_npcs (s\<lparr>c_showShop := b\<rparr>) = known_npcs s" "known_npcs (s\<lparr>c_questCount := n\<rparr>) = known_npcs s"
  "known_npcs (s\<lparr>c_questEntries := qe\<rparr>) = known_npcs s" "known_npcs (s\<lparr>c_showQuestList := b\<rparr>) = known_npcs s"
  "known_npcs (s\<lparr>c_partyMembers := pm\<rparr>) = known_npcs s" "known_npcs (s\<lparr>c_pendingInvite := b\<rparr>) = known_npcs s"
  "known_npcs (s\<lparr>c_inviterName := t\<rparr>) = known_npcs s"
  by (simp_all add: fun_eq_iff known_npcs_def upd_me_def say_def print_out_def draw_if_selecting_def
      DrawCharSelect_def upd_quest_def)

lemma known_npcs_set_item: "set_item slot tid name s = Inr s' \<Longrightarrow> known_npcs s' = known_npcs s"
  by (drule set_item_Inr) simp

lemma known_npcs_put_updates: "fold_result put_update us s = Inr s' \<Longrightarrow> known_npcs s' = known_npcs s"
  by (induction us arbitrary: s) (auto simp: put_update_def bind_result_Inr dest!: known_npcs_set_item)

lemma known_npcs_npcs: "known_npcs (s\<lparr>c_npcs := ns\<rparr>) = (\<lambda>uid. map_option npc_cell (map_of ns uid))"
  by (simp add: fun_eq_iff known_npcs_def)

lemma known_npcs_hit: "map_of (c_npcs s) uid = Some npc \<Longrightarrow>
    known_npcs (v\<lparr>c_npcs := om_put uid (npc\<lparr>cn_hp := hp\<rparr>) (c_npcs s)\<rparr>) = known_npcs s"
  by (auto simp: known_npcs_npcs fun_eq_iff known_npcs_def npc_cell_def)

lemma known_npcs_put:
  "known_npcs (s\<lparr>c_npcs := om_put uid npc (c_npcs s)\<rparr>) = (known_npcs s)(uid \<mapsto> npc_cell npc)"
  "known_npcs (s\<lparr>c_npcs := om_erase uid (c_npcs s)\<rparr>) = (known_npcs s)(uid := None)"
  by (auto simp: known_npcs_npcs fun_eq_iff known_npcs_def)

lemma c_npcs_say [simp]: "c_npcs (say t s) = c_npcs s"
  by (simp add: say_def)

interpretation npc_view: key_view known_npcs
  by unfold_locales simp_all

lemma known_npcs_message: "ends_with known_npcs (place_message p (known_npcs s)) (cl_handle p s)"
  by (cases p) (auto simp: cl_handlers put_update_def Let_def known_npcs_hit known_npcs_put npc_cell_def
      dest!: known_npcs_set_item known_npcs_put_updates
      intro!: ends_CharList ends_bind ends_c_text npc_view.ends_redraw npc_view.ends_DrawMap split: option.split)

interpretation npc_view: packet_view known_npcs place_message
  by unfold_locales (rule known_npcs_message)

subsection \<open>What was told\<close>

definition told :: "'d world \<Rightarrow> SessionId \<Rightarrow> cells" where
  "told w i = placed (sent_to i w)"

definition in_game :: "'d world \<Rightarrow> SessionId \<Rightarrow> bool" where
  "in_game w i = p_loggedIn (GetPlayer w i)"

definition npc_snap ::
  "'d world \<Rightarrow> (SessionId \<Rightarrow> cells) \<times> (SessionId \<Rightarrow> bool) \<times> (SessionId \<Rightarrow> bool) \<times> NPC list" where
  "npc_snap w = (told w, connected w, in_game w, w_npcs w)"

lemma told_cong: "w_out w' = w_out w \<Longrightarrow> told w' = told w"
  by (simp add: fun_eq_iff told_def sent_to_def)

lemma in_game_cong: "w_sessions w' = w_sessions w \<Longrightarrow> in_game w' = in_game w"
  by (simp add: fun_eq_iff in_game_def sessions_cong(2) [of w' w])

lemma told_Send: "told (Send j p w) i = (if i = j \<and> connected w j then place_message p (told w i) else told w i)"
  by (simp add: told_def sent_to_append [OF w_out_Send] connected_def session_send_def split: option.split)

text \<open>A broadcast reaches a session once.\<close>

lemma keyed_once: "om_wf m \<Longrightarrow> filter (\<lambda>(k, v). k = i \<and> P v) m = (case map_of m i of
    None \<Rightarrow> [] | Some v \<Rightarrow> if P v then [(i, v)] else [])"
proof -
  have "distinct (map fst m) \<Longrightarrow> filter (\<lambda>(k, v). k = i \<and> P v) m = (case map_of m i of
      None \<Rightarrow> [] | Some v \<Rightarrow> if P v then [(i, v)] else [])" for m
  proof (induction m)
    case (Cons kv m)
    have "filter (\<lambda>(k, v). k = i \<and> P v) m = []" if "i \<notin> fst ` set m"
      using that by (force simp: filter_empty_conv)
    then show ?case using Cons by (cases kv) (auto split: option.split)
  qed simp
  then show "om_wf m \<Longrightarrow> ?thesis" by (simp add: om_wf_distinct)
qed

lemma filter_pairs:
  "map snd (filter (\<lambda>(i, q). i = sid) (map (\<lambda>(i, s). (i, p)) (filter (\<lambda>(i, s). P s) m)))
     = map (\<lambda>_. p) (filter (\<lambda>(i, s). i = sid \<and> P s) m)"
  by (induction m) auto

lemma told_Broadcast:
  assumes "om_wf (w_sessions w)"
  shows "told (Broadcast p w) i =
    (if connected w i \<and> in_game w i then place_message p (told w i) else told w i)"
proof -
  have "told (Broadcast p w) i = fold place_message
      (map (\<lambda>_. p) (filter (\<lambda>(j, s). j = i \<and> p_loggedIn (s_player s) \<and> s_connected s) (w_sessions w))) (told w i)"
    by (simp add: told_def sent_to_append [OF w_out_Broadcast] filter_pairs)
  then show ?thesis
    by (simp add: keyed_once [OF assms] connected_def in_game_def GetPlayer_def GetSession_def split: option.split)
qed

lemma place_quiets: "\<not> about_npcs p \<Longrightarrow> fold place_message (map (\<lambda>_. p) xs) m = m"
  by (induction xs) (simp_all add: place_quiet)

lemma told_quiet:
  assumes "\<not> about_npcs p"
  shows "told (Send j p w) = told w" "told (Broadcast p w) = told w" "told (BroadcastExcept j p w) = told w"
proof -
  have "map snd (filter (\<lambda>(i, q). i = sid) (map (\<lambda>(i, s). (i, p)) ys)) =
      map (\<lambda>_. p) (filter (\<lambda>(i, s). i = sid) ys)" for sid and ys :: "(SessionId \<times> Session) list"
    by (induction ys) auto
  then show "told (Broadcast p w) = told w" "told (BroadcastExcept j p w) = told w"
    using assms by (simp_all add: fun_eq_iff told_def sent_to_append [OF w_out_Broadcast]
        sent_to_append [OF w_out_BroadcastExcept] place_quiets)
qed (simp add: fun_eq_iff told_Send place_quiet assms)

lemma in_game_frame [simp]:
  "in_game (Send j p w) = in_game w" "in_game (Broadcast p w) = in_game w" "in_game (BroadcastExcept j p w) = in_game w"
  by (rule in_game_cong, simp)+

lemma snap_quiet [simp]:
  assumes "\<not> about_npcs p"
  shows "npc_snap (Send j p w) = npc_snap w" "npc_snap (Broadcast p w) = npc_snap w"
    "npc_snap (BroadcastExcept j p w) = npc_snap w"
  using assms by (simp_all add: npc_snap_def told_quiet)

lemma snap_cong:
  "w_sessions w' = w_sessions w \<Longrightarrow> w_out w' = w_out w \<Longrightarrow> w_npcs w' = w_npcs w \<Longrightarrow> npc_snap w' = npc_snap w"
  by (simp add: npc_snap_def told_cong [of w' w] connected_cong [of w' w] in_game_cong [of w' w])

lemma in_game_upd_player:
  "in_game (upd_player i f w) j = (if j = i \<and> live w i then p_loggedIn (f (GetPlayer w i)) else in_game w j)"
  by (simp add: in_game_def GetPlayer_upd_player)

lemma snap_player [simp]:
  assumes "p_loggedIn (f (GetPlayer w i)) = p_loggedIn (GetPlayer w i)"
  shows "npc_snap (upd_player i f w) = npc_snap w"
proof -
  have "told (upd_player i f w) = told w" by (rule told_cong) simp
  moreover have "in_game (upd_player i f w) = in_game w"
    using assms by (auto simp: fun_eq_iff in_game_upd_player) (simp_all add: in_game_def)
  ultimately show ?thesis by (simp add: npc_snap_def)
qed

lemma snap_frame [simp]:
  "npc_snap (set_inv i iv w) = npc_snap w" "npc_snap (ensure_inv i w) = npc_snap w"
  "npc_snap (snd (AddItemToDB E c t w)) = npc_snap w" "npc_snap (RemoveItemFromDB E u w) = npc_snap w"
  "npc_snap (EquipItemDB E c s u w) = npc_snap w" "npc_snap (w\<lparr>w_db := d\<rparr>) = npc_snap w"
  by (rule snap_cong; simp)+

text \<open>Nothing but a blow and the selection of a character changes it.\<close>

definition still where
  "still S w \<longleftrightarrow> npc_snap w = S \<and> om_wf (w_sessions w)"

interpretation quiet_step: message_invariant "still S" for S
  by unfold_locales (auto simp: still_def quiet_def dest: snap_cong)

lemma still_LoadInventory: "still S w \<Longrightarrow> still S (LoadInventory E sid w)"
  by (auto simp: still_def LoadInventory_def Let_def split: prod.split option.split)

lemma still_OnItemUse: "still S w \<Longrightarrow> still S (OnItemUse E sid req w)"
  by (auto simp: still_def OnItemUse_def SendCharInfo_def heal_def Let_def split: option.split)

lemma still_OnItemEquip: "still S w \<Longrightarrow> still S (OnItemEquip E sid req w)"
  by (auto simp: still_def OnItemEquip_def SendCharInfo_def Let_def split: option.split)

lemma still_OnShopBuy: "still S w \<Longrightarrow> OnShopBuy E sid req w = Inr w' \<Longrightarrow> still S w'"
  by (auto simp: still_def OnShopBuy_def shop_refusal_def Let_def case_prod_beta split: option.splits if_splits)

lemma still_OnShopSell: "still S w \<Longrightarrow> OnShopSell E sid req w = Inr w' \<Longrightarrow> still S w'"
  by (auto simp: still_def OnShopSell_def shop_refusal_def Let_def split: option.splits if_splits)

lemma still_grant_item: "still S w \<Longrightarrow> still S (grant_item E sid tid w)"
  by (auto simp: still_def grant_item_def Let_def case_prod_beta split: option.split)

subsection \<open>The cells of the living\<close>

definition npc_cells :: "NPC list \<Rightarrow> cells" where
  "npc_cells ns = map_of (map (\<lambda>n. (n_uid n, (n_posX n, n_posY n))) (filter n_alive ns))"

lemma cells_iff:
  assumes "distinct (map n_uid ns)"
  shows "npc_cells ns u = Some c \<longleftrightarrow>
    (\<exists>k < length ns. n_alive (ns ! k) \<and> n_uid (ns ! k) = u \<and> (n_posX (ns ! k), n_posY (ns ! k)) = c)"
proof -
  have "distinct (map fst (map (\<lambda>n. (n_uid n, (n_posX n, n_posY n))) (filter n_alive ns)))"
    using distinct_map_filter [OF assms, of n_alive] by (simp add: comp_def)
  then show ?thesis by (auto simp: npc_cells_def in_set_conv_nth image_iff)
qed

lemma cells_eqI: "(\<And>u c. f u = Some c \<longleftrightarrow> g u = Some c) \<Longrightarrow> f = (g :: cells)"
  by (rule ext) (metis not_None_eq)

lemma uid_at: "distinct (map n_uid ns) \<Longrightarrow> j < length ns \<Longrightarrow> k < length ns \<Longrightarrow> n_uid (ns ! j) = n_uid (ns ! k) \<longleftrightarrow> j = k"
  using nth_eq_iff_index_eq [of "map n_uid ns" j k] by simp

lemma same_uids: "n_uid x = n_uid (ns ! i) \<Longrightarrow> map n_uid (ns[i := x]) = map n_uid ns"
  by (cases "i < length ns") (simp_all add: map_update list_update_beyond, metis list_update_id nth_map)

lemma cells_hit:
  assumes "distinct (map n_uid ns)" and "n_uid x = n_uid (ns ! i)" and "n_alive x = n_alive (ns ! i)"
    and "n_posX x = n_posX (ns ! i)" and "n_posY x = n_posY (ns ! i)"
  shows "npc_cells (ns[i := x]) = npc_cells ns"
proof (rule cells_eqI)
  have same: "n_alive (ns[i := x] ! k) = n_alive (ns ! k)" "n_uid (ns[i := x] ! k) = n_uid (ns ! k)"
    "n_posX (ns[i := x] ! k) = n_posX (ns ! k)" "n_posY (ns[i := x] ! k) = n_posY (ns ! k)" if "k < length ns" for k
    using that assms(2-5) by (cases "k = i"; simp)+
  show "npc_cells (ns[i := x]) u = Some c \<longleftrightarrow> npc_cells ns u = Some c" for u c
    using assms(1) same by (simp add: cells_iff same_uids [OF assms(2)] cong: conj_cong)
qed

lemma cells_killed:
  assumes "distinct (map n_uid ns)" and "i < length ns" and "n_uid x = n_uid (ns ! i)" and "\<not> n_alive x"
  shows "npc_cells (ns[i := x]) = (npc_cells ns)(n_uid (ns ! i) := None)"
proof (rule cells_eqI)
  show "npc_cells (ns[i := x]) u = Some c \<longleftrightarrow> ((npc_cells ns)(n_uid (ns ! i) := None)) u = Some c" for u c
    using assms uid_at [OF assms(1) _ assms(2)]
    by (auto simp: cells_iff same_uids nth_list_update) metis
qed

lemma cells_born:
  assumes "distinct (map n_uid ns)" and "i < length ns" and "\<not> n_alive (ns ! i)" and "n_alive x"
    and "n_uid x \<notin> set (map n_uid ns)"
  shows "npc_cells (ns[i := x]) = (npc_cells ns)(n_uid x \<mapsto> (n_posX x, n_posY x))"
    and "distinct (map n_uid (ns[i := x]))"
proof -
  show new: "distinct (map n_uid (ns[i := x]))"
    using assms(1,5) by (simp add: map_update distinct_list_update del: set_map)
  have "n_uid (ns ! k) \<noteq> n_uid x" if "k < length ns" for k
    using assms(5) that by (metis length_map nth_map nth_mem)
  then show "npc_cells (ns[i := x]) = (npc_cells ns)(n_uid x \<mapsto> (n_posX x, n_posY x))"
    using assms(2-4) by (intro cells_eqI) (auto simp: cells_iff [OF new] cells_iff [OF assms(1)] nth_list_update, metis)
qed

lemma told_all: "distinct (map n_uid ns) \<Longrightarrow>
    fold (\<lambda>n m. if n_alive n then place_message (P_NpcSpawn (npc_spawn n)) m else m) ns m = m ++ npc_cells ns"
proof (induction ns arbitrary: m)
  case (Cons n ns)
  have "npc_cells ns (n_uid n) = None"
    using Cons.prems by (auto simp: npc_cells_def map_of_eq_None_iff)
  then show ?case using Cons
    by (cases "n_alive n") (auto simp: npc_cells_def npc_spawn_def map_add_def fun_eq_iff split: option.split)
qed (simp add: npc_cells_def)

subsection \<open>The invariant\<close>

definition npcs_known :: "SessionId set \<Rightarrow> 'd world \<Rightarrow> bool" where
  "npcs_known K w \<longleftrightarrow> om_wf (w_sessions w) \<and> distinct (map n_uid (w_npcs w)) \<and>
     (\<forall>i. connected w i \<longrightarrow> i \<in> K \<and> told w i = (if in_game w i then npc_cells (w_npcs w) else (\<lambda>_. None))) \<and>
     (\<forall>i. i \<notin> K \<longrightarrow> told w i = (\<lambda>_. None))"

lemma npcs_known_still: "npcs_known K w \<Longrightarrow> still (npc_snap w) w' \<Longrightarrow> npcs_known K w'"
  by (auto simp: npcs_known_def still_def npc_snap_def)

lemma still_here: "npcs_known K w \<Longrightarrow> still (npc_snap w) w"
  by (simp add: still_def npcs_known_def)

interpretation known_step: message_invariant "npcs_known K" for K
proof unfold_locales
  fix w :: "'a world" and p i
  assume "npcs_known K w" "quiet p"
  then show "npcs_known K (Send i p w)" "npcs_known K (Broadcast p w)" "npcs_known K (BroadcastExcept i p w)"
    by (blast intro: npcs_known_still quiet_step.good_sends still_here)+
next
  fix w :: "'a world" and f :: "PlayerData \<Rightarrow> PlayerData" and i
  assume "npcs_known K w" "p_loggedIn (f (GetPlayer w i)) = p_loggedIn (GetPlayer w i)"
  then show "npcs_known K (upd_player i f w)" by (blast intro: npcs_known_still quiet_step.good_player still_here)
next
  fix w w' :: "'a world"
  assume known: "npcs_known K w" and same: "w_sessions w' = w_sessions w" "w_npcs w' = w_npcs w" "w_out w' = w_out w"
  then have "still (npc_snap w) w'" using snap_cong [of w' w] still_here [OF known] by (simp add: still_def)
  then show "npcs_known K w'" by (rule npcs_known_still [OF known])
qed

text \<open>A session that selects a character is told of every living NPC.\<close>

lemma told_SendAllNPCs:
  "told (SendAllNPCs sid w) i = (if i = sid \<and> connected w sid
     then fold (\<lambda>n m. if n_alive n then place_message (P_NpcSpawn (npc_spawn n)) m else m) (w_npcs w) (told w sid)
     else told w i)"
proof -
  have "told (fold (\<lambda>npc w. if n_alive npc then Send sid (P_NpcSpawn (npc_spawn npc)) w else w) ns w) i =
      (if i = sid \<and> connected w sid
       then fold (\<lambda>n m. if n_alive n then place_message (P_NpcSpawn (npc_spawn n)) m else m) ns (told w sid)
       else told w i)" for ns
    by (induction ns arbitrary: w) (auto simp: told_Send)
  then show ?thesis by (simp add: SendAllNPCs_def)
qed

lemma connected_SendAllNPCs: "connected (SendAllNPCs sid w) = connected w"
  by (rule connected_cong) simp

lemma map_add_same [simp]: "m ++ m = m"
  by (auto simp: fun_eq_iff map_add_def split: option.split)

lemma connected_live: "connected w i \<Longrightarrow> live w i"
  by (simp add: connected_def live_def split: option.splits)

lemma known_entering:
  assumes known: "npcs_known K w"
  shows "npcs_known K (SendAllNPCs sid (SendCharInfo sid (fetch_name E sid c (upd_player sid (enter_game c row x y) w))))"
proof -
  let ?v = "upd_player sid (enter_game c row x y) w"
  let ?u = "SendCharInfo sid (fetch_name E sid c ?v)"
  have "p_loggedIn (enter_game c row x y p)" for p by (simp add: enter_game_def split: prod.split)
  then have game: "in_game ?v i = (in_game w i \<or> i = sid \<and> live w sid)" for i
    by (auto simp: in_game_upd_player)
  have "told ?v = told w" by (rule told_cong) simp
  moreover have "om_wf (w_sessions ?v)" using known by (simp add: npcs_known_def)
  then have "still (npc_snap ?v) ?u"
    by (intro quiet_step.good_SendCharInfo quiet_step.good_fetch_name) (simp add: still_def)
  then have u: "told ?u = told ?v" "connected ?u = connected w" "in_game ?u = in_game ?v" "w_npcs ?u = w_npcs w"
      "om_wf (w_sessions ?u)"
    by (simp_all add: still_def npc_snap_def)
  moreover have "in_game (SendAllNPCs sid ?u) = in_game ?u" by (rule in_game_cong) simp
  moreover have dist: "distinct (map n_uid (w_npcs w))" using known by (simp add: npcs_known_def)
  ultimately show ?thesis
    using known connected_live [of w]
    by (auto simp: npcs_known_def told_SendAllNPCs connected_SendAllNPCs told_all [OF dist] game)
qed

lemma known_OnCharSelect: "npcs_known K w \<Longrightarrow> npcs_known K (OnCharSelect E sid req w)"
  by (auto simp: OnCharSelect_def draw_def Let_def quiet_texts split: prod.split option.split list.split
      intro!: npcs_known_still [OF _ still_LoadInventory [OF still_here]] known_step.good_SendAttendanceInfo
        known_step.good_SendOtherPlayers known_step.good_sends known_step.good_fields known_entering)

interpretation known_step: packet_invariant "npcs_known K" E "\<lambda>_. True" for K and E :: "'d env"
proof unfold_locales
  fix w w' :: "'d world" and sid tid "use" equip buy sell req
  assume known: "npcs_known K w"
  note still = npcs_known_still [OF known] still_here [OF known]
  show "npcs_known K (grant_item E sid tid w)" "npcs_known K (OnItemUse E sid use w)"
    "npcs_known K (OnItemEquip E sid equip w)"
    using still still_grant_item still_OnItemUse still_OnItemEquip by blast+
  show "npcs_known K w'" if "OnShopBuy E sid buy w = Inr w'" using still still_OnShopBuy that by blast
  show "npcs_known K w'" if "OnShopSell E sid sell w = Inr w'" using still still_OnShopSell that by blast
  show "npcs_known K (OnCharSelect E sid req w)" by (rule known_OnCharSelect [OF known])
qed

subsection \<open>A blow\<close>

lemma told_hit:
  "told (set_npc i f w) = told w" "connected (set_npc i f w) = connected w" "in_game (set_npc i f w) = in_game w"
  by (rule told_cong connected_cong in_game_cong; simp)+

lemma known_wound:
  assumes "npcs_known K w"
  shows "npcs_known K (set_npc i (\<lambda>npc. npc\<lparr>n_hp := hp\<rparr>) w)"
  using assms by (simp add: npcs_known_def told_hit set_npc_npcs same_uids cells_hit)

lemma known_after_death:
  assumes known: "npcs_known K w" and i: "i < length (w_npcs w)"
  shows "npcs_known K (after_death sid i w)"
proof -
  have wf: "om_wf (w_sessions w)" and dist: "distinct (map n_uid (w_npcs w))"
    using known by (simp_all add: npcs_known_def)
  have told: "told (after_death sid i w) j =
      (if connected w j \<and> in_game w j then (told w j)(n_uid (w_npcs w ! i) := None) else told w j)" for j
    by (simp add: after_death_def told_hit told_Broadcast [OF wf])
  have "connected (after_death sid i w) = connected w" "in_game (after_death sid i w) = in_game w"
    by (rule connected_cong in_game_cong; simp)+
  then show ?thesis
    using known dist i by (auto simp: npcs_known_def told same_uids cells_killed)
qed

lemma SpawnNPC_broadcasts:
  "\<exists>v. SpawnNPC E i w = Broadcast (P_NpcSpawn (npc_spawn (w_npcs (SpawnNPC E i w) ! i))) v \<and>
     w_sessions v = w_sessions w \<and> w_out v = w_out w"
  by (rule exI [of _ "set_npc i (npc_born (w_nextNpcUid w) (rand_value E (w_rand w)) (rand_value E (Suc (w_rand w))))
      (w\<lparr>w_nextNpcUid := w_nextNpcUid w + 1, w_rand := Suc (Suc (w_rand w))\<rparr>)"])
    (simp add: SpawnNPC_def draw_def Let_def)

lemma known_SpawnNPC:
  assumes known: "npcs_known K w" and i: "i < length (w_npcs w)" "\<not> n_alive (w_npcs w ! i)"
    and fresh: "w_nextNpcUid w \<notin> set (map n_uid (w_npcs w))"
  shows "npcs_known K (SpawnNPC E i w)"
proof -
  have wf: "om_wf (w_sessions w)" and dist: "distinct (map n_uid (w_npcs w))"
    using known by (simp_all add: npcs_known_def)
  let ?born = "npc_born (w_nextNpcUid w) (rand_value E (w_rand w)) (rand_value E (Suc (w_rand w))) (w_npcs w ! i)"
  have born: "n_alive ?born" "n_uid ?born = w_nextNpcUid w" by (simp_all add: npc_born_def)
  note cells = cells_born [OF dist i born(1), unfolded born(2), OF fresh]
  have told: "told (SpawnNPC E i w) j =
      (if connected w j \<and> in_game w j then (told w j)(w_nextNpcUid w \<mapsto> (n_posX ?born, n_posY ?born)) else told w j)" for j
  proof -
    obtain v where v: "SpawnNPC E i w = Broadcast (P_NpcSpawn (npc_spawn (w_npcs (SpawnNPC E i w) ! i))) v"
        "w_sessions v = w_sessions w" "w_out v = w_out w"
      using SpawnNPC_broadcasts by blast
    have "w_npcs (SpawnNPC E i w) ! i = ?born" using i(1) by (simp add: w_npcs_SpawnNPC)
    then have "told (SpawnNPC E i w) j = told (Broadcast (P_NpcSpawn (npc_spawn ?born)) v) j" using v(1) by simp
    also have "\<dots> = (if connected v j \<and> in_game v j then (told v j)(n_uid ?born \<mapsto> (n_posX ?born, n_posY ?born)) else told v j)"
      using wf v(2) by (simp add: told_Broadcast npc_spawn_def)
    finally show ?thesis
      unfolding born(2) told_cong [OF v(3)] connected_cong [OF v(2)] in_game_cong [OF v(2)] .
  qed
  have "connected (SpawnNPC E i w) = connected w" "in_game (SpawnNPC E i w) = in_game w"
    by (rule connected_cong in_game_cong; simp)+
  then show ?thesis
    using known cells by (auto simp: npcs_known_def told w_npcs_SpawnNPC)
qed

lemma known_on_kill:
  assumes "on_kill E sid i w = Inr w'" and known: "npcs_known K w" and i: "i < MAX_NPC" and ok: "npcs_ok v"
    and npcs: "w_npcs w = (w_npcs v)[i := (w_npcs v ! i)\<lparr>n_hp := 0\<rparr>]" and nxt: "w_nextNpcUid w = w_nextNpcUid v"
  shows "npcs_known K w'"
proof -
  have len: "length (w_npcs v) = MAX_NPC" using ok by (simp add: npcs_ok_def)
  let ?dead = "(w_npcs v ! i)\<lparr>n_hp := 0, n_alive := False\<rparr>"
  from assms(1) obtain w3 w4 where r: "reward_kill E sid (w_npcs w ! i) (after_death sid i w) = Inr w3"
    and d: "item_drop E sid (UpdateQuestProgress E sid w3) = Inr w4" and w': "w' = respawn E w4"
    by (rule on_kill_cases)
  have "npcs_known K (UpdateQuestProgress E sid w3)"
    by (rule known_step.good_UpdateQuestProgress, rule known_step.good_reward_kill [OF known_after_death [OF known] r])
      (simp add: npcs len i)
  from known_step.good_item_drop [OF this TrueI d] have w4: "npcs_known K w4" .
  have dead: "w_npcs w4 = (w_npcs v)[i := ?dead]"
    using i len item_drop_frame(3) [OF d] reward_kill_frame(2) [OF r] by (simp add: npcs)
  have same: "w_nextNpcUid w4 = w_nextNpcUid v"
    using nxt item_drop_frame(4) [OF d] reward_kill_frame(3) [OF r] by simp
  have "w_nextNpcUid w4 \<notin> set (map n_uid (w_npcs w4))"
    using ok by (auto simp: dead same same_uids npcs_ok_def simp del: set_map) auto
  then have "npcs_known K (SpawnNPC E i w4)"
    by (intro known_SpawnNPC [OF w4]) (simp_all add: dead i len)
  then show ?thesis unfolding w' respawn_dead [OF ok i dead, simplified] .
qed

lemma known_OnAttack:
  assumes known: "npcs_known K w" and ok: "npcs_ok w" and "OnAttack E sid atk w = Inr w'"
  shows "npcs_known K w'"
proof (cases "attack_target w sid (at_targetUid atk)")
  case None
  then show ?thesis using assms(3) by (auto simp: OnAttack_def intro!: known_step.good_sends known)
next
  case (Some i)
  let ?hp = "hp_left (n_hp (w_npcs w ! i)) (damage_of (p_atk (GetPlayer w sid)) (n_def (w_npcs w ! i)))"
  define v where "v = Send sid (P_AttackResult \<lparr>ar_success = 1, ar_targetUid = n_uid (w_npcs w ! i),
    ar_damage = damage_of (p_atk (GetPlayer w sid)) (n_def (w_npcs w ! i)), ar_targetHp = ?hp\<rparr>)
    (set_npc i (\<lambda>npc. npc\<lparr>n_hp := ?hp\<rparr>) w)"
  have v: "npcs_known K v" unfolding v_def by (intro known_step.good_sends known_wound known) simp
  show ?thesis
  proof (cases "?hp = 0")
    case True
    then have "on_kill E sid i v = Inr w'" using assms(3) Some by (simp add: OnAttack_def v_def Let_def)
    then show ?thesis
      by (rule known_on_kill [OF _ v attack_target_bound [OF Some] ok]) (simp_all add: v_def set_npc_npcs True)
  next
    case False
    then show ?thesis using assms(3) Some v by (simp add: OnAttack_def v_def Let_def)
  qed
qed

lemma known_handle:
  assumes "npcs_known K w" and "npcs_ok w" and "sizes_ok w"
  shows "ensures (handle E sid p w) (npcs_known K)"
proof (cases "\<exists>atk. p = C_Attack atk")
  case True
  then show ?thesis using known_OnAttack [OF assms(1,2)] by (auto intro!: ensuresI)
qed (use known_step.good_peaceful [OF assms(1) TrueI assms(3)] in blast)

subsection \<open>In every reached world\<close>

lemma npcs_known_fewer:
  assumes "npcs_known K w" and "told w' = told w" and "w_npcs w' = w_npcs w" and "om_wf (w_sessions w')"
    and "\<And>i. connected w' i \<Longrightarrow> connected w i \<and> in_game w' i = in_game w i"
  shows "npcs_known K w'"
  using assms by (auto simp: npcs_known_def)

lemma known_upd_session:
  assumes known: "npcs_known K w" and "\<And>s. s_connected (f s) \<Longrightarrow> s_connected s" and "\<And>s. s_player (f s) = s_player s"
  shows "npcs_known K (upd_session sid f w)"
proof (rule npcs_known_fewer [OF known told_cong])
  show "om_wf (w_sessions (upd_session sid f w))"
    using known by (simp add: npcs_known_def upd_session_def AddSession_def split: option.split)
  show "w_npcs (upd_session sid f w) = w_npcs w"
    by (simp add: upd_session_def AddSession_def split: option.split)
  show "connected w i \<and> in_game (upd_session sid f w) i = in_game w i" if "connected (upd_session sid f w) i" for i
    using that assms(2,3)
    by (auto simp: connected_def in_game_def GetPlayer_def GetSession_upd_session split: option.splits if_splits)
qed simp

lemma known_Accept:
  assumes "sessions_inv n w" and "n < max_steps" and known: "npcs_known (known_ids w) w"
  shows "npcs_known (known_ids (Accept w)) (Accept w)"
proof -
  let ?N = "w_nextSessionId w"
  have "?N \<noteq> - 1" using assms(1,2) not_max [of ?N n] by (simp add: sessions_inv_def)
  then have up: "?N < ?N + 1" by (rule word_less_succ)
  have told: "told (Accept w) = told w" by (rule told_cong) (simp add: Accept_def AddSession_def)
  have ids: "known_ids (Accept w) = {i. i < ?N + 1}" by (simp add: known_ids_def Accept_def AddSession_def)
  have sub: "known_ids w \<subseteq> known_ids (Accept w)" unfolding ids using up by (auto simp: known_ids_def intro: less_trans)
  have "connected (Accept w) i \<longleftrightarrow> i = ?N \<or> connected w i" "in_game (Accept w) i \<longleftrightarrow> i \<noteq> ?N \<and> in_game w i" for i
    by (simp_all add: connected_def in_game_def GetPlayer_def GetSession_def Accept_def AddSession_def new_session_def
        new_player_def)
  moreover have "told w ?N = (\<lambda>_. None)" using known by (simp add: npcs_known_def known_ids_def)
  moreover have "om_wf (w_sessions (Accept w))" "w_npcs (Accept w) = w_npcs w"
    using known by (simp_all add: npcs_known_def Accept_def AddSession_def)
  ultimately show ?thesis
    using known sub up by (auto simp: npcs_known_def told) (auto simp: ids)
qed

lemma known_OnDisconnect:
  assumes known: "npcs_known K w" and "sizes_ok w"
  shows "npcs_known K (OnDisconnect sid w)"
proof -
  have r: "npcs_known K (RemoveFromParty sid w)" by (rule known_step.good_RemoveFromParty [OF known assms(2)])
  then have p: "npcs_known K (OnPlayerDisconnect sid w)"
    by (rule npcs_known_still)
      (use r in \<open>simp add: still_def npcs_known_def OnPlayerDisconnect_def Let_def snap_cong\<close>)
  have drop: "npcs_known K (RemoveSession sid v)" if v: "npcs_known K v" for v
  proof (rule npcs_known_fewer [OF v told_cong])
    show "om_wf (w_sessions (RemoveSession sid v))" using v by (simp add: npcs_known_def RemoveSession_def)
    show "connected v i \<and> in_game (RemoveSession sid v) i = in_game v i" if "connected (RemoveSession sid v) i" for i
      using that by (auto simp: connected_def in_game_def GetPlayer_def RemoveSession_def GetSession_def split: if_splits)
  qed (simp_all add: RemoveSession_def)
  show ?thesis unfolding OnDisconnect_def Let_def
    using p by (auto intro!: drop known_step.good_sends)
qed

lemma known_server_step:
  assumes inv: "world_inv n w" and n: "n < max_steps" and known: "npcs_known (known_ids w) w" and "server_step E w w'"
  shows "npcs_known (known_ids w') w'"
  using assms(4)
proof cases
  case accept
  then show ?thesis using known_Accept [of n w] inv n known by (simp add: world_inv_def)
next
  case (packet sid payload header)
  have ok: "npcs_ok w" "sizes_ok w" using inv by (simp_all add: world_inv_def)
  have "w' = w \<or> (\<exists>p. handle E sid p w = Inr w')"
    using HandlePacket_handle [of E sid header payload w] packet(3) by auto
  then show ?thesis
  proof (elim disjE exE)
    fix p assume h: "handle E sid p w = Inr w'"
    have "known_ids w' = known_ids w" using ensuresD [OF handle_next_session h] by (simp add: known_ids_def)
    then show ?thesis using ensuresD [OF known_handle [OF known ok] h] by simp
  qed (use known in simp)
next
  case (buffered buf k sid)
  have "npcs_known (known_ids w) (upd_session sid (\<lambda>s. s\<lparr>s_recvBuffer := buf, s_recvSize := k\<rparr>) w)"
    by (rule known_upd_session [OF known]) simp_all
  then show ?thesis using buffered by (simp add: set_buffer_def known_ids_def)
next
  case (read_error sid)
  let ?w = "upd_session sid (\<lambda>s. s\<lparr>s_connected := False\<rparr>) w"
  have "sizes_ok ?w" using inv party_inv_cong(2) [of ?w w] by (simp add: world_inv_def)
  then have "npcs_known (known_ids w) (OnDisconnect sid ?w)"
    by (intro known_OnDisconnect known_upd_session [OF known]) simp_all
  then show ?thesis using read_error by (simp add: ReadError_def known_ids_def OnDisconnect_fields)
next
  case (write_error sid)
  have "npcs_known (known_ids w) (upd_session sid (\<lambda>s. s\<lparr>s_connected := False\<rparr>) w)"
    by (rule known_upd_session [OF known]) simp_all
  then show ?thesis using write_error by (simp add: WriteError_def known_ids_def)
qed

lemma known_initial: "npcs_known (known_ids (initial_world E db)) (initial_world E db)"
  using server.starts [of E db]
  by (simp add: npcs_known_def world_inv_def npcs_ok_def told_def placed_def sent_to_def connected_def GetSession_def
      initial_out initial_rest)

interpretation npcs: bounded_invariant "server_step E" "initial_world E db"
    "\<lambda>n w. world_inv n w \<and> npcs_known (known_ids w) w" max_steps
  for E :: "'d env" and db :: 'd
  by unfold_locales (auto intro: known_initial server.starts known_server_step dest: server.keeps)

subsection \<open>Property\<close>

lemma cells_set: "distinct (map n_uid ns) \<Longrightarrow>
    npc_cells ns u = Some (x, y) \<longleftrightarrow> (\<exists>n \<in> set ns. n_alive n \<and> n_uid n = u \<and> n_posX n = x \<and> n_posY n = y)"
  by (simp add: cells_iff) (metis in_set_conv_nth)

lemma known_npcs_new: "known_npcs new_client = (\<lambda>_. None)"
  by (simp add: fun_eq_iff known_npcs_def new_client_def)

text \<open>C3: A client sees the NPCs where they are. In every reached world, take a connected session in the game
  and a client that has handled exactly the messages sent to that session, between any keys: it shows
  an NPC at a cell exactly if a living NPC with that id stands on that cell of the server's map; killed
  NPCs are gone and their successors are there, whoever killed them.\<close>

theorem client_sees_npcs:
  assumes "reached (server_step E) (initial_world E db) n w" and "n \<le> max_steps"
    and "connected w sid" and "p_loggedIn (GetPlayer w sid)" and "packets_of es = sent_to sid w"
    and "run_client es \<lparr>u_client = new_client, u_console = con, u_sent = []\<rparr> = Some (Inr (True, u))"
  shows "(\<exists>npc. map_of (c_npcs (u_client u)) uid = Some npc \<and> cn_posX npc = x \<and> cn_posY npc = y) \<longleftrightarrow>
    (\<exists>npc \<in> set (w_npcs w). n_alive npc \<and> n_uid npc = uid \<and> n_posX npc = x \<and> n_posY npc = y)"
proof -
  have known: "npcs_known (known_ids w) w" using npcs.always [OF assms(1,2)] by simp
  have "known_npcs (u_client u) = placed (sent_to sid w)"
    using npc_view.run_client_view [OF assms(6)] assms(5)
    by (simp add: placed_def known_npcs_new)
  also have "\<dots> = npc_cells (w_npcs w)"
    using known assms(3,4) by (simp add: npcs_known_def told_def in_game_def)
  finally have "known_npcs (u_client u) uid = Some (x, y) \<longleftrightarrow> npc_cells (w_npcs w) uid = Some (x, y)" by simp
  moreover have "distinct (map n_uid (w_npcs w))" using known by (simp add: npcs_known_def)
  ultimately show ?thesis by (simp add: cells_set known_npcs_def npc_cell_def)
qed

lemma OnCharSelect_in_game:
  assumes "spCharacterLogin (dbConn E) (p_accountUid (GetPlayer w sid)) (cs_charUid req) (w_db w) = (Some (row # rows), db)"
    and "live w sid" and "om_wf (w_sessions w)"
  shows "in_game (OnCharSelect E sid req w) sid"
proof -
  have after: "in_game v' = in_game v" if "om_wf (w_sessions v)" "\<And>S. still S v \<Longrightarrow> still S v'" for v v' :: "'a world"
    using that(2) [of "npc_snap v"] that(1) by (simp add: still_def npc_snap_def)
  obtain c x y v where v: "v = upd_player sid (enter_game c row x y) (snd (draw E (snd (draw E (w\<lparr>w_db := db\<rparr>)))))"
    and select: "OnCharSelect E sid req w = LoadQuestProgress E sid (LoadInventory E sid (SendAttendanceInfo E sid
      (SendOtherPlayers sid (SendAllNPCs sid (SendCharInfo sid (fetch_name E sid c v))))))"
    by (simp add: OnCharSelect_def assms(1) Let_def draw_def)
  have wf: "om_wf (w_sessions v)" using assms(3) by (simp add: v draw_def)
  have "in_game v sid"
    using assms(2) by (simp add: v in_game_upd_player draw_def enter_game_def live_def GetSession_def split: prod.split)
  then have 1: "in_game (SendCharInfo sid (fetch_name E sid c v)) sid"
    using after [OF wf, of "SendCharInfo sid (fetch_name E sid c v)"]
    by (simp add: quiet_step.good_SendCharInfo quiet_step.good_fetch_name)
  let ?n = "SendAllNPCs sid (SendCharInfo sid (fetch_name E sid c v))"
  have 2: "in_game ?n sid" using 1 in_game_cong [of ?n "SendCharInfo sid (fetch_name E sid c v)"] by simp
  have "still S (SendCharInfo sid (fetch_name E sid c v)) \<Longrightarrow> om_wf (w_sessions ?n)" for S by (simp add: still_def)
  then have "om_wf (w_sessions ?n)"
    using quiet_step.good_SendCharInfo [OF quiet_step.good_fetch_name, of "npc_snap v" v] wf by (simp add: still_def)
  from after [OF this, of "OnCharSelect E sid req w"] show ?thesis
    using 2 by (simp add: select quiet_step.good_fields still_LoadInventory quiet_step.good_SendAttendanceInfo
        quiet_step.good_SendOtherPlayers)
qed

theorem client_sees_npcs_witness:
  "\<exists>u npc. run_client (map Packet (sent_to 1 entered)) \<lparr>u_client = new_client, u_console = idle, u_sent = []\<rparr>
      = Some (Inr (True, u)) \<and> map_of (c_npcs (u_client u)) (n_uid (w_npcs entered ! 0)) = Some npc"
proof -
  have bound: "Suc (Suc 0) \<le> max_steps" by (simp add: max_steps_def)
  obtain s where "run_packets cl_handle (sent_to 1 entered) new_client = Inr s" using entered_received by blast
  then have run: "run_client (map Packet (sent_to 1 entered)) \<lparr>u_client = new_client, u_console = idle, u_sent = []\<rparr>
      = Some (Inr (True, \<lparr>u_client = s, u_console = idle, u_sent = []\<rparr>))"
    using run_client_packets [of "sent_to 1 entered" "\<lparr>u_client = new_client, u_console = idle, u_sent = []\<rparr>"] by simp
  have "om_wf (w_sessions one_client)" using server.always [OF one_client_reached]
    by (simp add: world_inv_def sessions_inv_def sessions_wf_def max_steps_def)
  then have "in_game entered 1"
    unfolding entered_def by (intro OnCharSelect_in_game) (simp_all add: sample_env_def sample_db_def live_def first_client)
  then have "p_loggedIn (GetPlayer entered 1)" by (simp add: in_game_def)
  from client_sees_npcs [OF entered_reached bound entered_view(1) this packets_of_map run,
      of "n_uid (w_npcs entered ! 0)" "n_posX (w_npcs entered ! 0)" "n_posY (w_npcs entered ! 0)"]
    run
  have "w_npcs entered ! 0 \<in> set (w_npcs entered) \<and> n_alive (w_npcs entered ! 0) \<Longrightarrow> ?thesis" by blast
  moreover have "npcs_ok entered" using server.always [OF entered_reached bound] by (simp add: world_inv_def)
  then have "w_npcs entered ! 0 \<in> set (w_npcs entered) \<and> n_alive (w_npcs entered ! 0)"
    using npcs_ok_nth [of entered 0] by (simp add: npcs_ok_def npc_ok_def MAX_NPC_def)
  ultimately show ?thesis by blast
qed

end
