(* ===== verification/Client_Server.thy ===== *)
theory Client_Server
  imports Npc_Mirror
begin

text \<open>
  The whole way of a key and reply: the keys of a player become requests, their frames are read by the
  server in pieces of any sizes, the handler moves the player, and the client that receives what the
  server sends it shows the position the server has. The bytes one side hands to its socket are taken
  to arrive at the other side in order and complete; the two unchecked \<open>send\<close> calls of
  \<open>TcpClient::Send\<close> on a socket that does not block may in the program send less.
\<close>

subsection \<open>Walking\<close>

text \<open>What the keys are to mean: one cell in a direction, and a step off the map is none.\<close>

definition step_keys :: "char set" where
  "step_keys = set ''wasdWASD''"

definition stride :: "char \<Rightarrow> int \<times> int" where
  "stride key = (if key \<in> set ''wW'' then (0, - 1) else if key \<in> set ''sS'' then (0, 1)
     else if key \<in> set ''aA'' then (- 1, 0) else (1, 0))"

fun walk :: "char list \<Rightarrow> int \<times> int \<Rightarrow> int \<times> int" where
  "walk [] (x, y) = (x, y)"
| "walk (key # keys) (x, y) =
     (let x' = x + fst (stride key); y' = y + snd (stride key)
      in walk keys (if 0 \<le> x' \<and> x' < int MAP_SIZE \<and> 0 \<le> y' \<and> y' < int MAP_SIZE then (x', y') else (x, y)))"

definition server_position :: "'d world \<Rightarrow> SessionId \<Rightarrow> int \<times> int" where
  "server_position w sid = (sint (p_posX (GetPlayer w sid)), sint (p_posY (GetPlayer w sid)))"

definition shown_position :: "client \<Rightarrow> int \<times> int" where
  "shown_position c = (sint (me_posX (c_myPlayer c)), sint (me_posY (c_myPlayer c)))"

lemma walk_append: "walk (ks @ ks') p = walk ks' (walk ks p)"
  by (induction ks p rule: walk.induct) (simp_all add: Let_def)

subsection \<open>From the keys to the requests\<close>

definition step_request :: "char \<Rightarrow> cs_packet" where
  "step_request key = move_by (word_of_int (fst (stride key))) (word_of_int (snd (stride key)))"

lemma tolower_steps:
  "tolower (CHR ''w'') = CHR ''w''" "tolower (CHR ''a'') = CHR ''a''" "tolower (CHR ''s'') = CHR ''s''"
  "tolower (CHR ''d'') = CHR ''d''" "tolower (CHR ''W'') = CHR ''w''" "tolower (CHR ''A'') = CHR ''a''"
  "tolower (CHR ''S'') = CHR ''s''" "tolower (CHR ''D'') = CHR ''d''"
  by code_simp+

lemma step_key:
  "key \<in> step_keys \<Longrightarrow> c_gameState (u_client u) = InGame \<Longrightarrow> key_turn key u = go_on (send (step_request key) u)"
  unfolding step_keys_def
  by (simp, elim disjE) (simp_all add: key_turn_def game_key_def tolower_steps step_request_def stride_def Let_def)

lemma steps_typed:
  "set keys \<subseteq> step_keys \<Longrightarrow> c_gameState (u_client u) = InGame \<Longrightarrow>
     run_client (map Key keys) u = Some (Inr (True, u\<lparr>u_sent := u_sent u @ map step_request keys\<rparr>))"
  by (induction keys arbitrary: u) (simp_all add: step_key go_on_def send_def)

subsection \<open>From the requests to the world\<close>

definition move_answer :: "'d world \<Rightarrow> SessionId \<Rightarrow> sc_packet" where
  "move_answer w sid = P_MoveResult \<lparr>mr_success = 1, mr_posX = p_posX (GetPlayer w sid), mr_posY = p_posY (GetPlayer w sid)\<rparr>"

lemma OnMove_answers:
  assumes "connected w sid"
  shows "sent_to sid (OnMove sid m w) = sent_to sid w @ [move_answer (OnMove sid m w) sid]"
    and "connected (OnMove sid m w) sid"
proof -
  have cast: "sent_to sid (BroadcastExcept sid p v) = sent_to sid v" for p and v :: "'a world"
    by (auto simp: sent_to_append [OF w_out_BroadcastExcept] filter_empty_conv)
  have sent: "sent_to sid (Send sid p v) = sent_to sid v @ [p]" if "connected v sid" for p and v :: "'a world"
  proof -
    from that obtain s where "GetSession v sid = Some s" "s_connected s" by (auto simp: connected_def split: option.splits)
    then show ?thesis by (simp add: sent_to_append [OF w_out_Send] session_send_def)
  qed
  have "sent_to sid (upd_player sid f w) = sent_to sid w" for f by (simp add: sent_to_def)
  then show "sent_to sid (OnMove sid m w) = sent_to sid w @ [move_answer (OnMove sid m w) sid]"
    using assms by (simp add: OnMove_def Let_def cast sent move_answer_def)
  show "connected (OnMove sid m w) sid" using assms by (simp add: OnMove_def Let_def)
qed

lemma stride_word: "sint (word_of_int (fst (stride key)) :: i8) = fst (stride key)"
    "sint (word_of_int (snd (stride key)) :: i8) = snd (stride key)"
  by (simp_all add: stride_def)

lemma OnMove_steps:
  assumes "live w sid" and "on_map (GetPlayer w sid)"
  shows "handle E sid (step_request key) w =
      Inr (OnMove sid \<lparr>mv_dirX = word_of_int (fst (stride key)), mv_dirY = word_of_int (snd (stride key))\<rparr> w)"
    and "server_position (OnMove sid \<lparr>mv_dirX = word_of_int (fst (stride key)), mv_dirY = word_of_int (snd (stride key))\<rparr> w) sid
      = walk [key] (server_position w sid)"
proof -
  show "handle E sid (step_request key) w =
      Inr (OnMove sid \<lparr>mv_dirX = word_of_int (fst (stride key)), mv_dirY = word_of_int (snd (stride key))\<rparr> w)"
    by (simp add: step_request_def move_by_def)
  show "server_position (OnMove sid \<lparr>mv_dirX = word_of_int (fst (stride key)), mv_dirY = word_of_int (snd (stride key))\<rparr> w) sid
      = walk [key] (server_position w sid)"
    using OnMove_exact [OF assms, of "\<lparr>mv_dirX = word_of_int (fst (stride key)), mv_dirY = word_of_int (snd (stride key))\<rparr>"]
    by (simp add: server_position_def stride_word Let_def split: if_splits)
qed

lemma move_answer_safe [simp]: "sc_safe (move_answer w sid)"
  by (simp add: move_answer_def sc_safe_def SC_MoveResult_L_def)

lemma steps_handled:
  assumes "connected w sid" and "on_map (GetPlayer w sid)"
  shows "\<exists>w' news. run_packets (handle E sid) (map step_request keys) w = Inr w' \<and> connected w' sid \<and>
    on_map (GetPlayer w' sid) \<and> server_position w' sid = walk keys (server_position w sid) \<and> sent_to sid w' = sent_to sid w @ news \<and>
    list_all sc_safe news \<and> (keys \<noteq> [] \<longrightarrow> (\<exists>ns. news = ns @ [move_answer w' sid]))"
proof (induction keys rule: rev_induct)
  case Nil
  then show ?case using assms by (cases "server_position w sid") simp
next
  case (snoc key keys)
  then obtain v news where v: "run_packets (handle E sid) (map step_request keys) w = Inr v" "connected v sid"
      "on_map (GetPlayer v sid)" "server_position v sid = walk keys (server_position w sid)" "sent_to sid v = sent_to sid w @ news"
      "list_all sc_safe news" by blast
  let ?w' = "OnMove sid \<lparr>mv_dirX = word_of_int (fst (stride key)), mv_dirY = word_of_int (snd (stride key))\<rparr> v"
  note step = OnMove_steps [OF connected_live [OF v(2)] v(3)]
  show ?case
    using v OnMove_answers [OF v(2)] step OnMove_on_map [OF v(3)]
    by (intro exI [of _ ?w'] exI [of _ "news @ [move_answer ?w' sid]"])
      (simp add: run_packets_append walk_append)
qed

subsection \<open>From the answers to the screen\<close>

lemma answer_shown:
  assumes "client_ok c" and "list_all sc_safe ns"
  shows "\<exists>c'. run_packets cl_handle (ns @ [move_answer w sid]) c = Inr c' \<and> shown_position c' = server_position w sid"
proof -
  obtain c1 where c1: "run_packets cl_handle ns c = Inr c1" "client_ok c1" using run_packets_ok [OF assms] by blast
  have "ends_ok (cl_handle (move_answer w sid) c1)" by (rule cl_handle_ok [OF c1(2)]) simp
  then obtain c' where c': "cl_handle (move_answer w sid) c1 = Inr c'" by (auto simp: ends_ok_def split: sum.splits)
  then have "shown_position c' = server_position w sid"
    by (auto simp: move_answer_def cl_OnMoveResult_def DrawMap_def say_def upd_me_def shown_position_def server_position_def
        split: if_splits)
  then show ?thesis by (simp add: run_packets_append c1(1) c')
qed

text \<open>The messages a session was sent from one world to a later one.\<close>

definition answers :: "SessionId \<Rightarrow> 'd world \<Rightarrow> 'd world \<Rightarrow> sc_packet list" where
  "answers sid w w' = drop (length (sent_to sid w)) (sent_to sid w')"

text \<open>C8: Walking works from the key to the screen. A client in the game on which any non-empty sequence of
  the keys w, a, s, d is pressed sends requests such that the server, reading their frames in pieces
  of any sizes that fit its buffer, handles all of them, is left with an empty buffer, and has the
  player where these keys lead (each one cell in its direction, none off the map); and a client that
  then receives, in pieces of any sizes, what the server has sent its session meanwhile shows the very
  position the server has. The session is connected and its player is on the map; the bytes handed to
  the sockets arrive.\<close>

theorem walk_shown:
  assumes "c_gameState c = InGame" and "client_ok c" and "set keys \<subseteq> step_keys" and "keys \<noteq> []"
    and "connected w sid" and "on_map (GetPlayer w sid)" and "length buf = MAX_RECV_BUFFER_SIZE"
  shows "\<exists>u. run_client (map Key keys) \<lparr>u_client = c, u_console = con, u_sent = []\<rparr> = Some (Inr (True, u)) \<and>
    (\<forall>chunks. concat chunks = stream (u_sent u) \<and> reads_fit (HandlePacket E sid) chunks (buf, 0, w) \<longrightarrow>
      (\<exists>buf' w'. run_reads (HandlePacket E sid) chunks (buf, 0, w) = Some (Inr (buf', 0, w')) \<and>
        server_position w' sid = walk keys (server_position w sid) \<and>
        (\<forall>rs. arrived rs = sc_stream (answers sid w w') \<and> list_all keeps_open rs \<longrightarrow>
          (\<exists>c'. RecvLoop ClientPacket rs (\<lparr>tc_connected = True, tc_recvBuffer = []\<rparr>, c)
              = Some (Inr (\<lparr>tc_connected = True, tc_recvBuffer = []\<rparr>, c')) \<and>
            shown_position c' = server_position w' sid))))"
proof -
  have none: "incomplete []" by (simp add: incomplete_def HEADER_SIZE_def)
  from steps_handled [OF assms(5,6), of E keys] obtain w' ns where
    w': "run_packets (handle E sid) (map step_request keys) w = Inr w'" "server_position w' sid = walk keys (server_position w sid)"
      "sent_to sid w' = sent_to sid w @ ns @ [move_answer w' sid]" "list_all sc_safe ns"
    using assms(4) by auto
  have ok: "list_all cs_ok (map step_request keys)"
    by (simp add: list_all_iff step_request_def move_by_def CS_Move_L_def)
  have read: "\<exists>buf'. run_reads (HandlePacket E sid) chunks (buf, 0, w) = Some (Inr (buf', 0, w'))"
    if "concat chunks = stream (map step_request keys)" "reads_fit (HandlePacket E sid) chunks (buf, 0, w)" for chunks
    using server_sink.stream_delivery [OF ok none _ _ _ assms(7) that(2)] that(1) none w'(1) by simp
  have news: "answers sid w w' = ns @ [move_answer w' sid]" by (simp add: answers_def w'(3))
  obtain c' where c': "run_packets cl_handle (answers sid w w') c = Inr c'" "shown_position c' = server_position w' sid"
    using answer_shown [OF assms(2) w'(4)] unfolding news by blast
  have "list_all sc_ok (answers sid w w')" using w'(4) by (auto simp: news list_all_iff sc_safe_def move_answer_def SC_MoveResult_L_def)
  from client_sink.all_delivered [OF this none, of "\<lparr>tc_connected = True, tc_recvBuffer = []\<rparr>" _ c]
  have recv: "RecvLoop ClientPacket rs (\<lparr>tc_connected = True, tc_recvBuffer = []\<rparr>, c)
      = Some (Inr (\<lparr>tc_connected = True, tc_recvBuffer = []\<rparr>, c'))"
    if "arrived rs = sc_stream (answers sid w w')" "list_all keeps_open rs" for rs
    using that none c'(1) by simp
  show ?thesis
    using steps_typed [OF assms(3), of "\<lparr>u_client = c, u_console = con, u_sent = []\<rparr>"] assms(1) read w'(2) recv c'(2)
    by (intro exI [of _ "\<lparr>u_client = c, u_console = con, u_sent = map step_request keys\<rparr>"]) fastforce
qed

lemma first_client_steps:
  "connected one_client 1" "on_map (GetPlayer one_client 1)" "server_position one_client 1 = (10, 10)"
  by (simp_all add: connected_def GetPlayer_def first_client new_session_def new_player_def on_map_def in_map_def
      MAP_SIZE_def server_position_def)

text \<open>West twelve times, which is two steps too many, and north.\<close>

theorem walk_shown_witness:
  "\<exists>u buf w' c'. run_client (map Key ''aaaaaaaAAAAAw'') \<lparr>u_client = new_client\<lparr>c_gameState := InGame\<rparr>, u_console = idle, u_sent = []\<rparr>
      = Some (Inr (True, u)) \<and>
    run_reads (HandlePacket sample_env 1) [stream (u_sent u)] (s_recvBuffer new_session, 0, one_client) = Some (Inr (buf, 0, w')) \<and>
    RecvLoop ClientPacket [Received (sc_stream (answers 1 one_client w')), WouldBlock]
        (\<lparr>tc_connected = True, tc_recvBuffer = []\<rparr>, new_client\<lparr>c_gameState := InGame\<rparr>)
      = Some (Inr (\<lparr>tc_connected = True, tc_recvBuffer = []\<rparr>, c')) \<and> shown_position c' = (0, 9)"
proof -
  let ?c = "new_client\<lparr>c_gameState := InGame\<rparr>"
  have walked: "walk ''aaaaaaaAAAAAw'' (10, 10) = (0, 9)" by (simp add: stride_def MAP_SIZE_def)
  have buf: "length (s_recvBuffer new_session) = MAX_RECV_BUFFER_SIZE" by (simp add: new_session_def)
  from walk_shown [of ?c "''aaaaaaaAAAAAw''" one_client 1 "s_recvBuffer new_session" idle sample_env] obtain u where
    u: "run_client (map Key ''aaaaaaaAAAAAw'') \<lparr>u_client = ?c, u_console = idle, u_sent = []\<rparr> = Some (Inr (True, u))"
    and all: "\<forall>chunks. concat chunks = stream (u_sent u) \<and>
      reads_fit (HandlePacket sample_env 1) chunks (s_recvBuffer new_session, 0, one_client) \<longrightarrow>
      (\<exists>buf' w'. run_reads (HandlePacket sample_env 1) chunks (s_recvBuffer new_session, 0, one_client) = Some (Inr (buf', 0, w')) \<and>
        server_position w' 1 = walk ''aaaaaaaAAAAAw'' (server_position one_client 1) \<and>
        (\<forall>rs. arrived rs = sc_stream (answers 1 one_client w') \<and> list_all keeps_open rs \<longrightarrow>
          (\<exists>c'. RecvLoop ClientPacket rs (\<lparr>tc_connected = True, tc_recvBuffer = []\<rparr>, ?c)
              = Some (Inr (\<lparr>tc_connected = True, tc_recvBuffer = []\<rparr>, c')) \<and> shown_position c' = server_position w' 1)))"
    using first_client_steps buf by (auto simp: step_keys_def)
  have "set ''aaaaaaaAAAAAw'' \<subseteq> step_keys" by (simp add: step_keys_def)
  from steps_typed [OF this, of "\<lparr>u_client = ?c, u_console = idle, u_sent = []\<rparr>"] u
  have "u_sent u = map step_request ''aaaaaaaAAAAAw''" by (auto simp del: list.map run_client.simps)
  moreover have "length (cs_frame (step_request key)) \<le> 153" for key
    using length_cs_payload [of "step_request key"]
    by (simp add: step_request_def move_by_def CS_Move_L_def length_cs_frame HEADER_SIZE_def)
  from this [of "CHR ''a''"] this [of "CHR ''A''"] this [of "CHR ''w''"]
  have "length (stream (map step_request ''aaaaaaaAAAAAw'')) \<le> MAX_RECV_BUFFER_SIZE"
    by (simp add: MAX_RECV_BUFFER_SIZE_def)
  ultimately have "reads_fit (HandlePacket sample_env 1) [stream (u_sent u)] (s_recvBuffer new_session, 0, one_client)"
    by (simp add: read_fits_def split: option.split sum.split)
  with all obtain buf' w' where
    w': "run_reads (HandlePacket sample_env 1) [stream (u_sent u)] (s_recvBuffer new_session, 0, one_client) = Some (Inr (buf', 0, w'))"
      "server_position w' 1 = walk ''aaaaaaaAAAAAw'' (server_position one_client 1)"
    and reply: "\<forall>rs. arrived rs = sc_stream (answers 1 one_client w') \<and> list_all keeps_open rs \<longrightarrow>
      (\<exists>c'. RecvLoop ClientPacket rs (\<lparr>tc_connected = True, tc_recvBuffer = []\<rparr>, ?c)
        = Some (Inr (\<lparr>tc_connected = True, tc_recvBuffer = []\<rparr>, c')) \<and> shown_position c' = server_position w' 1)"
    by (metis append_Nil2 concat.simps)
  have "server_position w' 1 = (0, 9)" unfolding w'(2) first_client_steps(3) by (rule walked)
  moreover from reply [rule_format, of "[Received (sc_stream (answers 1 one_client w')), WouldBlock]"] obtain c' where
    "RecvLoop ClientPacket [Received (sc_stream (answers 1 one_client w')), WouldBlock]
        (\<lparr>tc_connected = True, tc_recvBuffer = []\<rparr>, ?c)
      = Some (Inr (\<lparr>tc_connected = True, tc_recvBuffer = []\<rparr>, c'))" "shown_position c' = server_position w' 1" by auto
  ultimately show ?thesis using u w'(1) by metis
qed

end
