(* ===== verification/Json_Loader.thy ===== *)
theory Json_Loader
  imports Sample Decimal
begin

text \<open>
  \<open>LoadItems\<close> and \<open>LoadQuests\<close> of \<open>GameServer/main.cpp\<close>: the hand-written reader of
  \<open>data/items.json\<close> and \<open>data/quests.json\<close>, which looks for keys, quotes and brackets in the text of
  the file. A position is what \<open>std::string::find\<close> returns, \<open>None\<close> for \<open>npos\<close>; the sums the code makes
  with \<open>npos\<close> wrap around in \<open>size_t\<close>, and are written out where they occur. A file that cannot be
  opened is \<open>None\<close>. The loop over the objects of an array may never end, so it is a partial function.
\<close>

subsection \<open>Strings\<close>

type_synonym position = "nat option"

fun at_front :: "string \<Rightarrow> string \<Rightarrow> bool" where
  "at_front [] s = True"
| "at_front (p # ps) [] = False"
| "at_front (p # ps) (c # s) = (p = c \<and> at_front ps s)"

fun first_at :: "string \<Rightarrow> string \<Rightarrow> position" where
  "first_at pat [] = (if pat = [] then Some 0 else None)"
| "first_at pat (c # s) = (if at_front pat (c # s) then Some 0 else map_option Suc (first_at pat s))"

text \<open>\<open>s.find(pat, from)\<close>.\<close>

definition find_from :: "string \<Rightarrow> string \<Rightarrow> position \<Rightarrow> position" where
  "find_from s pat from = (case from of None \<Rightarrow> None
     | Some i \<Rightarrow> if i \<le> length s then map_option ((+) i) (first_at pat (drop i s)) else None)"

text \<open>\<open>s.substr(pos, count)\<close>; a count of \<open>None\<close> is beyond the end of any string.\<close>

definition substr :: "string \<Rightarrow> position \<Rightarrow> position \<Rightarrow> string result" where
  "substr s pos count = (case pos of None \<Rightarrow> Inl OutOfRange
     | Some i \<Rightarrow> if length s < i then Inl OutOfRange
         else Inr (case count of None \<Rightarrow> drop i s | Some n \<Rightarrow> take n (drop i s)))"

text \<open>
  \<open>till - from + 1\<close>: with \<open>npos\<close> for the last position it wraps to zero at position zero, and is beyond
  the string's end elsewhere.
\<close>

definition through :: "position \<Rightarrow> position \<Rightarrow> position" where
  "through from till = (case from of None \<Rightarrow> None
     | Some i \<Rightarrow> (case till of None \<Rightarrow> if i = 0 then Some 0 else None | Some j \<Rightarrow> Some (j - i + 1)))"

text \<open>\<open>objEnd + 1\<close>: one past \<open>npos\<close> is zero.\<close>

definition behind :: "position \<Rightarrow> nat" where
  "behind till = (case till of None \<Rightarrow> 0 | Some j \<Rightarrow> j + 1)"

subsection \<open>Values of an object\<close>

definition quote :: char where
  "quote = CHR 0x22"

definition quoted :: "string \<Rightarrow> string" where
  "quoted key = quote # key @ [quote]"

definition parseStr :: "string \<Rightarrow> string \<Rightarrow> string result" where
  "parseStr s key = (case find_from s (quoted key) (Some 0) of None \<Rightarrow> Inr []
     | Some pos \<Rightarrow> (case find_from s [quote] (Some (pos + length key + 2)) of None \<Rightarrow> Inr []
     | Some pos \<Rightarrow> substr s (Some (pos + 1))
         (map_option (\<lambda>end. end - pos - 1) (find_from s [quote] (Some (pos + 1))))))"

text \<open>Without a colon behind the key, \<open>atoi\<close> is given an address before the string.\<close>

definition parseInt :: "string \<Rightarrow> string \<Rightarrow> int result" where
  "parseInt s key = (case find_from s (quoted key) (Some 0) of None \<Rightarrow> Inr 0
     | Some pos \<Rightarrow> (case find_from s '':'' (Some pos) of None \<Rightarrow> Inl OutOfBounds
     | Some pos \<Rightarrow> Inr (atoi (dropWhile (\<lambda>c. c = CHR '':'' \<or> c = CHR '' '') (drop pos s)))))"

subsection \<open>The objects of an array\<close>

text \<open>The loop reads an object and stores what it got, before it looks for the next one.\<close>

partial_function (option) objects ::
  "(string \<Rightarrow> 'a result) \<Rightarrow> ('a \<Rightarrow> 's \<Rightarrow> 's result) \<Rightarrow> string \<Rightarrow> nat \<Rightarrow> 's \<Rightarrow> 's result option" where
  "objects parse store arr pos st =
     (case find_from arr ''{'' (Some pos) of
        None \<Rightarrow> Some (Inr st)
      | Some start \<Rightarrow>
          (let objEnd = find_from arr ''}'' (Some start) in
           case bind_result (bind_result (substr arr (Some start) (through (Some start) objEnd)) parse) (\<lambda>x. store x st) of
             Inl c \<Rightarrow> Some (Inl c)
           | Inr st' \<Rightarrow> objects parse store arr (behind objEnd) st'))"

declare objects.simps [code]

text \<open>The text from the first opening bracket at or after a position to the next closing one.\<close>

definition array_text :: "string \<Rightarrow> position \<Rightarrow> string result" where
  "array_text json from = (let arrStart = find_from json ''['' from;
     arrEnd = find_from json '']'' arrStart
   in substr json arrStart (through arrStart arrEnd))"

definition load_array ::
  "(string \<Rightarrow> 'a result) \<Rightarrow> ('a \<Rightarrow> 's \<Rightarrow> 's result) \<Rightarrow> string \<Rightarrow> position \<Rightarrow> 's \<Rightarrow> 's result option" where
  "load_array parse store json from st =
     (case array_text json from of Inl c \<Rightarrow> Some (Inl c) | Inr arr \<Rightarrow> objects parse store arr 0 st)"

subsection \<open>Items and drops\<close>

definition parse_item :: "string \<Rightarrow> ItemData result" where
  "parse_item obj =
     bind_result (parseInt obj ''id'') (\<lambda>tid.
     bind_result (parseStr obj ''name'') (\<lambda>name.
     bind_result (parseStr obj ''type'') (\<lambda>type.
     bind_result (parseInt obj ''atk'') (\<lambda>atk.
     bind_result (parseInt obj ''def'') (\<lambda>armor.
     bind_result (parseInt obj ''hp'') (\<lambda>hp.
     bind_result (parseInt obj ''price'') (\<lambda>price.
       Inr \<lparr>it_id = word_of_int tid, it_name = name, it_type = type, it_atk = word_of_int atk,
         it_def = word_of_int armor, it_hp = word_of_int hp, it_price = word_of_int price\<rparr>)))))))"

definition parse_drop :: "string \<Rightarrow> DropEntry result" where
  "parse_drop obj =
     bind_result (parseInt obj ''itemId'') (\<lambda>tid.
     bind_result (parseInt obj ''weight'') (\<lambda>weight.
       Inr \<lparr>de_itemId = word_of_int tid, de_weight = weight\<rparr>))"

definition store_item :: "ItemData \<Rightarrow> 'd env \<Rightarrow> 'd env result" where
  "store_item item E = Inr (E\<lparr>g_items := g_items E @ [item]\<rparr>)"

text \<open>The total weight is an \<open>int\<close>.\<close>

definition fits_int :: "int \<Rightarrow> bool" where
  "fits_int n \<longleftrightarrow> - 2147483648 \<le> n \<and> n < 2147483648"

definition store_drop :: "DropEntry \<Rightarrow> 'd env \<Rightarrow> 'd env result" where
  "store_drop de E = (if fits_int (g_totalWeight E + de_weight de)
     then Inr (E\<lparr>g_dropTable := g_dropTable E @ [de], g_totalWeight := g_totalWeight E + de_weight de\<rparr>)
     else Inl SignedOverflow)"

definition LoadItems :: "string option \<Rightarrow> 'd env \<Rightarrow> (bool \<times> 'd env) result option" where
  "LoadItems file E = (case file of None \<Rightarrow> Some (Inr (False, E))
     | Some json \<Rightarrow>
        (case load_array parse_item store_item json (find_from json (quoted ''items'') (Some 0)) E of
           None \<Rightarrow> None
         | Some (Inl c) \<Rightarrow> Some (Inl c)
         | Some (Inr E1) \<Rightarrow>
             (let dropStart = find_from json (quoted ''dropTable'') (Some 0) in
              if dropStart = None then Some (Inr (g_items E1 \<noteq> [], E1))
              else map_option (\<lambda>r. bind_result r (\<lambda>E2. Inr (g_items E2 \<noteq> [], E2)))
                (load_array parse_drop store_drop json dropStart E1))))"

subsection \<open>Quests\<close>

definition parse_quest :: "string \<Rightarrow> QuestData result" where
  "parse_quest obj =
     bind_result (parseInt obj ''id'') (\<lambda>tid.
     bind_result (parseStr obj ''name'') (\<lambda>name.
     bind_result (parseInt obj ''target'') (\<lambda>target.
     bind_result (parseInt obj ''rewardGold'') (\<lambda>gold.
     bind_result (parseInt obj ''rewardExp'') (\<lambda>xp.
     bind_result (parseInt obj ''rewardItemId'') (\<lambda>item.
       Inr \<lparr>qd_id = word_of_int tid, qd_name = name, qd_target = word_of_int target,
         qd_rewardGold = word_of_int gold, qd_rewardExp = word_of_int xp, qd_rewardItemId = word_of_int item\<rparr>))))))"

definition store_quest :: "QuestData \<Rightarrow> 'd env \<Rightarrow> 'd env result" where
  "store_quest quest E = Inr (E\<lparr>g_quests := g_quests E @ [quest]\<rparr>)"

definition LoadQuests :: "string option \<Rightarrow> 'd env \<Rightarrow> (bool \<times> 'd env) result option" where
  "LoadQuests file E = (case file of None \<Rightarrow> Some (Inr (False, E))
     | Some json \<Rightarrow> map_option (\<lambda>r. bind_result r (\<lambda>E1. Inr (g_quests E1 \<noteq> [], E1)))
         (load_array parse_quest store_quest json (Some 0) E))"

subsection \<open>Searching\<close>

lemma first_at_char: "first_at [c] s = (if c \<in> set s then Some (length (takeWhile (\<lambda>x. x \<noteq> c) s)) else None)"
  by (induction s) auto

lemma first_at_found: "first_at pat s = Some i \<Longrightarrow> i \<le> length s \<and> at_front pat (drop i s)"
  by (induction s arbitrary: i) (auto split: if_splits)

lemma first_at_least: "at_front pat (drop i s) \<Longrightarrow> i \<le> length s \<Longrightarrow> \<exists>j \<le> i. first_at pat s = Some j"
proof (induction s arbitrary: i)
  case Nil
  then show ?case by (cases pat) auto
next
  case (Cons c s)
  then show ?case by (cases i) fastforce+
qed

lemma at_front_char: "at_front [c] s \<longleftrightarrow> (\<exists>t. s = c # t)"
  by (cases s) auto

lemma find_from_char:
  "i \<le> length s \<Longrightarrow> find_from s [c] (Some i) =
     (if c \<in> set (drop i s) then Some (i + length (takeWhile (\<lambda>x. x \<noteq> c) (drop i s))) else None)"
  by (simp add: find_from_def first_at_char)

lemma takeWhile_until: "c \<in> set xs \<Longrightarrow> length (takeWhile (\<lambda>x. x \<noteq> c) xs) < length xs"
  by (induction xs) auto

lemma takeWhile_upto: "k < length xs \<Longrightarrow> xs ! k = c \<Longrightarrow> length (takeWhile (\<lambda>x. x \<noteq> c) xs) \<le> k"
proof (induction xs arbitrary: k)
  case (Cons x xs)
  then show ?case by (cases k) auto
qed simp

lemma in_drop: "i \<le> q \<Longrightarrow> q < length s \<Longrightarrow> s ! q \<in> set (drop i s)"
  by (auto simp: in_set_conv_nth intro!: exI [of _ "q - i"])

lemma find_from_char_Some:
  assumes "find_from s [c] (Some i) = Some j"
  shows "i \<le> j \<and> j < length s \<and> s ! j = c"
proof -
  have i: "i \<le> length s" using assms by (auto simp: find_from_def split: if_splits)
  have c: "c \<in> set (drop i s)" and j: "j = i + length (takeWhile (\<lambda>x. x \<noteq> c) (drop i s))"
    using assms by (simp_all add: find_from_char [OF i] split: if_splits)
  show ?thesis
    using takeWhile_until [OF c] nth_length_takeWhile [OF takeWhile_until [OF c]] by (simp add: j)
qed

lemma find_from_char_first:
  assumes "find_from s [c] (Some i) = Some j" and "i \<le> q" and "q < length s" and "s ! q = c"
  shows "j \<le> q"
proof -
  have "j = i + length (takeWhile (\<lambda>x. x \<noteq> c) (drop i s))"
    using assms(1-3) by (simp add: find_from_char split: if_splits)
  moreover have "length (takeWhile (\<lambda>x. x \<noteq> c) (drop i s)) \<le> q - i"
    using assms by (intro takeWhile_upto) auto
  ultimately show ?thesis using assms(2) by simp
qed

subsection \<open>An object that is not closed\<close>

text \<open>
  Behind the last closing brace there is an opening one: every run of the loop from before it comes
  back to before it, since one past \<open>npos\<close> is the start of the text.
\<close>

definition unclosed :: "string \<Rightarrow> nat \<Rightarrow> bool" where
  "unclosed arr q \<longleftrightarrow> q < length arr \<and> arr ! q = CHR ''{'' \<and> CHR ''}'' \<notin> set (drop q arr)"

lemma unclosed_next:
  assumes "unclosed arr q" and "pos \<le> q"
  obtains start where "find_from arr ''{'' (Some pos) = Some start" "start \<le> q"
    "behind (find_from arr ''}'' (Some start)) \<le> q"
proof -
  have q: "q < length arr" "arr ! q = CHR ''{''" "CHR ''}'' \<notin> set (drop q arr)"
    using assms(1) by (simp_all add: unclosed_def)
  then have "CHR ''{'' \<in> set (drop pos arr)"
    using in_drop [OF assms(2) q(1)] by simp
  then obtain start where start: "find_from arr ''{'' (Some pos) = Some start"
    using assms(2) q(1) by (simp add: find_from_char)
  have le: "start \<le> q" using find_from_char_first [OF start assms(2) q(1,2)] .
  have "behind (find_from arr ''}'' (Some start)) \<le> q"
  proof (cases "find_from arr ''}'' (Some start)")
    case (Some e)
    from find_from_char_Some [OF this] have e: "e < length arr" "arr ! e = CHR ''}''" by simp_all
    then have "\<not> q \<le> e" using q(3) in_drop [of q e arr] by auto
    then show ?thesis using Some by (simp add: behind_def)
  qed (simp add: behind_def)
  with start le that show thesis by blast
qed

definition not_loaded :: "'a result option \<Rightarrow> bool" where
  "not_loaded r \<longleftrightarrow> r = None \<or> (\<exists>c. r = Some (Inl c))"

lemma unclosed_objects:
  fixes parse :: "string \<Rightarrow> 'a result" and store :: "'a \<Rightarrow> 's \<Rightarrow> 's result"
  assumes "objects parse store arr pos st = Some r" and "unclosed arr q" and "pos \<le> q"
  shows "\<exists>c. r = Inl c"
proof -
  have "unclosed arr q \<longrightarrow> pos \<le> q \<longrightarrow> (\<exists>c. r = Inl c)"
  proof (rule objects.raw_induct [where P = "\<lambda>parse store arr pos st r. unclosed arr q \<longrightarrow> pos \<le> q \<longrightarrow> (\<exists>c. r = Inl c)",
        OF _ assms(1)], intro impI)
    fix objs and parse :: "string \<Rightarrow> 'a result" and store :: "'a \<Rightarrow> 's \<Rightarrow> 's result" and arr pos st r
    assume IH: "\<And>parse store arr pos st r. objs parse store arr pos st = Some r \<Longrightarrow>
        unclosed arr q \<longrightarrow> pos \<le> q \<longrightarrow> (\<exists>c. r = Inl c)"
      and turn: "(case find_from arr ''{'' (Some pos) of None \<Rightarrow> Some (Inr st)
        | Some start \<Rightarrow> (let objEnd = find_from arr ''}'' (Some start) in
           case bind_result (bind_result (substr arr (Some start) (through (Some start) objEnd)) parse) (\<lambda>x. store x st) of
             Inl c \<Rightarrow> Some (Inl c)
           | Inr st' \<Rightarrow> objs parse store arr (behind objEnd) st')) = Some r"
      and open1: "unclosed arr q" and before: "pos \<le> q"
    from unclosed_next [OF open1 before] obtain start where
      start: "find_from arr ''{'' (Some pos) = Some start" "behind (find_from arr ''}'' (Some start)) \<le> q" by blast
    show "\<exists>c. r = Inl c"
    proof (cases "bind_result (bind_result (substr arr (Some start)
        (through (Some start) (find_from arr ''}'' (Some start)))) parse) (\<lambda>x. store x st)")
      case (Inl c)
      have "r = Inl c" using turn by (simp add: start(1) Let_def Inl)
      then show ?thesis by blast
    next
      case (Inr st')
      then have "objs parse store arr (behind (find_from arr ''}'' (Some start))) st' = Some r"
        using turn by (simp add: start(1) Let_def Inr)
      from IH [OF this] show ?thesis using open1 start(2) by simp
    qed
  qed
  then show ?thesis using assms(2,3) by simp
qed

lemma unclosed_array:
  assumes "array_text json from = Inr arr" and "unclosed arr q"
  shows "not_loaded (load_array parse store json from st)"
proof (cases "objects parse store arr 0 st")
  case (Some r)
  then show ?thesis using unclosed_objects [OF Some assms(2)] assms(1) by (auto simp: load_array_def not_loaded_def)
qed (simp add: load_array_def not_loaded_def assms(1))

text \<open>C29: A data file is never loaded when, in one of its arrays (the items, the drop table, the quests), the
  last opening brace has no closing brace behind it: the loop reads the objects before it again and
  again, or one of them brings the process down. (An object left open before a later closing brace is
  read together with the next one.)\<close>

theorem unclosed_never_loads:
  assumes "unclosed arr q"
  shows "(array_text json (find_from json (quoted ''items'') (Some 0)) = Inr arr \<longrightarrow> not_loaded (LoadItems (Some json) E)) \<and>
    (array_text json (find_from json (quoted ''dropTable'') (Some 0)) = Inr arr \<longrightarrow> not_loaded (LoadItems (Some json) E)) \<and>
    (array_text json (Some 0) = Inr arr \<longrightarrow> not_loaded (LoadQuests (Some json) E))"
proof (intro conjI impI)
  assume "array_text json (find_from json (quoted ''items'') (Some 0)) = Inr arr"
  from unclosed_array [OF this assms, of parse_item store_item E] show "not_loaded (LoadItems (Some json) E)"
    by (auto simp: LoadItems_def not_loaded_def)
next
  assume arr: "array_text json (find_from json (quoted ''dropTable'') (Some 0)) = Inr arr"
  moreover have "array_text json None = Inl OutOfRange" by (simp add: array_text_def find_from_def substr_def Let_def)
  ultimately have "find_from json (quoted ''dropTable'') (Some 0) \<noteq> None" by (metis Inl_Inr_False)
  then show "not_loaded (LoadItems (Some json) E)"
    using unclosed_array [OF arr assms, of parse_drop store_drop]
    by (fastforce simp: LoadItems_def not_loaded_def Let_def split: option.splits sum.splits)
next
  assume "array_text json (Some 0) = Inr arr"
  from unclosed_array [OF this assms, of parse_quest store_quest E] show "not_loaded (LoadQuests (Some json) E)"
    by (auto simp: LoadQuests_def not_loaded_def)
qed

text \<open>A server before anything is loaded.\<close>

definition no_tables :: "nat env" where
  "no_tables = sample_env\<lparr>g_items := [], g_dropTable := [], g_totalWeight := 0, g_quests := []\<rparr>"

theorem unclosed_never_loads_witness:
  "not_loaded (LoadItems (Some (quoted ''items'' @ '': [{]'')) no_tables) \<and>
   not_loaded (LoadItems (Some (quoted ''items'' @ '': [] '' @ quoted ''dropTable'' @ '': [{]'')) no_tables) \<and>
   not_loaded (LoadQuests (Some ''[{]'') no_tables)"
proof (intro conjI)
  have brace: "unclosed ''[{]'' 1" by (simp add: unclosed_def)
  have "array_text (quoted ''items'' @ '': [{]'') (find_from (quoted ''items'' @ '': [{]'') (quoted ''items'') (Some 0))
      = Inr ''[{]''" by code_simp
  with unclosed_never_loads [OF brace] show "not_loaded (LoadItems (Some (quoted ''items'' @ '': [{]'')) no_tables)" by blast
  let ?json = "quoted ''items'' @ '': [] '' @ quoted ''dropTable'' @ '': [{]''"
  have "array_text ?json (find_from ?json (quoted ''dropTable'') (Some 0)) = Inr ''[{]''" by code_simp
  with unclosed_never_loads [OF brace] show "not_loaded (LoadItems (Some ?json) no_tables)" by blast
  have "array_text ''[{]'' (Some 0) = Inr ''[{]''" by code_simp
  with unclosed_never_loads [OF brace] show "not_loaded (LoadQuests (Some ''[{]'') no_tables)" by blast
qed

end
