(* ===== verification/Json_Roundtrip.thy ===== *)
theory Json_Roundtrip
  imports Json_Loader
begin

text \<open>
  Loading what was written. A file in the layout of the repository's data files is printed from its
  tables; \<open>after_key\<close> says what stands behind a key in a text without positions, and the values, the
  objects of an array and the array behind a key are read with it. The two data files of the repository
  are such files, of the tables of \<open>sample_env\<close>.
\<close>

subsection \<open>What stands behind a key\<close>

definition letter :: "char \<Rightarrow> bool" where
  "letter c \<longleftrightarrow> c \<notin> {quote, CHR '':'', CHR '','', CHR '' '', CHR ''{'', CHR ''}'', CHR ''['', CHR '']'', CHR 0x0A}"

definition key_ok :: "string \<Rightarrow> bool" where
  "key_ok key \<longleftrightarrow> key \<noteq> [] \<and> list_all letter key"

definition after_key :: "string \<Rightarrow> string \<Rightarrow> string option" where
  "after_key key s = map_option (\<lambda>i. drop (i + length key + 2) s) (first_at (quoted key) s)"

definition int_behind :: "string \<Rightarrow> int result" where
  "int_behind t = (case first_at '':'' t of None \<Rightarrow> Inl OutOfBounds
     | Some i \<Rightarrow> Inr (atoi (dropWhile (\<lambda>c. c = CHR '':'' \<or> c = CHR '' '') (drop i t))))"

definition str_behind :: "string \<Rightarrow> string" where
  "str_behind t = (case first_at [quote] t of None \<Rightarrow> [] | Some i \<Rightarrow> takeWhile (\<lambda>c. c \<noteq> quote) (drop (i + 1) t))"

lemma at_front_append: "at_front pat s \<longleftrightarrow> (\<exists>t. s = pat @ t)"
  by (induction pat s rule: at_front.induct) auto

lemma find_after:
  assumes "first_at (quoted key) s = Some i"
  shows "i + length key + 2 \<le> length s" "drop i s = quoted key @ drop (i + length key + 2) s"
proof -
  obtain t where t: "drop i s = quoted key @ t" using first_at_found [OF assms] by (auto simp: at_front_append)
  have "drop (i + length (quoted key)) s = t" by (simp only: drop_drop [symmetric] add.commute [of i] t) simp
  then show "drop i s = quoted key @ drop (i + length key + 2) s" using t by (simp add: quoted_def)
  have "length s - i = length key + 2 + length t" using arg_cong [OF t, of length] by (simp add: quoted_def)
  then show "i + length key + 2 \<le> length s" by simp
qed

lemma first_at_char_append:
  "c \<notin> set u \<Longrightarrow> first_at [c] (u @ s) = map_option (\<lambda>j. length u + j) (first_at [c] s)"
  by (induction u) (simp_all add: first_at_char)

lemma find_from_at: "n \<le> length s \<Longrightarrow> find_from s pat (Some n) = map_option (\<lambda>j. n + j) (first_at pat (drop n s))"
  by (simp add: find_from_def)

lemma parseInt_behind:
  assumes "key_ok key"
  shows "parseInt s key = (case after_key key s of None \<Rightarrow> Inr 0 | Some t \<Rightarrow> int_behind t)"
proof (cases "first_at (quoted key) s")
  case None
  then show ?thesis by (simp add: parseInt_def find_from_def after_key_def)
next
  case (Some i)
  let ?n = "i + length key + 2"
  note at = find_after [OF Some]
  have colon: "CHR '':'' \<notin> set (quoted key)" using assms by (auto simp: key_ok_def letter_def quoted_def quote_def list_all_iff)
  have len: "length (quoted key) = length key + 2" by (simp add: quoted_def)
  have "first_at '':'' (drop i s) = map_option (\<lambda>j. length (quoted key) + j) (first_at '':'' (drop ?n s))"
    by (subst at(2)) (rule first_at_char_append [OF colon])
  then have "find_from s '':'' (Some i) = map_option (\<lambda>j. ?n + j) (first_at '':'' (drop ?n s))"
    using at(1) by (simp add: find_from_at option.map_comp comp_def len add.assoc)
  then show ?thesis
    by (cases "first_at '':'' (drop ?n s)")
      (simp_all add: parseInt_def find_from_def [of s "quoted key"] Some after_key_def int_behind_def add.commute)
qed

lemma parseStr_behind:
  "parseStr s key = Inr (case after_key key s of None \<Rightarrow> [] | Some t \<Rightarrow> str_behind t)"
proof (cases "first_at (quoted key) s")
  case None
  then show ?thesis by (simp add: parseStr_def find_from_def after_key_def)
next
  case (Some i)
  let ?n = "i + length key + 2"
  have find: "find_from s [quote] (Some ?n) = map_option (\<lambda>j. ?n + j) (first_at [quote] (drop ?n s))"
    by (rule find_from_at [OF find_after(1) [OF Some]])
  show ?thesis
  proof (cases "find_from s [quote] (Some ?n)")
    case None
    then show ?thesis using find by (simp add: parseStr_def find_from_def [of s "quoted key"] Some after_key_def str_behind_def)
  next
    case q: (Some p)
    then have "map_option (\<lambda>j. ?n + j) (first_at [quote] (drop ?n s)) = Some p" using find by (simp only:)
    then obtain j where j: "first_at [quote] (drop ?n s) = Some j" "p = ?n + j" by auto
    have p: "p < length s" using find_from_char_Some [OF q] by simp
    have "(case find_from s [quote] (Some (Suc p)) of None \<Rightarrow> drop (Suc p) s | Some e \<Rightarrow> take (e - Suc p) (drop (Suc p) s))
        = takeWhile (\<lambda>c. c \<noteq> quote) (drop (Suc p) s)"
      using p by (auto simp: find_from_char takeWhile_eq_take [symmetric]
        intro!: sym [OF takeWhile_eq_all_conv [THEN iffD2]])
    then have "parseStr s key = Inr (takeWhile (\<lambda>c. c \<noteq> quote) (drop (Suc p) s))"
      using p q by (cases "find_from s [quote] (Some (Suc p))")
        (simp_all add: parseStr_def find_from_def [of s "quoted key"] Some substr_def)
    then show ?thesis using j by (simp add: Some after_key_def str_behind_def add.commute)
  qed
qed

subsection \<open>Looking through text\<close>

text \<open>A text that a key can stand behind a quote of: it does not begin in the middle of a key.\<close>

definition soft :: "string \<Rightarrow> bool" where
  "soft s \<longleftrightarrow> (case s of [] \<Rightarrow> True | c # t \<Rightarrow> \<not> letter c)"

lemma soft_simps [simp]: "soft []" "soft (c # s) \<longleftrightarrow> \<not> letter c" "soft (quoted q @ s)"
  by (simp_all add: soft_def quoted_def letter_def)

lemma after_key_Nil [simp]: "after_key key [] = None"
  by (simp add: after_key_def quoted_def)

lemma after_key_char [simp]: "c \<noteq> quote \<Longrightarrow> after_key key (c # s) = after_key key s"
  by (simp add: after_key_def quoted_def option.map_comp comp_def)

lemma after_key_plain: "quote \<notin> set u \<Longrightarrow> after_key key (u @ s) = after_key key s"
proof (induction u)
  case (Cons c u)
  then have "c \<noteq> quote" by auto
  with Cons show ?case by simp
qed simp

lemma quote_not_digit: "quote \<notin> set (dec n)"
  using dec_digits [of n] by (auto simp: list_all_iff quote_def is_digit_def Let_def)

lemma after_key_dec [simp]: "after_key key (dec n @ s) = after_key key s"
  by (rule after_key_plain) (rule quote_not_digit)

lemma at_front_quoted:
  assumes "quote \<notin> set q" and "quote \<notin> set key"
  shows "at_front (quoted key) (quoted q @ s) \<longleftrightarrow> q = key"
  using assms
proof (induction key arbitrary: q)
  case Nil
  then show ?case by (cases q) (auto simp: quoted_def)
next
  case (Cons k key)
  then show ?case by (cases q) (auto simp: quoted_def)
qed

lemma after_key_quoted:
  assumes "key_ok key" and "quote \<notin> set q" and "soft s"
  shows "after_key key (quoted q @ s) = (if q = key then Some s else after_key key s)"
proof -
  have key: "quote \<notin> set key" "key \<noteq> []" "letter (hd key)"
    using assms(1) by (auto simp: key_ok_def letter_def list_all_iff)
  have hit: "first_at (quoted key) (quoted q @ s) = Some 0" if "q = key"
  proof -
    have "at_front (quoted key) (quoted q @ s)" using at_front_quoted [OF assms(2) key(1)] that by simp
    then show ?thesis by (simp add: quoted_def)
  qed
  have miss: "after_key key (quoted q @ s) = after_key key (quote # s)" if "q \<noteq> key"
  proof -
    have "\<not> at_front (quoted key) (quoted q @ s)" using at_front_quoted [OF assms(2) key(1)] that by simp
    then have "after_key key (quoted q @ s) = after_key key (q @ quote # s)"
      by (simp add: after_key_def quoted_def option.map_comp comp_def)
    then show ?thesis by (simp add: after_key_plain [OF assms(2)])
  qed
  have "\<not> at_front (quoted key) (quote # s)"
    using key assms(3) by (cases key; cases s) (auto simp: quoted_def)
  then have "after_key key (quote # s) = after_key key s"
    by (simp add: after_key_def option.map_comp comp_def)
  then show ?thesis using hit miss by (auto simp: after_key_def quoted_def)
qed

lemma soft_stops: "soft s \<Longrightarrow> s = c # u \<Longrightarrow> \<not> is_digit c"
  by (auto simp: letter_def is_digit_def Let_def quote_def)

lemma int_behind_number [simp]:
  assumes "n < 2 ^ 31" and "CHR 0x00 \<notin> set s" and "soft s"
  shows "int_behind (CHR '':'' # CHR '' '' # dec n @ s) = Inr (int n)"
proof -
  obtain c u where d: "dec n = c # u" by (cases "dec n") auto
  then have "is_digit c" using dec_digits [of n] by simp
  then have "\<not> (c = CHR '':'' \<or> c = CHR '' '')" by (auto simp: is_digit_def Let_def)
  then have "dropWhile (\<lambda>c. c = CHR '':'' \<or> c = CHR '' '') (dec n @ s) = dec n @ s" by (simp add: d)
  then show ?thesis using atoi_dec [OF assms(1) soft_stops [OF assms(3)] assms(2)] by (simp add: int_behind_def)
qed

lemma str_behind_text [simp]: "quote \<notin> set q \<Longrightarrow> str_behind (CHR '':'' # CHR '' '' # quoted q @ s) = q"
proof -
  assume "quote \<notin> set q"
  then have "takeWhile (\<lambda>c. c \<noteq> quote) (q @ quote # s) = q" by (subst takeWhile_append2) auto
  then show ?thesis by (simp add: str_behind_def quoted_def) (simp add: quote_def)
qed

subsection \<open>Printing\<close>

definition number :: "string \<Rightarrow> nat \<Rightarrow> string" where
  "number key n = quoted key @ '': '' @ dec n"

definition optional :: "string \<Rightarrow> nat \<Rightarrow> string" where
  "optional key n = (if n = 0 then [] else '', '' @ number key n)"

definition item_text :: "ItemData \<Rightarrow> string" where
  "item_text i = ''{'' @ number ''id'' (unat (it_id i)) @ '', '' @ quoted ''name'' @ '': '' @ quoted (it_name i) @
     '', '' @ quoted ''type'' @ '': '' @ quoted (it_type i) @ optional ''atk'' (unat (it_atk i)) @
     optional ''def'' (unat (it_def i)) @ optional ''hp'' (unat (it_hp i)) @ '', '' @
     number ''price'' (unat (it_price i)) @ ''}''"

definition drop_text :: "DropEntry \<Rightarrow> string" where
  "drop_text d = ''{'' @ number ''itemId'' (unat (de_itemId d)) @ '', '' @ number ''weight'' (nat (de_weight d)) @ ''}''"

definition quest_line :: "string \<Rightarrow> string" where
  "quest_line s = CHR 0x0A # ''      '' @ s"

definition quest_text :: "QuestData \<Rightarrow> string" where
  "quest_text q = ''{'' @ quest_line (number ''id'' (unat (qd_id q))) @ '','' @
     quest_line (quoted ''name'' @ '': '' @ quoted (qd_name q)) @ '','' @
     quest_line (quoted ''type'' @ '': '' @ quoted ''kill'') @ '','' @
     quest_line (number ''target'' (unat (qd_target q))) @ '','' @
     quest_line (number ''rewardGold'' (unat (qd_rewardGold q))) @ '','' @
     quest_line (number ''rewardExp'' (unat (qd_rewardExp q))) @ '','' @
     quest_line (number ''rewardItemId'' (unat (qd_rewardItemId q))) @ CHR 0x0A # ''    }''"

definition reserved :: "string list" where
  "reserved = [''name'', ''type'', ''atk'', ''def'', ''hp'', ''price'', ''dropTable'', ''target'', ''rewardGold'',
     ''rewardExp'', ''rewardItemId'']"

text \<open>Texts that stand for themselves: no quote, no closing bracket, and not one of the keys.\<close>

definition text_ok :: "string \<Rightarrow> bool" where
  "text_ok s \<longleftrightarrow> list_all (\<lambda>c. c \<notin> {quote, CHR ''}'', CHR '']'', CHR 0x00}) s \<and> s \<notin> set reserved"

definition item_ok :: "ItemData \<Rightarrow> bool" where
  "item_ok i \<longleftrightarrow> text_ok (it_name i) \<and> text_ok (it_type i) \<and> unat (it_price i) < 2 ^ 31"

definition drop_ok :: "DropEntry \<Rightarrow> bool" where
  "drop_ok d \<longleftrightarrow> 0 \<le> de_weight d \<and> de_weight d < 2 ^ 31"

definition quest_ok :: "QuestData \<Rightarrow> bool" where
  "quest_ok q \<longleftrightarrow> text_ok (qd_name q) \<and> unat (qd_rewardGold q) < 2 ^ 31 \<and> unat (qd_rewardExp q) < 2 ^ 31"

subsection \<open>Parsing what was printed\<close>

lemma set_number: "set (number key n) = set (quoted key) \<union> {CHR '':'', CHR '' ''} \<union> set (dec n)"
  by (auto simp: number_def)

lemma set_quoted: "set (quoted key) = insert quote (set key)"
  by (auto simp: quoted_def)

lemma soft_optional [simp]: "soft s \<Longrightarrow> soft (optional key n @ s)"
  by (simp add: optional_def letter_def)

lemma soft_dec [simp]: "soft (CHR '':'' # s)" "soft (CHR '','' # s)" "soft (CHR ''}'' # s)" "soft (CHR 0x0A # s)"
  by (simp_all add: letter_def)

lemma nul_free [simp]:
  "CHR 0x00 \<notin> set (dec n)" "CHR 0x00 \<notin> set (quoted key) \<longleftrightarrow> CHR 0x00 \<notin> set key"
  "CHR 0x00 \<notin> set (number key n) \<longleftrightarrow> CHR 0x00 \<notin> set key" "CHR 0x00 \<notin> set key \<Longrightarrow> CHR 0x00 \<notin> set (optional key n)"
  using dec_not_nul by (auto simp: optional_def set_number set_quoted quote_def)

lemma after_number:
  assumes "key_ok key" and "quote \<notin> set k"
  shows "after_key key (number k n @ s) = (if k = key then Some ('': '' @ dec n @ s) else after_key key s)"
  using after_key_quoted [OF assms, of "'': '' @ dec n @ s"]
  by (simp add: number_def letter_def quote_def)

lemma after_optional:
  assumes "key_ok key" and "quote \<notin> set k"
  shows "after_key key (optional k n @ s) =
    (if k = key \<and> n \<noteq> 0 then Some ('': '' @ dec n @ s) else after_key key s)"
proof -
  have "after_key key (optional k n @ s) = (if n = 0 then after_key key s else after_key key (number k n @ s))"
    by (simp add: optional_def quote_def)
  then show ?thesis unfolding after_number [OF assms] by simp
qed

lemma keys_ok [simp]:
  "key_ok ''id''" "key_ok ''name''" "key_ok ''type''" "key_ok ''atk''" "key_ok ''def''" "key_ok ''hp''" "key_ok ''price''"
  "key_ok ''itemId''" "key_ok ''weight''" "key_ok ''target''" "key_ok ''rewardGold''" "key_ok ''rewardExp''"
  "key_ok ''rewardItemId''" "key_ok ''items''" "key_ok ''dropTable''"
  by (simp_all add: key_ok_def letter_def quote_def)

lemma text_okD:
  assumes "text_ok s"
  shows "quote \<notin> set s" "CHR 0x00 \<notin> set s" "s \<noteq> ''name''" "s \<noteq> ''type''" "s \<noteq> ''atk''" "s \<noteq> ''def''" "s \<noteq> ''hp''"
    "s \<noteq> ''price''" "s \<noteq> ''dropTable''" "s \<noteq> ''target''" "s \<noteq> ''rewardGold''" "s \<noteq> ''rewardExp''" "s \<noteq> ''rewardItemId''"
    "CHR ''}'' \<notin> set s" "CHR '']'' \<notin> set s"
  using assms by (auto simp: text_ok_def reserved_def list_all_iff)

lemma unat_16: "unat (x :: u16) < 2147483648"
proof -
  have "unat x < 2 ^ LENGTH(16)" by (rule unsigned_less)
  then show ?thesis by simp
qed

lemmas looking = parseInt_behind parseStr_behind after_key_quoted after_number after_optional text_okD
  text_okD(1) [unfolded quote_def] unat_16

lemma parse_item_text: "item_ok i \<Longrightarrow> parse_item (item_text i) = Inr i"
proof -
  assume "item_ok i"
  then have ok: "text_ok (it_name i)" "text_ok (it_type i)" "unat (it_price i) < 2147483648" by (simp_all add: item_ok_def)
  have "parseInt (item_text i) ''id'' = Inr (uint (it_id i))"
    "parseStr (item_text i) ''name'' = Inr (it_name i)"
    "parseStr (item_text i) ''type'' = Inr (it_type i)"
    "parseInt (item_text i) ''atk'' = Inr (uint (it_atk i))"
    "parseInt (item_text i) ''def'' = Inr (uint (it_def i))"
    "parseInt (item_text i) ''hp'' = Inr (uint (it_hp i))"
    "parseInt (item_text i) ''price'' = Inr (uint (it_price i))"
    using ok by (simp_all add: item_text_def looking quote_def letter_def unat_eq_zero)
  then show ?thesis by (simp add: parse_item_def)
qed

lemma parse_drop_text: "drop_ok d \<Longrightarrow> parse_drop (drop_text d) = Inr d"
proof -
  assume "drop_ok d"
  then have ok: "0 \<le> de_weight d" "nat (de_weight d) < 2147483648" by (auto simp: drop_ok_def nat_less_iff)
  have "parseInt (drop_text d) ''itemId'' = Inr (uint (de_itemId d))"
    "parseInt (drop_text d) ''weight'' = Inr (de_weight d)"
    using ok by (simp_all add: drop_text_def looking quote_def letter_def)
  then show ?thesis by (simp add: parse_drop_def)
qed

lemma parse_quest_text: "quest_ok q \<Longrightarrow> parse_quest (quest_text q) = Inr q"
proof -
  assume "quest_ok q"
  then have ok: "text_ok (qd_name q)" "unat (qd_rewardGold q) < 2147483648" "unat (qd_rewardExp q) < 2147483648"
    by (simp_all add: quest_ok_def)
  have "parseInt (quest_text q) ''id'' = Inr (uint (qd_id q))"
    "parseStr (quest_text q) ''name'' = Inr (qd_name q)"
    "parseInt (quest_text q) ''target'' = Inr (uint (qd_target q))"
    "parseInt (quest_text q) ''rewardGold'' = Inr (uint (qd_rewardGold q))"
    "parseInt (quest_text q) ''rewardExp'' = Inr (uint (qd_rewardExp q))"
    "parseInt (quest_text q) ''rewardItemId'' = Inr (uint (qd_rewardItemId q))"
    using ok by (simp_all add: quest_text_def quest_line_def looking quote_def letter_def)
  then show ?thesis by (simp add: parse_quest_def)
qed

subsection \<open>The objects of a text\<close>

text \<open>One turn of the loop: a text without an opening brace, then an object, whose only closing brace is its last character.\<close>

lemma find_from_prefix: "find_from (p @ s) pat (Some (length p)) = map_option (\<lambda>j. length p + j) (first_at pat s)"
  by (simp add: find_from_def)

lemma objects_end: "CHR ''{'' \<notin> set s \<Longrightarrow> objects parse store (p @ s) (length p) st = Some (Inr st)"
  by (subst objects.simps) (simp add: find_from_prefix first_at_char)

lemma objects_turn:
  assumes "CHR ''{'' \<notin> set g" and obj: "obj = CHR ''{'' # body @ ''}''" and "CHR ''}'' \<notin> set body" and "parse obj = Inr x"
  shows "objects parse store (p @ g @ obj @ s) (length p) st = (case store x st of Inl c \<Rightarrow> Some (Inl c)
    | Inr st' \<Rightarrow> objects parse store ((p @ g @ obj) @ s) (length (p @ g @ obj)) st')"
proof -
  let ?arr = "p @ g @ obj @ s"
  have start: "find_from ?arr ''{'' (Some (length p)) = Some (length p + length g)"
    using assms(1) by (simp add: find_from_prefix first_at_char_append obj)
  have "find_from ((p @ g) @ obj @ s) ''}'' (Some (length (p @ g))) = Some (length (p @ g) + (length obj - 1))"
    using assms(3) by (simp only: find_from_prefix) (simp add: obj first_at_char_append)
  then have close: "find_from ?arr ''}'' (Some (length p + length g)) = Some (length p + length g + (length obj - 1))"
    by simp
  have len: "length obj = Suc (Suc (length body))" by (simp add: obj)
  have "substr ?arr (Some (length p + length g)) (through (Some (length p + length g)) (Some (length p + length g + (length obj - 1))))
      = Inr obj"
    by (simp add: substr_def through_def len obj)
  then show ?thesis
    by (subst objects.simps) (simp add: start close assms(4) behind_def len add.assoc split: sum.split)
qed

text \<open>Closed objects, each behind its gap.\<close>

definition chunk :: "(string \<Rightarrow> 'a result) \<Rightarrow> string \<times> string \<Rightarrow> 'a \<Rightarrow> bool" where
  "chunk parse go x \<longleftrightarrow> (case go of (gap, obj) \<Rightarrow> CHR ''{'' \<notin> set gap \<and> CHR '']'' \<notin> set gap \<and> CHR '']'' \<notin> set obj \<and>
     parse obj = Inr x \<and> (\<exists>body. obj = CHR ''{'' # body @ ''}'' \<and> CHR ''}'' \<notin> set body))"

definition glued :: "(string \<times> string) list \<Rightarrow> string" where
  "glued gos = concat (map (\<lambda>(gap, obj). gap @ obj) gos)"

lemma objects_glued:
  assumes "list_all2 (chunk parse) gos xs" and "CHR ''{'' \<notin> set s"
  shows "objects parse store (p @ glued gos @ s) (length p) st = Some (fold_result store xs st)"
  using assms(1)
proof (induction gos xs arbitrary: p st rule: list_all2_induct)
  case Nil
  then show ?case using objects_end [OF assms(2)] by (simp add: glued_def)
next
  case (Cons go gos x xs)
  obtain gap obj where go: "go = (gap, obj)" by (cases go)
  then obtain body where obj: "CHR ''{'' \<notin> set gap" "obj = CHR ''{'' # body @ ''}''" "CHR ''}'' \<notin> set body" "parse obj = Inr x"
    using Cons.hyps by (auto simp: chunk_def)
  have "p @ glued (go # gos) @ s = p @ gap @ obj @ (glued gos @ s)" by (simp add: glued_def go)
  then show ?case
    using objects_turn [where g = gap and obj = obj and body = body and p = p and s = "glued gos @ s" and x = x
        and parse = parse and store = store and st = st, OF obj] Cons.IH [of "p @ gap @ obj"]
    by (simp split: sum.split)
qed

lemma glued_no_bracket: "list_all2 (chunk parse) gos xs \<Longrightarrow> CHR '']'' \<notin> set (glued gos)"
  by (induction gos xs rule: list_all2_induct) (auto simp: chunk_def glued_def)

text \<open>The array in a file: from the first opening bracket to the first closing one.\<close>

lemma array_text_between:
  assumes "i \<le> length a" and "CHR ''['' \<notin> set (drop i a)" and "CHR '']'' \<notin> set inner"
  shows "array_text (a @ CHR ''['' # inner @ CHR '']'' # b) (Some i) = Inr (CHR ''['' # inner @ '']'')"
proof -
  let ?json = "a @ CHR ''['' # inner @ CHR '']'' # b"
  have "drop i ?json = drop i a @ CHR ''['' # inner @ CHR '']'' # b" using assms(1) by simp
  then have start: "find_from ?json ''['' (Some i) = Some (length a)"
    using assms(1,2) by (simp add: find_from_def first_at_char_append)
  have stop: "find_from ?json '']'' (Some (length a)) = Some (length a + Suc (length inner))"
    using assms(3) by (simp add: find_from_prefix first_at_char_append)
  show ?thesis by (simp add: array_text_def start stop substr_def through_def)
qed

lemma load_array_glued:
  assumes "i \<le> length a" and "CHR ''['' \<notin> set (drop i a)"
    and "CHR ''{'' \<notin> set rest" and "CHR '']'' \<notin> set rest" and gos: "list_all2 (chunk parse) gos xs"
  shows "load_array parse store (a @ CHR ''['' # (glued gos @ rest) @ CHR '']'' # b) (Some i) st = Some (fold_result store xs st)"
proof -
  have arr: "array_text (a @ CHR ''['' # (glued gos @ rest) @ CHR '']'' # b) (Some i) = Inr (CHR ''['' # (glued gos @ rest) @ '']'')"
    by (rule array_text_between [OF assms(1,2)]) (use assms(4) glued_no_bracket [OF gos] in simp)
  have "objects parse store (CHR ''['' # (glued gos @ rest) @ '']'') 0 st = Some (fold_result store xs st)"
  proof (cases gos)
    case Nil
    then show ?thesis using gos assms(3) objects_end [of "CHR ''['' # rest @ '']''" parse store "[]" st] by (simp add: glued_def)
  next
    case (Cons go gos')
    obtain gap obj where go: "go = (gap, obj)" by (cases go)
    then have more: "list_all2 (chunk parse) ((CHR ''['' # gap, obj) # gos') xs"
      using gos Cons by (cases xs) (auto simp: chunk_def)
    have joins: "glued ((CHR ''['' # gap, obj) # gos') = CHR ''['' # glued gos" by (simp add: glued_def Cons go)
    show ?thesis using objects_glued [OF more, of "rest @ '']''" store "[]" st] assms(3) by (simp add: joins)
  qed
  with arr show ?thesis by (simp add: load_array_def)
qed

subsection \<open>The files\<close>

text \<open>The first object stands behind one gap, the others behind another.\<close>

fun spaced :: "string \<Rightarrow> string \<Rightarrow> string list \<Rightarrow> (string \<times> string) list" where
  "spaced first1 gap [] = []"
| "spaced first1 gap (obj # objs) = (first1, obj) # map (Pair gap) objs"

definition newline :: string where
  "newline = [CHR 0x0A]"

definition array_of :: "string list \<Rightarrow> string" where
  "array_of objs = ''['' @ (glued (spaced (newline @ ''    '') ('','' @ newline @ ''    '') objs) @ newline @ ''  '') @ '']''"

definition items_file :: "ItemData list \<Rightarrow> DropEntry list \<Rightarrow> string" where
  "items_file items drops = ''{'' @ newline @ ''  '' @ quoted ''items'' @ '': '' @ array_of (map item_text items) @ '','' @ newline @
     ''  '' @ quoted ''dropTable'' @ '': '' @ array_of (map drop_text drops) @ newline @ ''}'' @ newline"

definition quests_file :: "QuestData list \<Rightarrow> string" where
  "quests_file quests = ''{'' @ newline @ ''  '' @ quoted ''quests'' @ '': '' @ array_of (map quest_text quests) @ newline @ ''}'' @ newline"

definition gap_ok :: "string \<Rightarrow> bool" where
  "gap_ok gap \<longleftrightarrow> quote \<notin> set gap \<and> CHR ''{'' \<notin> set gap \<and> CHR '']'' \<notin> set gap"

lemma chunks_spaced:
  assumes "gap_ok g" and "gap_ok gap" and "\<And>x h. x \<in> set xs \<Longrightarrow> gap_ok h \<Longrightarrow> chunk parse (h, print x) x"
  shows "list_all2 (chunk parse) (spaced g gap (map print xs)) xs"
  using assms by (cases xs) (simp_all add: list.rel_map list_all2_same)

lemma after_glued:
  assumes "gap_ok g" and "gap_ok gap" and "\<And>obj s. obj \<in> set objs \<Longrightarrow> after_key key (obj @ s) = after_key key s"
  shows "after_key key (glued (spaced g gap objs) @ s) = after_key key s"
proof -
  have gaps: "quote \<notin> set g" "quote \<notin> set gap" using assms(1,2) by (simp_all add: gap_ok_def)
  have "after_key key (glued (map (Pair gap) os) @ s) = after_key key s" if "set os \<subseteq> set objs" for os
    using that by (induction os) (simp_all add: glued_def after_key_plain [OF gaps(2)] assms(3))
  then show ?thesis
    by (cases objs) (auto simp: glued_def after_key_plain [OF gaps(1)] assms(3))
qed

lemma bracket_free:
  "CHR ''}'' \<notin> set (dec n)" "CHR '']'' \<notin> set (dec n)"
  using dec_digits [of n] by (auto simp: list_all_iff is_digit_def Let_def)

lemma chunk_item: "item_ok i \<Longrightarrow> gap_ok gap \<Longrightarrow> chunk parse_item (gap, item_text i) i"
proof -
  assume ok: "item_ok i" and gap: "gap_ok gap"
  have "text_ok (it_name i)" "text_ok (it_type i)" using ok by (simp_all add: item_ok_def)
  then have "CHR '']'' \<notin> set (item_text i)" "\<exists>body. item_text i = CHR ''{'' # body @ ''}'' \<and> CHR ''}'' \<notin> set body"
    by (auto simp: item_text_def set_number set_quoted quote_def optional_def bracket_free text_okD)
  then show ?thesis using parse_item_text [OF ok] gap by (simp add: chunk_def gap_ok_def)
qed

lemma chunk_drop: "drop_ok d \<Longrightarrow> gap_ok gap \<Longrightarrow> chunk parse_drop (gap, drop_text d) d"
proof -
  assume ok: "drop_ok d" and gap: "gap_ok gap"
  have "CHR '']'' \<notin> set (drop_text d)" "\<exists>body. drop_text d = CHR ''{'' # body @ ''}'' \<and> CHR ''}'' \<notin> set body"
    by (auto simp: drop_text_def set_number set_quoted quote_def bracket_free)
  then show ?thesis using parse_drop_text [OF ok] gap by (simp add: chunk_def gap_ok_def)
qed

lemma chunk_quest: "quest_ok q \<Longrightarrow> gap_ok gap \<Longrightarrow> chunk parse_quest (gap, quest_text q) q"
proof -
  assume ok: "quest_ok q" and gap: "gap_ok gap"
  have "text_ok (qd_name q)" using ok by (simp add: quest_ok_def)
  then have no: "CHR '']'' \<notin> set (quest_text q)"
    by (auto simp: quest_text_def quest_line_def set_number set_quoted quote_def bracket_free text_okD)
  have "\<exists>body. quest_text q = (CHR ''{'' # body) @ ''}'' \<and> CHR ''}'' \<notin> set body"
    using \<open>text_ok (qd_name q)\<close>
    by (intro exI [of _ "butlast (tl (quest_text q))"])
      (auto simp: quest_text_def quest_line_def set_number set_quoted quote_def bracket_free text_okD butlast_append)
  then show ?thesis using parse_quest_text [OF ok] gap no by (simp add: chunk_def gap_ok_def)
qed

lemma after_item: "item_ok i \<Longrightarrow> after_key ''dropTable'' (item_text i @ s) = after_key ''dropTable'' s"
  by (simp add: item_ok_def item_text_def looking quote_def letter_def)

text \<open>Loading the array behind a key.\<close>

lemma load_behind:
  assumes "key_ok key" and after: "after_key key json = Some (u @ CHR ''['' # (glued gos @ rest) @ CHR '']'' # b)"
    and "CHR ''['' \<notin> set u" and "CHR ''{'' \<notin> set rest" and "CHR '']'' \<notin> set rest" and gos: "list_all2 (chunk parse) gos xs"
  shows "load_array parse store json (find_from json (quoted key) (Some 0)) st = Some (fold_result store xs st)"
    and "find_from json (quoted key) (Some 0) \<noteq> None"
proof -
  obtain i where i: "first_at (quoted key) json = Some i" "drop (i + length key + 2) json = u @ CHR ''['' # (glued gos @ rest) @ CHR '']'' # b"
    using after by (auto simp: after_key_def)
  let ?a = "take i json @ quoted key @ u"
  have "json = take i json @ drop i json" by simp
  also have "\<dots> = ?a @ CHR ''['' # (glued gos @ rest) @ CHR '']'' # b" using find_after(2) [OF i(1)] i(2) by simp
  finally have json: "json = ?a @ CHR ''['' # (glued gos @ rest) @ CHR '']'' # b" .
  have len: "length (take i json) = i" using find_after(1) [OF i(1)] by simp
  have "CHR ''['' \<notin> set (quoted key)" using assms(1) by (auto simp: key_ok_def letter_def set_quoted quote_def list_all_iff)
  then have "CHR ''['' \<notin> set (drop i ?a)" using assms(3) len by simp
  from load_array_glued [OF _ this assms(4,5) gos, of store b st] len
  have "load_array parse store json (Some i) st = Some (fold_result store xs st)" using json by simp
  then show "load_array parse store json (find_from json (quoted key) (Some 0)) st = Some (fold_result store xs st)"
    "find_from json (quoted key) (Some 0) \<noteq> None"
    using i(1) by (simp_all add: find_from_def)
qed

lemma gaps_ok [simp]: "gap_ok (newline @ ''    '')" "gap_ok (CHR '','' # newline @ ''    '')"
  by (simp_all add: gap_ok_def newline_def quote_def)

lemma newline_free [simp]:
  "quote \<notin> set newline" "CHR ''{'' \<notin> set newline" "CHR '']'' \<notin> set newline" "CHR ''['' \<notin> set newline"
  by (simp_all add: newline_def quote_def)

lemma after_newline [simp]: "after_key key (newline @ s) = after_key key s"
  by (rule after_key_plain) simp

text \<open>What is stored: the items one behind the other, and the drops with their total.\<close>

lemma store_items: "fold_result store_item items E = Inr (E\<lparr>g_items := g_items E @ items\<rparr>)"
  by (induction items arbitrary: E) (simp_all add: store_item_def)

lemma store_quests: "fold_result store_quest quests E = Inr (E\<lparr>g_quests := g_quests E @ quests\<rparr>)"
  by (induction quests arbitrary: E) (simp_all add: store_quest_def)

lemma store_drops:
  assumes "list_all drop_ok drops" and "0 \<le> g_totalWeight E" and "g_totalWeight E + total_weight drops < 2147483648"
  shows "fold_result store_drop drops E = Inr (E\<lparr>g_dropTable := g_dropTable E @ drops,
     g_totalWeight := g_totalWeight E + total_weight drops\<rparr>)"
  using assms
proof (induction drops arbitrary: E)
  case (Cons d drops)
  have "0 \<le> total_weight drops" using Cons.prems(1) by (induction drops) (auto simp: total_weight_def drop_ok_def)
  then show ?case using Cons by (simp add: store_drop_def fits_int_def drop_ok_def total_weight_def add.assoc)
qed (simp add: total_weight_def)

lemma load_items_file:
  assumes "list_all item_ok items" and "list_all drop_ok drops"
    and "0 \<le> g_totalWeight E" and "g_totalWeight E + total_weight drops < 2147483648"
  shows "LoadItems (Some (items_file items drops)) E = Some (Inr (g_items E @ items \<noteq> [],
     E\<lparr>g_items := g_items E @ items, g_dropTable := g_dropTable E @ drops,
       g_totalWeight := g_totalWeight E + total_weight drops\<rparr>))"
proof -
  let ?json = "items_file items drops"
  let ?gap = "CHR '','' # newline @ ''    ''"
  let ?i = "spaced (newline @ ''    '') ?gap (map item_text items)"
  let ?d = "spaced (newline @ ''    '') ?gap (map drop_text drops)"
  have after: "after_key ''items'' ?json = Some ('': '' @ CHR ''['' # (glued ?i @ (newline @ ''  '')) @ CHR '']'' # (CHR '','' # newline @
      ''  '' @ quoted ''dropTable'' @ '': '' @ array_of (map drop_text drops) @ newline @ ''}'' @ newline))"
    by (simp add: items_file_def array_of_def after_key_quoted letter_def quote_def)
  have chunks: "list_all2 (chunk parse_item) ?i items"
    by (rule chunks_spaced) (use assms(1) chunk_item in \<open>simp_all add: list_all_iff\<close>)
  have items: "load_array parse_item store_item ?json (find_from ?json (quoted ''items'') (Some 0)) E =
      Some (fold_result store_item items E)"
    by (rule load_behind(1) [OF _ after _ _ _ chunks]) simp_all
  have "after_key ''dropTable'' (glued ?i @ s) = after_key ''dropTable'' s" for s
    using assms(1) by (intro after_glued) (auto simp: list_all_iff after_item)
  then have after2: "after_key ''dropTable'' ?json = Some ('': '' @ CHR ''['' # (glued ?d @ (newline @ ''  '')) @ CHR '']'' # (newline @ ''}'' @ newline))"
    by (simp add: items_file_def array_of_def after_key_quoted letter_def quote_def)
  have chunks2: "list_all2 (chunk parse_drop) ?d drops"
    by (rule chunks_spaced) (use assms(2) chunk_drop in \<open>simp_all add: list_all_iff\<close>)
  have "load_array parse_drop store_drop ?json (find_from ?json (quoted ''dropTable'') (Some 0)) F =
      Some (fold_result store_drop drops F)" "find_from ?json (quoted ''dropTable'') (Some 0) \<noteq> None" for F :: "'a env"
    by (rule load_behind [OF _ after2 _ _ _ chunks2]; simp)+
  with items show ?thesis
    using store_drops [OF assms(2), of "E\<lparr>g_items := g_items E @ items\<rparr>"] assms(3,4)
    by (auto simp: LoadItems_def Let_def store_items)
qed

lemma load_quests_file:
  assumes "list_all quest_ok quests"
  shows "LoadQuests (Some (quests_file quests)) E = Some (Inr (g_quests E @ quests \<noteq> [], E\<lparr>g_quests := g_quests E @ quests\<rparr>))"
proof -
  let ?gap = "CHR '','' # newline @ ''    ''"
  let ?q = "spaced (newline @ ''    '') ?gap (map quest_text quests)"
  let ?a = "''{'' @ newline @ ''  '' @ quoted ''quests'' @ '': ''"
  have json: "quests_file quests = ?a @ CHR ''['' # (glued ?q @ (newline @ ''  '')) @ CHR '']'' # (newline @ ''}'' @ newline)"
    by (simp add: quests_file_def array_of_def)
  have "list_all2 (chunk parse_quest) ?q quests"
    by (rule chunks_spaced) (use assms chunk_quest in \<open>simp_all add: list_all_iff\<close>)
  then have "load_array parse_quest store_quest (quests_file quests) (Some 0) E = Some (fold_result store_quest quests E)"
    unfolding json by (intro load_array_glued) (simp_all add: set_quoted quote_def)
  then show ?thesis by (simp add: LoadQuests_def store_quests)
qed

subsection \<open>The data files\<close>

definition text_lines :: "string list \<Rightarrow> string" where
  "text_lines ls = concat (map (\<lambda>l. l @ newline) ls)"

definition items_json :: string where
  \<open>items_json = text_lines [
     ''{'',
     ''  "items": ['',
     ''    {"id": 1, "name": "Rusty Sword", "type": "weapon", "atk": 5, "price": 50},'',
     ''    {"id": 2, "name": "Steel Sword", "type": "weapon", "atk": 12, "price": 200},'',
     ''    {"id": 3, "name": "Leather Armor", "type": "armor", "def": 5, "price": 80},'',
     ''    {"id": 4, "name": "Iron Armor", "type": "armor", "def": 10, "price": 300},'',
     ''    {"id": 5, "name": "HP Potion", "type": "consumable", "hp": 50, "price": 30}'',
     ''  ],'',
     ''  "dropTable": ['',
     ''    {"itemId": 1, "weight": 20},'',
     ''    {"itemId": 3, "weight": 20},'',
     ''    {"itemId": 5, "weight": 40}'',
     ''  ]'',
     ''}'']\<close>

definition quests_json :: string where
  \<open>quests_json = text_lines [
     ''{'',
     ''  "quests": ['',
     ''    {'',
     ''      "id": 1,'',
     ''      "name": "Goblin Slayer",'',
     ''      "type": "kill",'',
     ''      "target": 3,'',
     ''      "rewardGold": 100,'',
     ''      "rewardExp": 50,'',
     ''      "rewardItemId": 0'',
     ''    },'',
     ''    {'',
     ''      "id": 2,'',
     ''      "name": "Monster Hunter",'',
     ''      "type": "kill",'',
     ''      "target": 5,'',
     ''      "rewardGold": 200,'',
     ''      "rewardExp": 100,'',
     ''      "rewardItemId": 5'',
     ''    },'',
     ''    {'',
     ''      "id": 3,'',
     ''      "name": "Champion",'',
     ''      "type": "kill",'',
     ''      "target": 10,'',
     ''      "rewardGold": 500,'',
     ''      "rewardExp": 300,'',
     ''      "rewardItemId": 2'',
     ''    }'',
     ''  ]'',
     ''}'']\<close>

lemma items_json_text: "items_json = items_file (g_items sample_env) (g_dropTable sample_env)"
  by code_simp

lemma quests_json_text: "quests_json = quests_file (g_quests sample_env)"
  by code_simp

lemma sample_tables_ok:
  "list_all item_ok (g_items sample_env)" "list_all drop_ok (g_dropTable sample_env)" "list_all quest_ok (g_quests sample_env)"
  by (simp_all add: sample_env_def sample_item_def sample_quest_def item_ok_def drop_ok_def quest_ok_def text_ok_def
      reserved_def quote_def)

text \<open>C14: The loaders read back what was written: the files of any items, drops and quests in the layout of the
  repository's data files load to exactly these tables, and the total weight is the sum of the
  weights, provided that the texts hold no NUL, quote or closing bracket or brace and are none of the
  format's keys, that prices, gold and experience rewards and weights are below 2^31 and no weight is
  negative (the reader's \<open>atoi\<close> gives an \<open>int\<close>), and that the sum of all weights is below 2^31 (it is
  kept in an \<open>int\<close>).\<close>

theorem files_roundtrip:
  assumes "list_all item_ok items" and "list_all drop_ok drops" and "list_all quest_ok quests"
    and "0 \<le> g_totalWeight E" and "g_totalWeight E + total_weight drops < 2 ^ 31"
  shows "LoadItems (Some (items_file items drops)) E = Some (Inr (g_items E @ items \<noteq> [],
     E\<lparr>g_items := g_items E @ items, g_dropTable := g_dropTable E @ drops,
       g_totalWeight := g_totalWeight E + total_weight drops\<rparr>)) \<and>
   LoadQuests (Some (quests_file quests)) E = Some (Inr (g_quests E @ quests \<noteq> [], E\<lparr>g_quests := g_quests E @ quests\<rparr>))"
  using load_items_file [OF assms(1,2,4)] load_quests_file [OF assms(3)] assms(5) by simp

theorem files_roundtrip_witness:
  "LoadQuests (Some quests_json) no_tables = Some (Inr (True, no_tables\<lparr>g_quests := g_quests sample_env\<rparr>)) \<and>
   map_option (map_sum (\<lambda>c. c) (\<lambda>(ok, E). (ok, g_items E = g_items sample_env, g_totalWeight E))) (LoadItems (Some items_json) no_tables) =
     Some (Inr (True, True, 80))"
  using files_roundtrip [OF sample_tables_ok, of no_tables]
  by (simp add: quests_json_text items_json_text no_tables_def sample_env_def total_weight_def)

end
