(* ===== verification/DB_Connection.thy ===== *)
theory DB_Connection
  imports Decimal
begin

text \<open>
  \<open>GameServer/DBConnection.cpp\<close>: the connection to the database, with its handles, the loop that
  executes a call again after a failover, and reconnecting. The functions of the ODBC driver are not
  part of the repository: they are the fields of a record \<open>odbc\<close> over any state of the driver, which
  also holds what the callbacks of a call read and write. What the calls need of a driver is named
  where it is needed: \<open>documented_handles\<close>, how handles are allocated, connected, disconnected and freed, and
  \<open>diagnoses\<close>, that the diagnostic records of a handle come to an end.
\<close>

subsection \<open>The driver\<close>

type_synonym SQLHANDLE = u64

definition SQL_NULL_HANDLE :: SQLHANDLE where
  "SQL_NULL_HANDLE = 0"

datatype handle_type = SQL_HANDLE_ENV | SQL_HANDLE_DBC | SQL_HANDLE_STMT

text \<open>The code tells two return codes from the rest.\<close>

datatype SQLRETURN = SQL_SUCCESS | SQL_SUCCESS_WITH_INFO | SQL_OTHER i16

record 'o odbc =
  SQLAllocHandle :: "handle_type \<Rightarrow> SQLHANDLE \<Rightarrow> 'o \<Rightarrow> SQLRETURN \<times> SQLHANDLE \<times> 'o"
  SQLFreeHandle :: "handle_type \<Rightarrow> SQLHANDLE \<Rightarrow> 'o \<Rightarrow> 'o"
  SQLSetEnvAttr :: "SQLHANDLE \<Rightarrow> 'o \<Rightarrow> 'o"
  SQLDriverConnectA :: "SQLHANDLE \<Rightarrow> string \<Rightarrow> 'o \<Rightarrow> SQLRETURN \<times> 'o"
  SQLDisconnect :: "SQLHANDLE \<Rightarrow> 'o \<Rightarrow> 'o"
  SQLSetStmtAttr :: "SQLHANDLE \<Rightarrow> 'o \<Rightarrow> 'o"
  SQLGetDiagRecW :: "handle_type \<Rightarrow> SQLHANDLE \<Rightarrow> i16 \<Rightarrow> 'o \<Rightarrow> SQLRETURN \<times> string \<times> i32"
  SQLExecDirectA :: "SQLHANDLE \<Rightarrow> string \<Rightarrow> 'o \<Rightarrow> 'o"
  SQLExecDirectW :: "SQLHANDLE \<Rightarrow> u16 list \<Rightarrow> 'o \<Rightarrow> SQLRETURN \<times> 'o"
  SQLCloseCursor :: "SQLHANDLE \<Rightarrow> 'o \<Rightarrow> 'o"
  SQLFreeStmt :: "SQLHANDLE \<Rightarrow> 'o \<Rightarrow> 'o"

fun succeeded :: "SQLRETURN \<Rightarrow> bool" where
  "succeeded SQL_SUCCESS = True"
| "succeeded SQL_SUCCESS_WITH_INFO = True"
| "succeeded (SQL_OTHER n) = False"

subsection \<open>The connection\<close>

record 'o DBConnection =
  d_hEnv :: SQLHANDLE
  d_hDbc :: SQLHANDLE
  d_hStmt :: SQLHANDLE
  d_endpoint :: string
  d_database :: string
  d_uid :: string
  d_pwd :: string
  d_connected :: bool
  d_driver :: 'o

definition new_DBConnection :: "'o \<Rightarrow> 'o DBConnection" where
  "new_DBConnection o1 = \<lparr>d_hEnv = SQL_NULL_HANDLE, d_hDbc = SQL_NULL_HANDLE, d_hStmt = SQL_NULL_HANDLE,
     d_endpoint = [], d_database = [], d_uid = [], d_pwd = [], d_connected = False, d_driver = o1\<rparr>"

definition MAX_RETRIES :: nat where
  "MAX_RETRIES = 5"

text \<open>\<open>snprintf\<close> into \<open>connStr[512]\<close>: what does not fit is cut off.\<close>

definition connection_text :: "'o DBConnection \<Rightarrow> string" where
  "connection_text c = ''DRIVER={AWS ODBC ANSI Driver for MySQL};SERVER='' @ cstr (d_endpoint c) @
     '';DATABASE='' @ cstr (d_database c) @ '';UID='' @ cstr (d_uid c) @ '';PWD='' @ cstr (d_pwd c) @
     '';FAILOVER_MODE={strict reader}''"

definition connStr :: "'o DBConnection \<Rightarrow> string" where
  "connStr c = take 511 (connection_text c)"

text \<open>\<open>HandleDiagnostic\<close>: the records it prints. The counter is a short and wraps.\<close>

partial_function (option) diagnostics ::
  "'o odbc \<Rightarrow> handle_type \<Rightarrow> SQLHANDLE \<Rightarrow> i16 \<Rightarrow> 'o \<Rightarrow> (string \<times> i32) list option" where
  "diagnostics api type handle i o1 =
     (case SQLGetDiagRecW api type handle i o1 of (ret, rec) \<Rightarrow>
        if ret = SQL_SUCCESS then Option.bind (diagnostics api type handle (i + 1) o1) (\<lambda>recs. Some (rec # recs))
        else Some [])"

definition HandleDiagnostic :: "'o odbc \<Rightarrow> SQLHANDLE \<Rightarrow> handle_type \<Rightarrow> 'o DBConnection \<Rightarrow> (string \<times> i32) list option" where
  "HandleDiagnostic api handle type c = diagnostics api type handle 1 (d_driver c)"

definition on_driver :: "('o \<Rightarrow> 'o) \<Rightarrow> 'o DBConnection \<Rightarrow> 'o DBConnection" where
  "on_driver f c = c\<lparr>d_driver := f (d_driver c)\<rparr>"

text \<open>The three allocations: the driver writes the handle where it is told to.\<close>

definition alloc_env :: "'o odbc \<Rightarrow> 'o DBConnection \<Rightarrow> SQLRETURN \<times> 'o DBConnection" where
  "alloc_env api c = (case SQLAllocHandle api SQL_HANDLE_ENV SQL_NULL_HANDLE (d_driver c) of (ret, h, o1) \<Rightarrow>
     (ret, c\<lparr>d_hEnv := h, d_driver := o1\<rparr>))"

definition alloc_dbc :: "'o odbc \<Rightarrow> 'o DBConnection \<Rightarrow> SQLRETURN \<times> 'o DBConnection" where
  "alloc_dbc api c = (case SQLAllocHandle api SQL_HANDLE_DBC (d_hEnv c) (d_driver c) of (ret, h, o1) \<Rightarrow>
     (ret, c\<lparr>d_hDbc := h, d_driver := o1\<rparr>))"

definition alloc_stmt :: "'o odbc \<Rightarrow> 'o DBConnection \<Rightarrow> SQLRETURN \<times> 'o DBConnection" where
  "alloc_stmt api c = (case SQLAllocHandle api SQL_HANDLE_STMT (d_hDbc c) (d_driver c) of (ret, h, o1) \<Rightarrow>
     (ret, c\<lparr>d_hStmt := h, d_driver := o1\<rparr>))"

definition free_stmt :: "'o odbc \<Rightarrow> 'o DBConnection \<Rightarrow> 'o DBConnection" where
  "free_stmt api c = (if d_hStmt c = SQL_NULL_HANDLE then c
     else (on_driver (SQLFreeHandle api SQL_HANDLE_STMT (d_hStmt c)) c)\<lparr>d_hStmt := SQL_NULL_HANDLE\<rparr>)"

definition drop_dbc :: "'o odbc \<Rightarrow> 'o DBConnection \<Rightarrow> 'o DBConnection" where
  "drop_dbc api c = (on_driver (SQLFreeHandle api SQL_HANDLE_DBC (d_hDbc c)) c)\<lparr>d_hDbc := SQL_NULL_HANDLE\<rparr>"

definition hang_up :: "'o odbc \<Rightarrow> 'o DBConnection \<Rightarrow> 'o DBConnection" where
  "hang_up api c = drop_dbc api (on_driver (SQLDisconnect api (d_hDbc c)) c)"

definition free_dbc :: "'o odbc \<Rightarrow> 'o DBConnection \<Rightarrow> 'o DBConnection" where
  "free_dbc api c = (if d_hDbc c = SQL_NULL_HANDLE then c else hang_up api c)"

definition free_env :: "'o odbc \<Rightarrow> 'o DBConnection \<Rightarrow> 'o DBConnection" where
  "free_env api c = (if d_hEnv c = SQL_NULL_HANDLE then c
     else (on_driver (SQLFreeHandle api SQL_HANDLE_ENV (d_hEnv c)) c)\<lparr>d_hEnv := SQL_NULL_HANDLE\<rparr>)"

definition driver_connect :: "'o odbc \<Rightarrow> 'o DBConnection \<Rightarrow> SQLRETURN \<times> 'o DBConnection" where
  "driver_connect api c = (case SQLDriverConnectA api (d_hDbc c) (connStr c) (d_driver c) of (ret, o1) \<Rightarrow>
     (ret, c\<lparr>d_driver := o1\<rparr>))"

definition ready :: "'o odbc \<Rightarrow> 'o DBConnection \<Rightarrow> 'o DBConnection" where
  "ready api c = (on_driver (SQLSetStmtAttr api (d_hStmt c)) c)\<lparr>d_connected := True\<rparr>"

definition db_Connect :: "'o odbc \<Rightarrow> string \<Rightarrow> string \<Rightarrow> string \<Rightarrow> string \<Rightarrow> 'o DBConnection \<Rightarrow> (bool \<times> 'o DBConnection) option" where
  "db_Connect api endpoint database uid pwd c =
     (case alloc_env api (c\<lparr>d_endpoint := endpoint, d_database := database, d_uid := uid, d_pwd := pwd\<rparr>) of (ret, c1) \<Rightarrow>
      if ret \<noteq> SQL_SUCCESS then Some (False, c1)
      else case alloc_dbc api (on_driver (SQLSetEnvAttr api (d_hEnv c1)) c1) of (ret, c2) \<Rightarrow>
      if ret \<noteq> SQL_SUCCESS
      then Option.bind (HandleDiagnostic api (d_hEnv c2) SQL_HANDLE_ENV c2) (\<lambda>_. Some (False, c2))
      else case driver_connect api c2 of (ret, c3) \<Rightarrow>
      if \<not> succeeded ret
      then Option.bind (HandleDiagnostic api (d_hDbc c3) SQL_HANDLE_DBC c3) (\<lambda>_. Some (False, drop_dbc api c3))
      else case alloc_stmt api c3 of (ret, c4) \<Rightarrow>
      if ret \<noteq> SQL_SUCCESS
      then Option.bind (HandleDiagnostic api (d_hDbc c4) SQL_HANDLE_DBC c4) (\<lambda>_. Some (False, hang_up api c4))
      else Some (True, ready api c4))"

definition db_Disconnect :: "'o odbc \<Rightarrow> 'o DBConnection \<Rightarrow> 'o DBConnection" where
  "db_Disconnect api c = (free_env api (free_dbc api (free_stmt api c)))\<lparr>d_connected := False\<rparr>"

definition Reconnect :: "'o odbc \<Rightarrow> 'o DBConnection \<Rightarrow> (bool \<times> 'o DBConnection) option" where
  "Reconnect api c =
     (case alloc_dbc api (free_dbc api (free_stmt api c)) of (ret, c1) \<Rightarrow>
      if ret \<noteq> SQL_SUCCESS then Some (False, c1)
      else case driver_connect api c1 of (ret, c2) \<Rightarrow>
      if \<not> succeeded ret
      then Option.bind (HandleDiagnostic api (d_hDbc c2) SQL_HANDLE_DBC c2) (\<lambda>_. Some (False, drop_dbc api c2))
      else case alloc_stmt api c2 of (ret, c3) \<Rightarrow>
      if ret \<noteq> SQL_SUCCESS then Some (False, hang_up api c3)
      else Some (True, ready api c3))"

subsection \<open>Executing a call\<close>

definition SetInitialSessionState :: "'o odbc \<Rightarrow> 'o DBConnection \<Rightarrow> 'o DBConnection" where
  "SetInitialSessionState api c = (if d_hStmt c = SQL_NULL_HANDLE then c
     else on_driver (SQLExecDirectA api (d_hStmt c) (''SET time_zone = '' @ CHR 0x27 # ''+09:00'' @ [CHR 0x27])) c)"

text \<open>The \<open>for\<close> loop of a lost connection: at most \<open>n\<close> more calls of \<open>Reconnect\<close>.\<close>

fun reconnect_loop :: "'o odbc \<Rightarrow> nat \<Rightarrow> 'o DBConnection \<Rightarrow> (bool \<times> 'o DBConnection) option" where
  "reconnect_loop api 0 c = Some (False, c)"
| "reconnect_loop api (Suc n) c = (case Reconnect api c of
     None \<Rightarrow> None
   | Some (True, c') \<Rightarrow> Some (True, c')
   | Some (False, c') \<Rightarrow> reconnect_loop api n c')"

definition CheckFailoverState :: "'o odbc \<Rightarrow> SQLHANDLE \<Rightarrow> SQLRETURN \<Rightarrow> 'o DBConnection \<Rightarrow> (bool \<times> 'o DBConnection) option" where
  "CheckFailoverState api hStmt retcode c =
     (if succeeded retcode then Some (False, c)
      else case SQLGetDiagRecW api SQL_HANDLE_STMT hStmt 1 (d_driver c) of (ret, sqlState, nativeError) \<Rightarrow>
      if ret \<noteq> SQL_SUCCESS then Some (False, c)
      else if strncmp_eq sqlState ''08S02'' 5 then Some (True, SetInitialSessionState api c)
      else if strncmp_eq sqlState ''08S01'' 5
      then reconnect_loop api MAX_RETRIES (c\<lparr>d_connected := False\<rparr>)
      else Some (strncmp_eq sqlState ''HY000'' 5 \<and> nativeError = 1836, c))"

definition close_call :: "'o odbc \<Rightarrow> 'o DBConnection \<Rightarrow> 'o DBConnection" where
  "close_call api c = on_driver (\<lambda>o1. SQLFreeStmt api (d_hStmt c) (SQLCloseCursor api (d_hStmt c) o1)) c"

text \<open>The caller's two functions; either may be absent.\<close>

type_synonym 'o bind_params = "(SQLHANDLE \<Rightarrow> 'o \<Rightarrow> 'o) option"
type_synonym 'o process_result = "(SQLHANDLE \<Rightarrow> 'o \<Rightarrow> bool \<times> 'o) option"

definition bound :: "'o bind_params \<Rightarrow> 'o DBConnection \<Rightarrow> 'o DBConnection" where
  "bound bindParams c = (case bindParams of None \<Rightarrow> c | Some f \<Rightarrow> on_driver (f (d_hStmt c)) c)"

definition processed :: "'o process_result \<Rightarrow> 'o DBConnection \<Rightarrow> bool \<times> 'o DBConnection" where
  "processed processResult c = (case processResult of
     None \<Rightarrow> (True, c)
   | Some f \<Rightarrow> (case f (d_hStmt c) (d_driver c) of (success, o1) \<Rightarrow> (success, c\<lparr>d_driver := o1\<rparr>)))"

definition execute :: "'o odbc \<Rightarrow> u16 list \<Rightarrow> 'o DBConnection \<Rightarrow> SQLRETURN \<times> 'o DBConnection" where
  "execute api procCall c = (case SQLExecDirectW api (d_hStmt c) (takeWhile (\<lambda>x. x \<noteq> 0) procCall) (d_driver c) of
     (ret, o1) \<Rightarrow> (ret, c\<lparr>d_driver := o1\<rparr>))"

text \<open>The loop with \<open>n\<close> of its retries left.\<close>

fun execute_loop ::
  "'o odbc \<Rightarrow> u16 list \<Rightarrow> 'o bind_params \<Rightarrow> 'o process_result \<Rightarrow> nat \<Rightarrow> 'o DBConnection \<Rightarrow> (int \<times> 'o DBConnection) option" where
  "execute_loop api procCall bindParams processResult 0 c = Some (- 1, c)"
| "execute_loop api procCall bindParams processResult (Suc n) c =
     (case execute api procCall (bound bindParams c) of (ret, c1) \<Rightarrow>
      if succeeded ret
      then case processed processResult c1 of (success, c2) \<Rightarrow>
        Some (if success then 0 else - 1, close_call api c2)
      else case HandleDiagnostic api (d_hStmt c1) SQL_HANDLE_STMT c1 of None \<Rightarrow> None | Some recs \<Rightarrow>
        case CheckFailoverState api (d_hStmt c1) ret c1 of None \<Rightarrow> None
        | Some (True, c2) \<Rightarrow> execute_loop api procCall bindParams processResult n c2
        | Some (False, c2) \<Rightarrow> Some (- 1, close_call api c2))"

definition ExecuteProc ::
  "'o odbc \<Rightarrow> u16 list \<Rightarrow> 'o bind_params \<Rightarrow> 'o process_result \<Rightarrow> 'o DBConnection \<Rightarrow> (int \<times> 'o DBConnection) option" where
  "ExecuteProc api procCall bindParams processResult c =
     (if \<not> d_connected c \<or> d_hStmt c = SQL_NULL_HANDLE then Some (- 1, c)
      else execute_loop api procCall bindParams processResult MAX_RETRIES c)"

definition ExecuteQuery :: "'o odbc \<Rightarrow> u16 list \<Rightarrow> 'o DBConnection \<Rightarrow> (bool \<times> 'o DBConnection) option" where
  "ExecuteQuery api query c =
     map_option (\<lambda>(result, c'). (result = 0, c')) (ExecuteProc api query None None c)"

text \<open>Calls one after the other, as the handlers make them; the server never connects again.\<close>

type_synonym 'o db_call = "u16 list \<times> 'o bind_params \<times> 'o process_result"

fun run_db_calls :: "'o odbc \<Rightarrow> 'o db_call list \<Rightarrow> 'o DBConnection \<Rightarrow> (int list \<times> 'o DBConnection) option" where
  "run_db_calls api [] c = Some ([], c)"
| "run_db_calls api ((procCall, bindParams, processResult) # calls) c =
     (case ExecuteProc api procCall bindParams processResult c of
        None \<Rightarrow> None
      | Some (result, c1) \<Rightarrow> (case run_db_calls api calls c1 of
          None \<Rightarrow> None
        | Some (results, c2) \<Rightarrow> Some (result # results, c2)))"

subsection \<open>Returning\<close>

definition diagnoses :: "'o odbc \<Rightarrow> bool" where
  "diagnoses api \<longleftrightarrow> (\<forall>type handle o1. \<exists>k. fst (SQLGetDiagRecW api type handle (1 + of_nat k) o1) \<noteq> SQL_SUCCESS)"

lemma diagnostics_end:
  "fst (SQLGetDiagRecW api type handle (i + of_nat k) o1) \<noteq> SQL_SUCCESS \<Longrightarrow>
     \<exists>recs. diagnostics api type handle i o1 = Some recs"
proof (induction k arbitrary: i)
  case 0
  then show ?case by (subst diagnostics.simps) (auto split: prod.split)
next
  case (Suc k)
  then have "\<exists>recs. diagnostics api type handle (i + 1) o1 = Some recs" by (simp add: algebra_simps)
  then show ?case by (subst diagnostics.simps) (auto split: prod.split)
qed

lemma HandleDiagnostic_returns: "diagnoses api \<Longrightarrow> \<exists>recs. HandleDiagnostic api handle type c = Some recs"
proof -
  assume "diagnoses api"
  then obtain k where "fst (SQLGetDiagRecW api type handle (1 + of_nat k) (d_driver c)) \<noteq> SQL_SUCCESS"
    unfolding diagnoses_def by blast
  from diagnostics_end [OF this] show ?thesis by (simp add: HandleDiagnostic_def)
qed

lemma bind_diagnosed: "diagnoses api \<Longrightarrow> Option.bind (HandleDiagnostic api handle type c) (\<lambda>_. r) = r"
  using HandleDiagnostic_returns [of api handle type c] by auto

lemma some_bool [simp]: "\<exists>b. \<not> b" "\<exists>b. b"
  by (rule exI [of _ False], simp) (rule exI [of _ True], simp)

lemma Reconnect_returns: "diagnoses api \<Longrightarrow> \<exists>b c'. Reconnect api c = Some (b, c')"
proof -
  assume "diagnoses api"
  then have "Reconnect api c \<noteq> None" by (simp add: Reconnect_def bind_diagnosed split: prod.split)
  then show ?thesis by auto
qed

lemma reconnect_loop_returns: "diagnoses api \<Longrightarrow> \<exists>b c'. reconnect_loop api n c = Some (b, c')"
proof (induction n arbitrary: c)
  case (Suc n)
  obtain b c1 where "Reconnect api c = Some (b, c1)" using Reconnect_returns [OF Suc.prems] by blast
  then show ?case using Suc by (cases b) auto
qed simp

lemma CheckFailoverState_returns: "diagnoses api \<Longrightarrow> \<exists>b c'. CheckFailoverState api h ret c = Some (b, c')"
proof -
  assume ok: "diagnoses api"
  have "reconnect_loop api n v \<noteq> None" for n v using reconnect_loop_returns [OF ok, of n v] by auto
  then have "CheckFailoverState api h ret c \<noteq> None" by (simp add: CheckFailoverState_def split: prod.split)
  then show ?thesis by auto
qed

lemma execute_loop_returns:
  "diagnoses api \<Longrightarrow> \<exists>r c'. execute_loop api q b p n c = Some (r, c') \<and> (r = 0 \<or> r = - 1)"
proof (induction n arbitrary: c)
  case (Suc n)
  obtain ret c1 where run: "execute api q (bound b c) = (ret, c1)" by fastforce
  obtain recs where diag: "HandleDiagnostic api (d_hStmt c1) SQL_HANDLE_STMT c1 = Some recs"
    using HandleDiagnostic_returns [OF Suc.prems] by blast
  obtain again c2 where "CheckFailoverState api (d_hStmt c1) ret c1 = Some (again, c2)"
    using CheckFailoverState_returns [OF Suc.prems] by blast
  then show ?case using run diag Suc by (cases again) (auto split: prod.split)
qed simp

lemma ExecuteProc_returns:
  "diagnoses api \<Longrightarrow> \<exists>r c'. ExecuteProc api q b p c = Some (r, c') \<and> (r = 0 \<or> r = - 1)"
  using execute_loop_returns [of api q b p MAX_RETRIES c] by (simp add: ExecuteProc_def)

subsection \<open>Counting\<close>

text \<open>
  A count of what the driver did: an execution adds at most \<open>e\<close>, a connection attempt at most \<open>r\<close>, and
  nothing else adds to it.
\<close>

definition counter :: "'o odbc \<Rightarrow> 'o bind_params \<Rightarrow> 'o process_result \<Rightarrow> ('o \<Rightarrow> nat) \<Rightarrow> nat \<Rightarrow> nat \<Rightarrow> bool" where
  "counter api bindParams processResult count e r \<longleftrightarrow>
     (\<forall>h q o1. count (snd (SQLExecDirectW api h q o1)) \<le> count o1 + e) \<and>
     (\<forall>h t o1. count (snd (SQLDriverConnectA api h t o1)) \<le> count o1 + r) \<and>
     (\<forall>t h o1. count (snd (snd (SQLAllocHandle api t h o1))) = count o1) \<and>
     (\<forall>t h o1. count (SQLFreeHandle api t h o1) = count o1) \<and>
     (\<forall>h o1. count (SQLDisconnect api h o1) = count o1) \<and>
     (\<forall>h o1. count (SQLSetStmtAttr api h o1) = count o1) \<and>
     (\<forall>h t o1. count (SQLExecDirectA api h t o1) = count o1) \<and>
     (\<forall>h o1. count (SQLCloseCursor api h o1) = count o1) \<and>
     (\<forall>h o1. count (SQLFreeStmt api h o1) = count o1) \<and>
     (\<forall>f h o1. bindParams = Some f \<longrightarrow> count (f h o1) = count o1) \<and>
     (\<forall>f h o1. processResult = Some f \<longrightarrow> count (snd (f h o1)) = count o1)"

definition used :: "('o \<Rightarrow> nat) \<Rightarrow> 'o DBConnection \<Rightarrow> nat" where
  "used count c = count (d_driver c)"

lemma used_parts:
  assumes "counter api b p count e r"
  shows "used count (free_stmt api c) = used count c" "used count (free_dbc api c) = used count c"
    "used count (drop_dbc api c) = used count c" "used count (hang_up api c) = used count c"
    "used count (snd (alloc_dbc api c)) = used count c" "used count (snd (alloc_stmt api c)) = used count c"
    "used count (snd (driver_connect api c)) \<le> used count c + r" "used count (ready api c) = used count c"
    "used count (SetInitialSessionState api c) = used count c" "used count (close_call api c) = used count c"
    "used count (bound b c) = used count c" "used count (snd (processed p c)) = used count c"
    "used count (snd (execute api q c)) \<le> used count c + e" "used count (c\<lparr>d_connected := x\<rparr>) = used count c"
proof -
  have driver: "count (snd (SQLDriverConnectA api h t o1)) \<le> count o1 + r" for h t o1
    using assms by (simp add: counter_def)
  have exec: "count (snd (SQLExecDirectW api h q o1)) \<le> count o1 + e" for h o1 q
    using assms by (simp add: counter_def)
  have alloc: "count (snd (snd (SQLAllocHandle api t h o1))) = count o1" for t h o1
    using assms by (simp add: counter_def)
  have same: "count (SQLFreeHandle api t h o1) = count o1" "count (SQLDisconnect api h o1) = count o1"
    "count (SQLSetStmtAttr api h o1) = count o1" "count (SQLExecDirectA api h x o1) = count o1"
    "count (SQLCloseCursor api h o1) = count o1" "count (SQLFreeStmt api h o1) = count o1" for t h o1 x
    using assms by (simp_all add: counter_def)
  have given: "b = Some f \<Longrightarrow> count (f h o1) = count o1" "p = Some g \<Longrightarrow> count (snd (g h o1)) = count o1" for f g h o1
    using assms by (simp_all add: counter_def)
  show "used count (free_stmt api c) = used count c" "used count (free_dbc api c) = used count c"
    "used count (drop_dbc api c) = used count c" "used count (hang_up api c) = used count c"
    "used count (ready api c) = used count c" "used count (SetInitialSessionState api c) = used count c"
    "used count (close_call api c) = used count c" "used count (c\<lparr>d_connected := x\<rparr>) = used count c"
    by (simp_all add: used_def free_stmt_def free_dbc_def drop_dbc_def hang_up_def ready_def SetInitialSessionState_def
        close_call_def on_driver_def same)
  show "used count (snd (alloc_dbc api c)) = used count c" "used count (snd (alloc_stmt api c)) = used count c"
    using alloc [of SQL_HANDLE_DBC "d_hEnv c" "d_driver c"] alloc [of SQL_HANDLE_STMT "d_hDbc c" "d_driver c"]
    by (auto simp: used_def alloc_dbc_def alloc_stmt_def split: prod.split)
  show "used count (snd (driver_connect api c)) \<le> used count c + r"
    using driver [of "d_hDbc c" "connStr c" "d_driver c"] by (auto simp: used_def driver_connect_def split: prod.split)
  show "used count (bound b c) = used count c"
    by (simp add: used_def bound_def on_driver_def given split: option.split)
  show "used count (snd (processed p c)) = used count c"
    using given(2) [of _ "d_hStmt c" "d_driver c"] by (auto simp: used_def processed_def split: option.split prod.split)
  show "used count (snd (execute api q c)) \<le> used count c + e"
    using exec [of "d_hStmt c" "takeWhile (\<lambda>x. x \<noteq> 0) q" "d_driver c"]
    by (auto simp: used_def execute_def split: prod.split)
qed

lemma Reconnect_used:
  assumes "counter api b p count e r" and "Reconnect api c = Some (ok, c')"
  shows "used count c' \<le> used count c + r"
proof -
  note parts = used_parts [OF assms(1)]
  obtain ret1 c1 where alloc: "alloc_dbc api (free_dbc api (free_stmt api c)) = (ret1, c1)" by fastforce
  obtain ret2 c2 where driver: "driver_connect api c1 = (ret2, c2)" by fastforce
  obtain ret3 c3 where stmt: "alloc_stmt api c2 = (ret3, c3)" by fastforce
  have "used count c1 = used count c" "used count c2 \<le> used count c1 + r" "used count c3 = used count c2"
    using parts(5) [of "free_dbc api (free_stmt api c)"] parts(7) [of c1] parts(6) [of c2]
    by (simp_all add: alloc driver stmt parts)
  then show ?thesis
    using assms(2)
    by (auto simp: Reconnect_def alloc driver stmt parts bind_eq_Some_conv split: if_splits)
qed

lemma reconnect_loop_used:
  assumes "counter api b p count e r"
  shows "reconnect_loop api n c = Some (ok, c') \<Longrightarrow> used count c' \<le> used count c + n * r"
proof (induction n arbitrary: c)
  case (Suc n)
  then obtain ok1 c1 where one: "Reconnect api c = Some (ok1, c1)" by (auto split: option.splits)
  note Reconnect_used [OF assms one]
  moreover have "used count c' \<le> used count c1 + n * r"
    using Suc one by (cases ok1) auto
  ultimately show ?case by simp
qed simp

lemma CheckFailoverState_used:
  assumes "counter api b p count e r" and "CheckFailoverState api h ret c = Some (again, c')"
  shows "used count c' \<le> used count c + MAX_RETRIES * r"
  using assms(2) reconnect_loop_used [OF assms(1), of MAX_RETRIES "c\<lparr>d_connected := False\<rparr>" again c']
  by (auto simp: CheckFailoverState_def used_parts [OF assms(1)] split: prod.splits if_splits)

lemma execute_loop_used:
  assumes "counter api b p count e r"
  shows "execute_loop api q b p n c = Some (result, c') \<Longrightarrow> used count c' \<le> used count c + n * (e + MAX_RETRIES * r)"
proof (induction n arbitrary: c)
  case (Suc n)
  note parts = used_parts [OF assms]
  obtain ret c1 where run: "execute api q (bound b c) = (ret, c1)" by fastforce
  have first: "used count c1 \<le> used count c + e" using parts(13) [of q "bound b c"] by (simp add: run parts)
  show ?case
  proof (cases "succeeded ret")
    case True
    obtain success c2 where "processed p c1 = (success, c2)" by fastforce
    then show ?thesis using Suc.prems first True run parts(12) [of c1] by (auto simp: parts)
  next
    case False
    then obtain again c2 where check: "CheckFailoverState api (d_hStmt c1) ret c1 = Some (again, c2)"
      using Suc.prems run by (auto split: option.splits)
    have second: "used count c2 \<le> used count c1 + MAX_RETRIES * r"
      by (rule CheckFailoverState_used [OF assms check])
    show ?thesis
    proof (cases again)
      case True
      then have "used count c' \<le> used count c2 + n * (e + MAX_RETRIES * r)"
        using Suc check run False by (auto split: option.splits)
      then show ?thesis using first second by simp
    next
      case stop: False
      then show ?thesis using Suc.prems check run False first second by (auto simp: parts split: option.splits)
    qed
  qed
qed simp

subsection \<open>Handles\<close>

text \<open>
  What the ODBC documentation promises of handles, when \<open>live\<close> is the set of those the driver has given
  out, each with its type and the handle it was allocated on, and \<open>up\<close> the set of the open connections.
  An allocation on a valid parent (none for an environment, a live environment for a connection, an
  open connection for a statement) gives a new handle that is not null when it succeeds, with or
  without a message, and the null handle otherwise. \<open>SQLFreeHandle\<close> is refused for a connection that
  is open and for an environment that has connections, and does nothing to a handle that is not live.
  \<open>SQLDisconnect\<close> closes an open connection (no transaction is open: the code leaves the driver in
  its autocommit mode) and frees its statements. \<open>SQLDriverConnectA\<close> opens the connection when it
  succeeds. The rest leaves the handles alone.
\<close>

type_synonym live_handle = "handle_type \<times> SQLHANDLE \<times> SQLHANDLE"

fun valid_parent :: "live_handle set \<Rightarrow> SQLHANDLE set \<Rightarrow> handle_type \<Rightarrow> SQLHANDLE \<Rightarrow> bool" where
  "valid_parent L U SQL_HANDLE_ENV p \<longleftrightarrow> p = SQL_NULL_HANDLE"
| "valid_parent L U SQL_HANDLE_DBC p \<longleftrightarrow> (SQL_HANDLE_ENV, SQL_NULL_HANDLE, p) \<in> L"
| "valid_parent L U SQL_HANDLE_STMT p \<longleftrightarrow> p \<in> U"

definition allocates ::
  "'o odbc \<Rightarrow> ('o \<Rightarrow> live_handle set) \<Rightarrow> ('o \<Rightarrow> SQLHANDLE set) \<Rightarrow> handle_type \<Rightarrow> SQLHANDLE \<Rightarrow> 'o \<Rightarrow> bool" where
  "allocates api live up t p o1 \<longleftrightarrow> (case SQLAllocHandle api t p o1 of (ret, h, o2) \<Rightarrow>
     up o2 = up o1 \<and>
     (if succeeded ret
      then h \<noteq> SQL_NULL_HANDLE \<and> (\<forall>q. (t, q, h) \<notin> live o1) \<and> live o2 = insert (t, p, h) (live o1)
      else h = SQL_NULL_HANDLE \<and> live o2 = live o1))"

definition free_refused :: "live_handle set \<Rightarrow> SQLHANDLE set \<Rightarrow> handle_type \<Rightarrow> SQLHANDLE \<Rightarrow> bool" where
  "free_refused L U t h \<longleftrightarrow> t = SQL_HANDLE_DBC \<and> h \<in> U \<or> t = SQL_HANDLE_ENV \<and> (\<exists>d. (SQL_HANDLE_DBC, h, d) \<in> L)"

definition frees ::
  "'o odbc \<Rightarrow> ('o \<Rightarrow> live_handle set) \<Rightarrow> ('o \<Rightarrow> SQLHANDLE set) \<Rightarrow> handle_type \<Rightarrow> SQLHANDLE \<Rightarrow> 'o \<Rightarrow> bool" where
  "frees api live up t h o1 \<longleftrightarrow>
     up (SQLFreeHandle api t h o1) = up o1 \<and>
     live (SQLFreeHandle api t h o1) =
       (if free_refused (live o1) (up o1) t h then live o1 else live o1 - {t} \<times> UNIV \<times> {h})"

definition disconnects :: "'o odbc \<Rightarrow> ('o \<Rightarrow> live_handle set) \<Rightarrow> ('o \<Rightarrow> SQLHANDLE set) \<Rightarrow> SQLHANDLE \<Rightarrow> 'o \<Rightarrow> bool" where
  "disconnects api live up h o1 \<longleftrightarrow>
     up (SQLDisconnect api h o1) = up o1 - {h} \<and>
     live (SQLDisconnect api h o1) = (if h \<in> up o1 then live o1 - {SQL_HANDLE_STMT} \<times> {h} \<times> UNIV else live o1)"

definition connects :: "'o odbc \<Rightarrow> ('o \<Rightarrow> live_handle set) \<Rightarrow> ('o \<Rightarrow> SQLHANDLE set) \<Rightarrow> SQLHANDLE \<Rightarrow> string \<Rightarrow> 'o \<Rightarrow> bool" where
  "connects api live up h t o1 \<longleftrightarrow> (case SQLDriverConnectA api h t o1 of (ret, o2) \<Rightarrow>
     live o2 = live o1 \<and> up o2 = (if succeeded ret then insert h (up o1) else up o1))"

definition same_handles :: "('o \<Rightarrow> live_handle set) \<Rightarrow> ('o \<Rightarrow> SQLHANDLE set) \<Rightarrow> 'o \<Rightarrow> 'o \<Rightarrow> bool" where
  "same_handles live up o1 o2 \<longleftrightarrow> live o2 = live o1 \<and> up o2 = up o1"

definition documented_handles :: "'o odbc \<Rightarrow> ('o \<Rightarrow> live_handle set) \<Rightarrow> ('o \<Rightarrow> SQLHANDLE set) \<Rightarrow> bool" where
  "documented_handles api live up \<longleftrightarrow>
     (\<forall>t p o1. valid_parent (live o1) (up o1) t p \<longrightarrow> allocates api live up t p o1) \<and>
     (\<forall>t h o1. frees api live up t h o1) \<and>
     (\<forall>h o1. disconnects api live up h o1) \<and>
     (\<forall>p h t o1. (SQL_HANDLE_DBC, p, h) \<in> live o1 \<longrightarrow> connects api live up h t o1) \<and>
     (\<forall>h o1. same_handles live up o1 (SQLSetEnvAttr api h o1)) \<and>
     (\<forall>h o1. same_handles live up o1 (SQLSetStmtAttr api h o1)) \<and>
     (\<forall>h t o1. same_handles live up o1 (SQLExecDirectA api h t o1)) \<and>
     (\<forall>h q o1. same_handles live up o1 (snd (SQLExecDirectW api h q o1))) \<and>
     (\<forall>h o1. same_handles live up o1 (SQLCloseCursor api h o1)) \<and>
     (\<forall>h o1. same_handles live up o1 (SQLFreeStmt api h o1))"

definition call_keeps :: "('o \<Rightarrow> live_handle set) \<Rightarrow> ('o \<Rightarrow> SQLHANDLE set) \<Rightarrow> 'o db_call \<Rightarrow> bool" where
  "call_keeps live up call \<longleftrightarrow> (case call of (q, bindParams, processResult) \<Rightarrow>
     (\<forall>f h o1. bindParams = Some f \<longrightarrow> same_handles live up o1 (f h o1)) \<and>
     (\<forall>f h o1. processResult = Some f \<longrightarrow> same_handles live up o1 (snd (f h o1))))"

text \<open>
  What a connection object keeps: the driver's handles are among its own three, a statement is one
  of an open connection, and an open connection is live. A handle it has may be gone already (a
  statement that was freed with its connection), and is then freed in vain.
\<close>

definition owned :: "'o DBConnection \<Rightarrow> live_handle set" where
  "owned c = {(SQL_HANDLE_ENV, SQL_NULL_HANDLE, d_hEnv c), (SQL_HANDLE_DBC, d_hEnv c, d_hDbc c),
     (SQL_HANDLE_STMT, d_hDbc c, d_hStmt c)}"

definition well_kept :: "live_handle set \<Rightarrow> SQLHANDLE set \<Rightarrow> bool" where
  "well_kept L U \<longleftrightarrow> (\<forall>t p. (t, p, SQL_NULL_HANDLE) \<notin> L) \<and> (\<forall>p s. (SQL_HANDLE_STMT, p, s) \<in> L \<longrightarrow> p \<in> U) \<and>
     (\<forall>d\<in>U. \<exists>p. (SQL_HANDLE_DBC, p, d) \<in> L)"

definition holds :: "('o \<Rightarrow> live_handle set) \<Rightarrow> ('o \<Rightarrow> SQLHANDLE set) \<Rightarrow> 'o DBConnection \<Rightarrow> bool" where
  "holds live up c \<longleftrightarrow> live (d_driver c) \<subseteq> owned c \<and> well_kept (live (d_driver c)) (up (d_driver c))"

definition has_env :: "('o \<Rightarrow> live_handle set) \<Rightarrow> 'o DBConnection \<Rightarrow> bool" where
  "has_env live c \<longleftrightarrow> (SQL_HANDLE_ENV, SQL_NULL_HANDLE, d_hEnv c) \<in> live (d_driver c)"

definition has_dbc :: "('o \<Rightarrow> live_handle set) \<Rightarrow> 'o DBConnection \<Rightarrow> bool" where
  "has_dbc live c \<longleftrightarrow> (SQL_HANDLE_DBC, d_hEnv c, d_hDbc c) \<in> live (d_driver c)"

definition is_up :: "('o \<Rightarrow> SQLHANDLE set) \<Rightarrow> 'o DBConnection \<Rightarrow> bool" where
  "is_up up c \<longleftrightarrow> d_hDbc c \<in> up (d_driver c)"

text \<open>A connection object as \<open>Connect\<close>, \<open>Reconnect\<close> and the calls keep it.\<close>

definition settled :: "('o \<Rightarrow> live_handle set) \<Rightarrow> ('o \<Rightarrow> SQLHANDLE set) \<Rightarrow> 'o DBConnection \<Rightarrow> bool" where
  "settled live up c \<longleftrightarrow> holds live up c \<and> (d_connected c \<longrightarrow> has_env live c)"

lemma holds_same:
  "same_handles live up (d_driver c) (d_driver c') \<Longrightarrow> d_hEnv c' = d_hEnv c \<Longrightarrow> d_hDbc c' = d_hDbc c \<Longrightarrow>
     d_hStmt c' = d_hStmt c \<Longrightarrow> holds live up c' = holds live up c \<and> has_env live c' = has_env live c \<and>
     has_dbc live c' = has_dbc live c \<and> is_up up c' = is_up up c"
  by (simp add: holds_def owned_def has_env_def has_dbc_def is_up_def same_handles_def)

lemma odbc_laws:
  assumes "documented_handles api live up"
  shows "valid_parent (live o1) (up o1) t p \<Longrightarrow> allocates api live up t p o1" "frees api live up t h o1"
    "disconnects api live up h o1" "(SQL_HANDLE_DBC, p, h) \<in> live o1 \<Longrightarrow> connects api live up h x o1"
    "same_handles live up o1 (SQLSetEnvAttr api h o1)" "same_handles live up o1 (SQLSetStmtAttr api h o1)"
    "same_handles live up o1 (SQLExecDirectA api h x o1)" "same_handles live up o1 (snd (SQLExecDirectW api h q o1))"
    "same_handles live up o1 (SQLCloseCursor api h o1)" "same_handles live up o1 (SQLFreeStmt api h o1)"
  using assms by (auto simp: documented_handles_def)

lemma free_stmt_holds:
  assumes "documented_handles api live up" and "holds live up c"
  shows "holds live up (free_stmt api c) \<and> (has_env live c \<longrightarrow> has_env live (free_stmt api c))"
  using assms(2) odbc_laws(2) [OF assms(1), of SQL_HANDLE_STMT "d_hStmt c" "d_driver c"]
  by (auto simp: free_stmt_def on_driver_def frees_def free_refused_def holds_def owned_def well_kept_def has_env_def)

lemma no_stmt:
  assumes "holds live up c" and "\<not> is_up up c"
  shows "(SQL_HANDLE_STMT, p, s) \<notin> live (d_driver c)"
proof
  assume has: "(SQL_HANDLE_STMT, p, s) \<in> live (d_driver c)"
  then have "p \<in> up (d_driver c)" using assms(1) unfolding holds_def well_kept_def by blast
  moreover have "(SQL_HANDLE_STMT, p, s) \<in> owned c" using assms(1) has unfolding holds_def by blast
  then have "p = d_hDbc c" by (simp add: owned_def)
  ultimately show False using assms(2) by (simp add: is_up_def)
qed

lemma no_dbc_id: "holds live up c \<Longrightarrow> (SQL_HANDLE_DBC, p, d) \<in> live (d_driver c) \<Longrightarrow> p = d_hEnv c \<and> d = d_hDbc c"
  unfolding holds_def owned_def by blast

lemma drop_dbc_holds:
  assumes "documented_handles api live up" and holds: "holds live up c" and down: "\<not> is_up up c"
  shows "holds live up (drop_dbc api c) \<and> (has_env live c \<longrightarrow> has_env live (drop_dbc api c))"
proof -
  have lives: "live (d_driver (drop_dbc api c)) = live (d_driver c) - {SQL_HANDLE_DBC} \<times> UNIV \<times> {d_hDbc c}"
    and ups: "up (d_driver (drop_dbc api c)) = up (d_driver c)"
    using down odbc_laws(2) [OF assms(1), of SQL_HANDLE_DBC "d_hDbc c" "d_driver c"]
    by (simp_all add: drop_dbc_def on_driver_def frees_def free_refused_def is_up_def)
  have none: "up (d_driver c) = {}"
    using holds down no_dbc_id [OF holds] unfolding holds_def well_kept_def is_up_def by blast
  have "live (d_driver c) - {SQL_HANDLE_DBC} \<times> UNIV \<times> {d_hDbc c} \<subseteq> {(SQL_HANDLE_ENV, SQL_NULL_HANDLE, d_hEnv c)}"
    using holds no_stmt [OF holds down] unfolding holds_def owned_def by blast
  moreover have "d_hEnv (drop_dbc api c) = d_hEnv c" by (simp add: drop_dbc_def on_driver_def)
  ultimately show ?thesis
    using holds unfolding holds_def well_kept_def owned_def has_env_def lives ups none by auto
qed

lemma hang_up_holds:
  assumes "documented_handles api live up" and "holds live up c"
  shows "holds live up (hang_up api c) \<and> (has_env live c \<longrightarrow> has_env live (hang_up api c))"
proof -
  let ?c = "on_driver (SQLDisconnect api (d_hDbc c)) c"
  have "holds live up ?c" "\<not> is_up up ?c" "has_env live c \<longrightarrow> has_env live ?c"
    using assms(2) odbc_laws(3) [OF assms(1), of "d_hDbc c" "d_driver c"]
    by (auto simp: on_driver_def disconnects_def holds_def owned_def well_kept_def has_env_def is_up_def)
  then show ?thesis using drop_dbc_holds [OF assms(1), of ?c] by (auto simp: hang_up_def)
qed

lemma free_dbc_holds:
  assumes "documented_handles api live up" and "holds live up c"
  shows "holds live up (free_dbc api c) \<and> (has_env live c \<longrightarrow> has_env live (free_dbc api c))"
  using hang_up_holds [OF assms] assms(2) by (simp add: free_dbc_def)

lemma freed [simp]:
  "d_hStmt (free_stmt api c) = SQL_NULL_HANDLE" "d_hDbc (free_dbc api c) = SQL_NULL_HANDLE"
  "d_hEnv (free_env api c) = SQL_NULL_HANDLE" "d_hStmt (free_dbc api c) = d_hStmt c"
  "d_hStmt (free_env api c) = d_hStmt c" "d_hDbc (free_env api c) = d_hDbc c"
  "d_hStmt (drop_dbc api c) = d_hStmt c" "d_hStmt (hang_up api c) = d_hStmt c"
  by (simp_all add: free_stmt_def free_dbc_def free_env_def hang_up_def drop_dbc_def on_driver_def)

text \<open>Without a connection handle there is at most the environment.\<close>

lemma only_env:
  "holds live up c \<Longrightarrow> d_hDbc c = SQL_NULL_HANDLE \<Longrightarrow>
     live (d_driver c) \<subseteq> {(SQL_HANDLE_ENV, SQL_NULL_HANDLE, d_hEnv c)} \<and> up (d_driver c) = {}"
proof -
  assume holds: "holds live up c" and null: "d_hDbc c = SQL_NULL_HANDLE"
  have dbc: "(SQL_HANDLE_DBC, p, d) \<notin> live (d_driver c)" for p d
    using holds no_dbc_id [OF holds, of p d] null unfolding holds_def well_kept_def by metis
  then have ups: "up (d_driver c) = {}" using holds unfolding holds_def well_kept_def by blast
  then have "(SQL_HANDLE_STMT, p, s) \<notin> live (d_driver c)" for p s
    by (intro no_stmt [OF holds]) (simp add: is_up_def)
  with holds dbc have "live (d_driver c) \<subseteq> {(SQL_HANDLE_ENV, SQL_NULL_HANDLE, d_hEnv c)}"
    unfolding holds_def owned_def by blast
  with ups show ?thesis by simp
qed

lemma free_env_empty:
  assumes "documented_handles api live up" and "holds live up c" and "d_hDbc c = SQL_NULL_HANDLE"
  shows "live (d_driver (free_env api c)) = {} \<and> up (d_driver (free_env api c)) = {}"
  using only_env [OF assms(2,3)] assms(2) odbc_laws(2) [OF assms(1), of SQL_HANDLE_ENV "d_hEnv c" "d_driver c"]
  by (auto simp: free_env_def on_driver_def frees_def free_refused_def holds_def well_kept_def)

lemma alloc_env_holds:
  assumes "documented_handles api live up" and "live (d_driver c) = {}" and "up (d_driver c) = {}"
    and "alloc_env api c = (ret, c')"
  shows "holds live up c' \<and> (succeeded ret \<longrightarrow> has_env live c') \<and> d_hDbc c' = d_hDbc c \<and> d_hStmt c' = d_hStmt c \<and>
    d_connected c' = d_connected c"
proof -
  have "allocates api live up SQL_HANDLE_ENV SQL_NULL_HANDLE (d_driver c)" by (rule odbc_laws(1) [OF assms(1)]) simp
  then show ?thesis using assms(2-4)
    by (auto simp: allocates_def alloc_env_def holds_def owned_def well_kept_def has_env_def split: prod.splits if_splits)
qed

lemma alloc_dbc_holds:
  assumes "documented_handles api live up" and "holds live up c" and "has_env live c" and "d_hDbc c = SQL_NULL_HANDLE"
    and "alloc_dbc api c = (ret, c')"
  shows "holds live up c' \<and> has_env live c' \<and> (succeeded ret \<longrightarrow> has_dbc live c') \<and> \<not> is_up up c' \<and>
    d_hStmt c' = d_hStmt c \<and> d_connected c' = d_connected c"
proof -
  have "allocates api live up SQL_HANDLE_DBC (d_hEnv c) (d_driver c)"
    by (rule odbc_laws(1) [OF assms(1)]) (use assms(3) in \<open>simp add: has_env_def\<close>)
  then show ?thesis using assms(2-5) only_env [OF assms(2,4)]
    by (auto simp: allocates_def alloc_dbc_def holds_def owned_def well_kept_def has_env_def has_dbc_def is_up_def
        split: prod.splits if_splits)
qed

lemma driver_connect_holds:
  assumes "documented_handles api live up" and holds: "holds live up c" and env: "has_env live c" and dbc: "has_dbc live c"
    and down: "\<not> is_up up c" and run: "driver_connect api c = (ret, c')"
  shows "holds live up c' \<and> has_env live c' \<and> is_up up c' = succeeded ret \<and>
    (\<forall>p s. (SQL_HANDLE_STMT, p, s) \<notin> live (d_driver c'))"
proof -
  have "connects api live up (d_hDbc c) (connStr c) (d_driver c)"
    by (rule odbc_laws(4) [OF assms(1)]) (use dbc in \<open>simp add: has_dbc_def\<close>)
  then obtain o2 where c': "c' = c\<lparr>d_driver := o2\<rparr>" and lives: "live o2 = live (d_driver c)"
    and ups: "up o2 = (if succeeded ret then insert (d_hDbc c) (up (d_driver c)) else up (d_driver c))"
    using run by (auto simp: connects_def driver_connect_def split: prod.splits)
  have "well_kept (live (d_driver c)) (insert (d_hDbc c) (up (d_driver c)))"
    using holds dbc unfolding holds_def well_kept_def has_dbc_def by blast
  then have "holds live up c'" using holds by (simp add: holds_def owned_def c' lives ups)
  then show ?thesis using env down no_stmt [OF holds down] by (simp add: has_env_def is_up_def c' lives ups)
qed

lemma alloc_stmt_holds:
  assumes "documented_handles api live up" and "holds live up c" and "has_env live c" and "is_up up c"
    and "\<forall>p s. (SQL_HANDLE_STMT, p, s) \<notin> live (d_driver c)" and "alloc_stmt api c = (ret, c')"
  shows "holds live up c' \<and> has_env live c' \<and> d_connected c' = d_connected c"
proof -
  have "allocates api live up SQL_HANDLE_STMT (d_hDbc c) (d_driver c)"
    by (rule odbc_laws(1) [OF assms(1)]) (use assms(4) in \<open>simp add: is_up_def\<close>)
  then show ?thesis using assms(2-6)
    by (auto simp: allocates_def alloc_stmt_def holds_def owned_def well_kept_def has_env_def is_up_def
        split: prod.splits if_splits)
qed

lemma driver_parts_hold:
  assumes "documented_handles api live up"
  shows "holds live up (ready api c) = holds live up c" "has_env live (ready api c) = has_env live c"
    "holds live up (SetInitialSessionState api c) = holds live up c"
    "has_env live (SetInitialSessionState api c) = has_env live c"
    "holds live up (close_call api c) = holds live up c" "has_env live (close_call api c) = has_env live c"
    "holds live up (snd (execute api q c)) = holds live up c" "has_env live (snd (execute api q c)) = has_env live c"
    "holds live up (on_driver (SQLSetEnvAttr api h) c) = holds live up c"
    "has_env live (on_driver (SQLSetEnvAttr api h) c) = has_env live c"
    "holds live up (c\<lparr>d_connected := x\<rparr>) = holds live up c" "has_env live (c\<lparr>d_connected := x\<rparr>) = has_env live c"
proof -
  note laws = odbc_laws(5-10) [OF assms]
  have close: "same_handles live up o1 (SQLFreeStmt api h (SQLCloseCursor api h o1))" for h o1
    using laws(5) [of o1 h] laws(6) [of "SQLCloseCursor api h o1" h] by (simp add: same_handles_def)
  have run: "same_handles live up (d_driver c) (d_driver (snd (execute api q c)))"
    using laws(4) [of "d_driver c" "d_hStmt c" "takeWhile (\<lambda>x. x \<noteq> 0) q"]
    by (auto simp: execute_def split: prod.split)
  have "same_handles live up (d_driver c) (d_driver (ready api c))"
    "same_handles live up (d_driver c) (d_driver (SetInitialSessionState api c))"
    "same_handles live up (d_driver c) (d_driver (close_call api c))"
    "same_handles live up (d_driver c) (d_driver (on_driver (SQLSetEnvAttr api h) c))"
    by (simp_all add: ready_def SetInitialSessionState_def close_call_def on_driver_def laws close same_handles_def [of _ _ x x for x])
  note same = this [THEN holds_same]
  show "holds live up (ready api c) = holds live up c" "has_env live (ready api c) = has_env live c"
    using same(1) by (simp_all add: ready_def on_driver_def)
  show "holds live up (SetInitialSessionState api c) = holds live up c"
    "has_env live (SetInitialSessionState api c) = has_env live c"
    using same(2) by (simp_all add: SetInitialSessionState_def on_driver_def)
  show "holds live up (close_call api c) = holds live up c" "has_env live (close_call api c) = has_env live c"
    using same(3) by (simp_all add: close_call_def on_driver_def)
  show "holds live up (on_driver (SQLSetEnvAttr api h) c) = holds live up c"
    "has_env live (on_driver (SQLSetEnvAttr api h) c) = has_env live c"
    using same(4) by (simp_all add: on_driver_def)
  have "d_hEnv (snd (execute api q c)) = d_hEnv c" "d_hDbc (snd (execute api q c)) = d_hDbc c"
    "d_hStmt (snd (execute api q c)) = d_hStmt c" by (simp_all add: execute_def split: prod.split)
  from holds_same [OF run this]
  show "holds live up (snd (execute api q c)) = holds live up c" "has_env live (snd (execute api q c)) = has_env live c"
    by simp_all
  show "holds live up (c\<lparr>d_connected := x\<rparr>) = holds live up c" "has_env live (c\<lparr>d_connected := x\<rparr>) = has_env live c"
    by (simp_all add: holds_def owned_def has_env_def)
qed

text \<open>From a connection handle on, \<open>Connect\<close> and \<open>Reconnect\<close> do the same.\<close>

lemma dialling_holds:
  assumes keeps: "documented_handles api live up" and "holds live up c" and "has_env live c" and "has_dbc live c"
    and "\<not> is_up up c"
    and dial: "driver_connect api c = (ret, c1)" and stmt: "alloc_stmt api c1 = (ret', c2)"
  shows "\<not> succeeded ret \<Longrightarrow> holds live up (drop_dbc api c1) \<and> has_env live (drop_dbc api c1)"
    "succeeded ret \<Longrightarrow> holds live up (hang_up api c2) \<and> has_env live (hang_up api c2)"
    "succeeded ret \<Longrightarrow> holds live up (ready api c2) \<and> has_env live (ready api c2)"
proof -
  have c1: "holds live up c1" "has_env live c1" "is_up up c1 = succeeded ret" "\<forall>p s. (SQL_HANDLE_STMT, p, s) \<notin> live (d_driver c1)"
    using driver_connect_holds [OF keeps assms(2-5) dial] by auto
  show "\<not> succeeded ret \<Longrightarrow> holds live up (drop_dbc api c1) \<and> has_env live (drop_dbc api c1)"
    using drop_dbc_holds [OF keeps c1(1)] c1 by simp
  have c2: "succeeded ret \<Longrightarrow> holds live up c2 \<and> has_env live c2"
    using alloc_stmt_holds [OF keeps c1(1,2) _ c1(4) stmt] c1(3) by simp
  then show "succeeded ret \<Longrightarrow> holds live up (hang_up api c2) \<and> has_env live (hang_up api c2)"
    "succeeded ret \<Longrightarrow> holds live up (ready api c2) \<and> has_env live (ready api c2)"
    using hang_up_holds [OF keeps, of c2] driver_parts_hold(1,2) [OF keeps, of c2] by simp_all
qed

lemma Reconnect_holds:
  assumes keeps: "documented_handles api live up" and holds: "holds live up c" and env: "has_env live c"
    and run: "Reconnect api c = Some (ok, c')"
  shows "holds live up c' \<and> has_env live c'"
proof -
  let ?c = "free_dbc api (free_stmt api c)"
  obtain ret1 c1 where alloc: "alloc_dbc api ?c = (ret1, c1)" by fastforce
  obtain ret2 c2 where dial: "driver_connect api c1 = (ret2, c2)" by fastforce
  obtain ret3 c3 where stmt: "alloc_stmt api c2 = (ret3, c3)" by fastforce
  have c: "holds live up ?c" "has_env live ?c"
    using free_stmt_holds [OF keeps holds] free_dbc_holds [OF keeps, of "free_stmt api c"] env by auto
  have c1: "holds live up c1" "has_env live c1" "\<not> is_up up c1" "succeeded ret1 \<Longrightarrow> has_dbc live c1" "d_hStmt c1 = SQL_NULL_HANDLE"
    using alloc_dbc_holds [OF keeps c _ alloc] by simp_all
  show ?thesis
  proof (cases "ret1 = SQL_SUCCESS")
    case True
    from dialling_holds [OF keeps c1(1,2) c1(4) c1(3) dial stmt] show ?thesis
      using run True by (auto simp: Reconnect_def alloc dial stmt bind_eq_Some_conv split: if_splits)
  qed (use run c1 in \<open>simp add: Reconnect_def alloc\<close>)
qed

lemma reconnect_loop_holds:
  assumes "documented_handles api live up"
  shows "holds live up c \<Longrightarrow> has_env live c \<Longrightarrow> reconnect_loop api n c = Some (ok, c') \<Longrightarrow> holds live up c' \<and> has_env live c'"
proof (induction n arbitrary: c)
  case (Suc n)
  then obtain ok1 c1 where one: "Reconnect api c = Some (ok1, c1)" by (auto split: option.splits)
  then show ?case using Suc Reconnect_holds [OF assms Suc.prems(1,2) one] by (cases ok1) auto
qed simp

lemma CheckFailoverState_holds:
  assumes keeps: "documented_handles api live up" and "holds live up c" and "has_env live c"
    and run: "CheckFailoverState api h ret c = Some (again, c')"
  shows "holds live up c' \<and> has_env live c'"
  using run assms(2,3) driver_parts_hold(3,4,11,12) [OF keeps]
    reconnect_loop_holds [OF keeps, of "c\<lparr>d_connected := False\<rparr>" MAX_RETRIES again c']
  by (auto simp: CheckFailoverState_def split: prod.splits if_splits)

lemma callbacks_hold:
  assumes "call_keeps live up (q, b, p)"
  shows "holds live up (bound b c) = holds live up c \<and> has_env live (bound b c) = has_env live c"
    "holds live up (snd (processed p c)) = holds live up c \<and> has_env live (snd (processed p c)) = has_env live c"
proof -
  have "same_handles live up (d_driver c) (d_driver (bound b c))"
    using assms by (auto simp: bound_def on_driver_def call_keeps_def same_handles_def split: option.split)
  from holds_same [OF this] show "holds live up (bound b c) = holds live up c \<and> has_env live (bound b c) = has_env live c"
    by (auto simp: bound_def on_driver_def split: option.splits)
  have "same_handles live up o1 o2" if "p = Some f" "f h o1 = (x, o2)" for f h x o1 o2
  proof -
    have "same_handles live up o1 (snd (f h o1))" using assms that(1) by (simp add: call_keeps_def)
    then show ?thesis by (simp add: that(2))
  qed
  then have "same_handles live up (d_driver c) (d_driver (snd (processed p c)))"
    by (auto simp: processed_def same_handles_def split: option.split prod.split)
  from holds_same [OF this]
  show "holds live up (snd (processed p c)) = holds live up c \<and> has_env live (snd (processed p c)) = has_env live c"
    by (auto simp: processed_def split: option.splits prod.splits)
qed

lemma execute_loop_holds:
  assumes keeps: "documented_handles api live up" and call: "call_keeps live up (q, b, p)"
  shows "holds live up c \<Longrightarrow> has_env live c \<Longrightarrow> execute_loop api q b p n c = Some (result, c') \<Longrightarrow>
    holds live up c' \<and> has_env live c'"
proof (induction n arbitrary: c)
  case (Suc n)
  note parts = driver_parts_hold [OF keeps] callbacks_hold [OF call]
  obtain ret c1 where run: "execute api q (bound b c) = (ret, c1)" by fastforce
  have c1: "holds live up c1" "has_env live c1"
    using parts(7,8) [of q "bound b c"] Suc.prems(1,2) parts(13) [of c] by (simp_all add: run)
  show ?case
  proof (cases "succeeded ret")
    case True
    obtain success c2 where done1: "processed p c1 = (success, c2)" by fastforce
    then have "holds live up c2" "has_env live c2" using parts(14) [of c1] c1 by simp_all
    then show ?thesis using Suc.prems(3) run True done1 parts(5,6) by auto
  next
    case False
    then obtain again c2 where check: "CheckFailoverState api (d_hStmt c1) ret c1 = Some (again, c2)"
      using Suc.prems(3) run by (auto split: option.splits)
    note c2 = CheckFailoverState_holds [OF keeps c1 check]
    show ?thesis
      using Suc.prems(3) run False check Suc.IH [of c2] c2 parts(5,6)
      by (cases again) (auto split: option.splits)
  qed
qed simp

lemma run_db_calls_holds:
  assumes "documented_handles api live up"
  shows "list_all (call_keeps live up) calls \<Longrightarrow> settled live up c \<Longrightarrow> run_db_calls api calls c = Some (results, c') \<Longrightarrow>
    settled live up c'"
proof (induction calls arbitrary: c results)
  case (Cons call calls)
  obtain q b p where call: "call = (q, b, p)" by (cases call)
  with Cons.prems(3) obtain r c1 rs where one: "ExecuteProc api q b p c = Some (r, c1)" "run_db_calls api calls c1 = Some (rs, c')"
    by (auto split: option.splits)
  have "settled live up c1"
    using one(1) Cons.prems(1,2) execute_loop_holds [OF assms, of q b p c MAX_RETRIES r c1]
    by (auto simp: ExecuteProc_def call settled_def split: if_splits)
  then show ?case using Cons.IH [OF _ _ one(2)] Cons.prems(1) by simp
qed simp

lemma db_Connect_holds:
  assumes keeps: "documented_handles api live up" and none: "live o1 = {}" "up o1 = {}"
    and run: "db_Connect api e d u p (new_DBConnection o1) = Some (ok, c)"
  shows "settled live up c"
proof -
  let ?c = "(new_DBConnection o1)\<lparr>d_endpoint := e, d_database := d, d_uid := u, d_pwd := p\<rparr>"
  obtain ret1 c1 where env: "alloc_env api ?c = (ret1, c1)" by fastforce
  let ?c1 = "on_driver (SQLSetEnvAttr api (d_hEnv c1)) c1"
  obtain ret2 c2 where alloc: "alloc_dbc api ?c1 = (ret2, c2)" by fastforce
  obtain ret3 c3 where dial: "driver_connect api c2 = (ret3, c3)" by fastforce
  obtain ret4 c4 where stmt: "alloc_stmt api c3 = (ret4, c4)" by fastforce
  have c1: "holds live up c1" "succeeded ret1 \<Longrightarrow> has_env live c1" "d_hDbc c1 = SQL_NULL_HANDLE"
      "d_hStmt c1 = SQL_NULL_HANDLE" "\<not> d_connected c1"
    using alloc_env_holds [OF keeps _ _ env] by (simp_all add: none new_DBConnection_def)
  show ?thesis
  proof (cases "ret1 = SQL_SUCCESS")
    case False
    then show ?thesis using run c1 by (simp add: db_Connect_def env settled_def)
  next
    case ok1: True
    then have "holds live up ?c1" "has_env live ?c1" using c1 driver_parts_hold(9,10) [OF keeps] by simp_all
    from alloc_dbc_holds [OF keeps this _ alloc]
    have c2: "holds live up c2" "has_env live c2" "\<not> is_up up c2" "succeeded ret2 \<Longrightarrow> has_dbc live c2"
        "d_hStmt c2 = SQL_NULL_HANDLE"
      using c1 by (simp_all add: on_driver_def)
    show ?thesis
    proof (cases "ret2 = SQL_SUCCESS")
      case True
      from dialling_holds [OF keeps c2(1,2) c2(4) c2(3) dial stmt] show ?thesis
        using run ok1 True by (auto simp: db_Connect_def env alloc dial stmt settled_def bind_eq_Some_conv split: if_splits)
    qed (use run c2 ok1 in \<open>auto simp: db_Connect_def env alloc settled_def bind_eq_Some_conv split: if_splits\<close>)
  qed
qed

subsection \<open>A driver, for evaluation\<close>

text \<open>
  It gives out handles from a counter, answers executions with the SQL states of a script (and with
  success when the script is over), counts executions and connection attempts, and refuses to connect
  while it is down.
\<close>

record driver =
  v_live :: "live_handle set"
  v_up :: "SQLHANDLE set"
  v_next :: SQLHANDLE
  v_script :: "string list"
  v_last :: string
  v_execs :: nat
  v_connects :: nat
  v_down :: bool

definition sample_odbc :: "driver odbc" where
  "sample_odbc = \<lparr>
     SQLAllocHandle = (\<lambda>t p v. if v_next v = SQL_NULL_HANDLE \<or> (\<exists>x\<in>v_live v. fst x = t \<and> snd (snd x) = v_next v)
       then (SQL_OTHER (- 1), SQL_NULL_HANDLE, v)
       else (SQL_SUCCESS, v_next v, v\<lparr>v_live := insert (t, p, v_next v) (v_live v), v_next := v_next v + 1\<rparr>)),
     SQLFreeHandle = (\<lambda>t h v. if t = SQL_HANDLE_DBC \<and> h \<in> v_up v \<or>
         t = SQL_HANDLE_ENV \<and> (\<exists>x\<in>v_live v. fst x = SQL_HANDLE_DBC \<and> fst (snd x) = h)
       then v else v\<lparr>v_live := Set.filter (\<lambda>x. \<not> (fst x = t \<and> snd (snd x) = h)) (v_live v)\<rparr>),
     SQLSetEnvAttr = (\<lambda>h v. v),
     SQLDriverConnectA = (\<lambda>h t v. if v_down v then (SQL_OTHER (- 1), v\<lparr>v_connects := v_connects v + 1\<rparr>)
       else (SQL_SUCCESS_WITH_INFO, v\<lparr>v_connects := v_connects v + 1, v_up := insert h (v_up v)\<rparr>)),
     SQLDisconnect = (\<lambda>h v. if h \<in> v_up v
       then v\<lparr>v_up := v_up v - {h}, v_live := Set.filter (\<lambda>x. \<not> (fst x = SQL_HANDLE_STMT \<and> fst (snd x) = h)) (v_live v)\<rparr>
       else v),
     SQLSetStmtAttr = (\<lambda>h v. v),
     SQLGetDiagRecW = (\<lambda>t h i v. if i = 1 then (SQL_SUCCESS, v_last v, 0) else (SQL_OTHER 100, [], 0)),
     SQLExecDirectA = (\<lambda>h t v. v),
     SQLExecDirectW = (\<lambda>h q v. case v_script v of
         [] \<Rightarrow> (SQL_SUCCESS, v\<lparr>v_execs := v_execs v + 1\<rparr>)
       | state # script \<Rightarrow> (SQL_OTHER (- 1), v\<lparr>v_execs := v_execs v + 1, v_script := script, v_last := state\<rparr>)),
     SQLCloseCursor = (\<lambda>h v. v),
     SQLFreeStmt = (\<lambda>h v. v)\<rparr>"

definition sample_driver :: "string list \<Rightarrow> bool \<Rightarrow> driver" where
  "sample_driver script down = \<lparr>v_live = {}, v_up = {}, v_next = 4, v_script = script, v_last = [], v_execs = 0, v_connects = 0,
     v_down = down\<rparr>"

definition sample_connection :: "string list \<Rightarrow> bool \<Rightarrow> driver DBConnection" where
  "sample_connection script down = (new_DBConnection (sample_driver script down))\<lparr>d_hEnv := 1, d_hDbc := 2, d_hStmt := 3,
     d_connected := True\<rparr>"

lemma sample_diagnoses: "diagnoses sample_odbc"
  unfolding diagnoses_def by (intro allI exI [of _ 1]) (simp add: sample_odbc_def)

lemma sample_counts:
  "counter sample_odbc None None v_execs 1 0" "counter sample_odbc None None v_connects 0 1"
  by (simp_all add: counter_def sample_odbc_def split: list.split)

lemma sample_handles: "documented_handles sample_odbc v_live v_up"
  unfolding documented_handles_def
  by (intro conjI allI impI)
    (auto simp: allocates_def frees_def free_refused_def disconnects_def connects_def same_handles_def sample_odbc_def
      split: list.split)

subsection \<open>Properties\<close>

text \<open>C15: A database call always returns, with 0 or -1, after at most five executions and twenty-five
  attempts to connect: whatever the driver counts grows by at most five times what an execution
  adds and twenty-five times what a connection attempt adds.\<close>

theorem db_call_bounded:
  assumes "diagnoses api" and "counter api bindParams processResult count e r"
  shows "\<exists>result c'. ExecuteProc api q bindParams processResult c = Some (result, c') \<and> (result = 0 \<or> result = - 1) \<and>
    count (d_driver c') \<le> count (d_driver c) + 5 * e + 25 * r"
proof -
  obtain result c' where run: "execute_loop api q bindParams processResult MAX_RETRIES c = Some (result, c')"
    and result: "result = 0 \<or> result = - 1"
    using execute_loop_returns [OF assms(1)] by blast
  from execute_loop_used [OF assms(2) run] result run show ?thesis
    by (simp add: ExecuteProc_def used_def MAX_RETRIES_def)
qed

theorem db_call_bounded_witness:
  "\<exists>result c'. ExecuteProc sample_odbc [] None None (sample_connection (replicate 9 ''08S02'') False) = Some (result, c') \<and>
    v_execs (d_driver c') \<le> 5"
  using db_call_bounded [OF sample_diagnoses sample_counts(1), of "[]" "sample_connection (replicate 9 ''08S02'') False"]
  by (auto simp: sample_connection_def new_DBConnection_def sample_driver_def)

text \<open>One turn of the loop that ends in a failover: the execution failed, and the connection was set up again.\<close>

definition failover_turn :: "'o odbc \<Rightarrow> u16 list \<Rightarrow> 'o bind_params \<Rightarrow> 'o DBConnection \<Rightarrow> 'o DBConnection \<Rightarrow> bool" where
  "failover_turn api q b c c' \<longleftrightarrow> (case execute api q (bound b c) of (ret, c1) \<Rightarrow>
     \<not> succeeded ret \<and> HandleDiagnostic api (d_hStmt c1) SQL_HANDLE_STMT c1 \<noteq> None \<and>
     CheckFailoverState api (d_hStmt c1) ret c1 = Some (True, c'))"

lemma failover_turn_loop:
  "failover_turn api q b c c' \<Longrightarrow> execute_loop api q b p (Suc n) c = execute_loop api q b p n c'"
  by (auto simp: failover_turn_def split: prod.splits option.splits)

lemma failover_turns_loop:
  "(failover_turn api q b ^^ k) c c' \<Longrightarrow> execute_loop api q b p (k + n) c = execute_loop api q b p n c'"
proof (induction k arbitrary: c)
  case (Suc k)
  then obtain c1 where "failover_turn api q b c c1" "(failover_turn api q b ^^ k) c1 c'"
    by (blast elim: relpowp_Suc_E2)
  then show ?case using failover_turn_loop [of api q b c c1 p "k + n"] Suc.IH [of c1] by simp
qed simp

text \<open>A call survives failovers: when up to four executions in a row end in a failover that was dealt
  with and the next one succeeds, the call answers with what its results say, 0 for success and -1
  for failure, and closes its cursor.\<close>

theorem failovers_survived:
  assumes "d_connected c" and "d_hStmt c \<noteq> SQL_NULL_HANDLE"
    and "(failover_turn api q bindParams ^^ k) c c1" and "k < MAX_RETRIES"
    and "execute api q (bound bindParams c1) = (ret, c2)" and "succeeded ret"
  shows "ExecuteProc api q bindParams processResult c =
    (case processed processResult c2 of (success, c3) \<Rightarrow> Some (if success then 0 else - 1, close_call api c3))"
proof -
  obtain n where n: "MAX_RETRIES = k + Suc n" using assms(4) by (auto simp: less_iff_Suc_add)
  show ?thesis
    using assms(1,2,5,6) failover_turns_loop [OF assms(3), of processResult "Suc n"]
    by (simp add: ExecuteProc_def n)
qed

lemma sample_turn: "failover_turn sample_odbc [] None (sample_connection [''08S02''] False)
   ((sample_connection [] False)\<lparr>d_driver := (sample_driver [] False)\<lparr>v_execs := 1, v_last := ''08S02''\<rparr>\<rparr>)"
proof -
  have "HandleDiagnostic sample_odbc h t c \<noteq> None" for h t and c :: "driver DBConnection"
    using HandleDiagnostic_returns [OF sample_diagnoses, of h t c] by auto
  then show ?thesis
    by (simp add: failover_turn_def execute_def bound_def CheckFailoverState_def SetInitialSessionState_def on_driver_def
        sample_connection_def new_DBConnection_def sample_driver_def sample_odbc_def SQL_NULL_HANDLE_def strncmp_eq_def
        cstr_def)
qed

theorem failovers_survived_witness:
  "map_option fst (ExecuteProc sample_odbc [] None None (sample_connection [''08S02''] False)) = Some 0"
proof -
  have turns: "(failover_turn sample_odbc [] None ^^ 1) (sample_connection [''08S02''] False)
      ((sample_connection [] False)\<lparr>d_driver := (sample_driver [] False)\<lparr>v_execs := 1, v_last := ''08S02''\<rparr>\<rparr>)"
    using sample_turn by (simp add: eq_OO)
  show ?thesis
    using failovers_survived [OF _ _ turns, of _ _ None]
    by (simp add: execute_def bound_def processed_def sample_connection_def new_DBConnection_def SQL_NULL_HANDLE_def
        MAX_RETRIES_def sample_odbc_def sample_driver_def)
qed

text \<open>
  A count of the connection attempts: \<open>SQLDriverConnectA\<close> adds one and nothing else a call does
  changes it.
\<close>

definition counts_attempts :: "'o odbc \<Rightarrow> 'o bind_params \<Rightarrow> ('o \<Rightarrow> nat) \<Rightarrow> bool" where
  "counts_attempts api bindParams count \<longleftrightarrow>
     (\<forall>h t o1. count (snd (SQLDriverConnectA api h t o1)) = count o1 + 1) \<and>
     (\<forall>h q o1. count (snd (SQLExecDirectW api h q o1)) = count o1) \<and>
     (\<forall>t h o1. count (snd (snd (SQLAllocHandle api t h o1))) = count o1) \<and>
     (\<forall>t h o1. count (SQLFreeHandle api t h o1) = count o1) \<and>
     (\<forall>h o1. count (SQLDisconnect api h o1) = count o1) \<and>
     (\<forall>h o1. count (SQLCloseCursor api h o1) = count o1) \<and>
     (\<forall>h o1. count (SQLFreeStmt api h o1) = count o1) \<and>
     (\<forall>f h o1. bindParams = Some f \<longrightarrow> count (f h o1) = count o1)"

text \<open>A driver that hands out connection handles and refuses every connection.\<close>

definition refuses :: "'o odbc \<Rightarrow> bool" where
  "refuses api \<longleftrightarrow> (\<forall>h o1. fst (SQLAllocHandle api SQL_HANDLE_DBC h o1) = SQL_SUCCESS) \<and>
     (\<forall>h t o1. \<not> succeeded (fst (SQLDriverConnectA api h t o1)))"

lemma attempts_parts:
  assumes "counts_attempts api b count"
  shows "used count (free_dbc api (free_stmt api c)) = used count c" "used count (drop_dbc api c) = used count c"
    "used count (snd (alloc_dbc api c)) = used count c" "used count (snd (driver_connect api c)) = used count c + 1"
    "used count (close_call api c) = used count c" "used count (bound b c) = used count c"
    "used count (snd (execute api q c)) = used count c"
  using assms
  by (simp_all add: counts_attempts_def used_def free_dbc_def free_stmt_def hang_up_def drop_dbc_def on_driver_def
      close_call_def bound_def alloc_dbc_def driver_connect_def execute_def split_beta split: option.split)

lemma refused_Reconnect:
  assumes "diagnoses api" and "refuses api" and "counts_attempts api b count"
  shows "\<exists>c'. Reconnect api c = Some (False, c') \<and> (\<not> d_connected c \<longrightarrow> \<not> d_connected c') \<and> used count c' = used count c + 1"
proof -
  obtain ret1 c1 where alloc: "alloc_dbc api (free_dbc api (free_stmt api c)) = (ret1, c1)" by fastforce
  obtain ret2 c2 where dial: "driver_connect api c1 = (ret2, c2)" by fastforce
  note parts = attempts_parts [OF assms(3)]
  have counts: "used count c2 = used count c + 1"
    using parts(1) [of c] parts(3) [of "free_dbc api (free_stmt api c)"] parts(4) [of c1] by (simp add: alloc dial)
  have "fst (SQLAllocHandle api SQL_HANDLE_DBC h o1) = SQL_SUCCESS" for h o1 using assms(2) by (simp add: refuses_def)
  from this [of "d_hEnv (free_dbc api (free_stmt api c))" "d_driver (free_dbc api (free_stmt api c))"]
  have "ret1 = SQL_SUCCESS" using alloc by (auto simp: alloc_dbc_def split: prod.splits)
  moreover have "d_connected c1 = d_connected c"
    using alloc by (auto simp: alloc_dbc_def free_dbc_def free_stmt_def hang_up_def drop_dbc_def on_driver_def split: prod.splits if_splits)
  moreover have "\<not> succeeded (fst (SQLDriverConnectA api h t o1))" for h t o1 using assms(2) by (simp add: refuses_def)
  from this [of "d_hDbc c1" "connStr c1" "d_driver c1"]
  have "\<not> succeeded ret2" "d_connected c2 = d_connected c1" using dial by (auto simp: driver_connect_def split: prod.splits)
  moreover have "d_connected (drop_dbc api c2) = d_connected c2" by (simp add: drop_dbc_def on_driver_def)
  ultimately show ?thesis
    using counts by (simp add: Reconnect_def alloc dial bind_diagnosed [OF assms(1)] parts)
qed

lemma refused_loop:
  assumes "diagnoses api" and "refuses api" and "counts_attempts api b count"
  shows "\<not> d_connected c \<Longrightarrow> \<exists>c'. reconnect_loop api n c = Some (False, c') \<and> \<not> d_connected c' \<and>
    used count c' = used count c + n"
proof (induction n arbitrary: c)
  case (Suc n)
  obtain c1 where "Reconnect api c = Some (False, c1)" "\<not> d_connected c1" "used count c1 = used count c + 1"
    using refused_Reconnect [OF assms, of c] Suc.prems by blast
  then show ?case using Suc.IH [of c1] by auto
qed simp

lemma calls_when_down:
  "\<not> d_connected c \<Longrightarrow> run_db_calls api calls c = Some (map (\<lambda>_. - 1) calls, c)"
  by (induction calls) (auto simp: ExecuteProc_def)

text \<open>C30: A connection that is lost once while the database refuses to connect is lost for good: the call
  makes exactly five attempts to connect, fails, and every later call fails at once without asking
  the driver, however well the database is by then.\<close>

theorem lost_for_good:
  assumes "diagnoses api" and "refuses api" and "counts_attempts api bindParams attempts"
    and "d_connected c" and "d_hStmt c \<noteq> SQL_NULL_HANDLE"
    and "execute api q (bound bindParams c) = (ret, c1)" and "\<not> succeeded ret"
    and "SQLGetDiagRecW api SQL_HANDLE_STMT (d_hStmt c1) 1 (d_driver c1) = (SQL_SUCCESS, ''08S01'', native)"
  shows "\<exists>c'. ExecuteProc api q bindParams processResult c = Some (- 1, c') \<and>
    attempts (d_driver c') = attempts (d_driver c) + 5 \<and>
    (\<forall>api' calls. run_db_calls api' calls c' = Some (map (\<lambda>_. - 1) calls, c'))"
proof -
  note parts = attempts_parts [OF assms(3)]
  obtain recs where diag: "HandleDiagnostic api (d_hStmt c1) SQL_HANDLE_STMT c1 = Some recs"
    using HandleDiagnostic_returns [OF assms(1)] by blast
  obtain c2 where loop: "reconnect_loop api MAX_RETRIES (c1\<lparr>d_connected := False\<rparr>) = Some (False, c2)"
    and down: "\<not> d_connected c2" and counts: "used attempts c2 = used attempts c1 + MAX_RETRIES"
    using refused_loop [OF assms(1-3), where c = "c1\<lparr>d_connected := False\<rparr>"] by (auto simp: used_def)
  have "CheckFailoverState api (d_hStmt c1) ret c1 = Some (False, c2)"
    by (simp add: CheckFailoverState_def assms(7,8) loop strncmp_eq_def cstr_def)
  then have "ExecuteProc api q bindParams processResult c = Some (- 1, close_call api c2)"
    using assms(4-7) diag by (simp add: ExecuteProc_def MAX_RETRIES_def numeral_nat)
  moreover have "\<not> d_connected (close_call api c2)" using down by (simp add: close_call_def on_driver_def)
  moreover have "used attempts c1 = used attempts c" using parts(7) [of q "bound bindParams c"] parts(6) [of c] by (simp add: assms(6))
  then have "used attempts (close_call api c2) = used attempts c + 5" by (simp add: parts(5) counts MAX_RETRIES_def)
  ultimately show ?thesis using calls_when_down by (auto simp: used_def)
qed

text \<open>The sample driver with fresh connection handles and a database that is down for good.\<close>

definition dead_odbc :: "driver odbc" where
  "dead_odbc = sample_odbc\<lparr>SQLAllocHandle := (\<lambda>t p v. (SQL_SUCCESS, v_next v, v\<lparr>v_next := v_next v + 1\<rparr>)),
     SQLDriverConnectA := (\<lambda>h t v. (SQL_OTHER (- 1), v\<lparr>v_connects := v_connects v + 1\<rparr>))\<rparr>"

theorem lost_for_good_witness:
  "\<exists>c'. ExecuteProc dead_odbc [] None None (sample_connection [''08S01''] True) = Some (- 1, c') \<and>
    v_connects (d_driver c') = 5 \<and> run_db_calls sample_odbc [([], None, None)] c' = Some ([- 1], c')"
proof -
  have diag: "diagnoses dead_odbc"
    unfolding diagnoses_def by (intro allI exI [of _ 1]) (simp add: dead_odbc_def sample_odbc_def)
  have dead: "refuses dead_odbc" by (simp add: refuses_def dead_odbc_def)
  have counts: "counts_attempts dead_odbc None v_connects"
    by (simp add: counts_attempts_def dead_odbc_def sample_odbc_def split: list.split)
  have conn: "d_connected (sample_connection [''08S01''] True)" "d_hStmt (sample_connection [''08S01''] True) \<noteq> SQL_NULL_HANDLE"
    "v_connects (d_driver (sample_connection [''08S01''] True)) = 0"
    by (simp_all add: sample_connection_def sample_driver_def SQL_NULL_HANDLE_def new_DBConnection_def)
  let ?v = "(sample_driver [] True)\<lparr>v_execs := 1, v_last := ''08S01''\<rparr>"
  have run: "execute dead_odbc [] (bound None (sample_connection [''08S01''] True)) =
      (SQL_OTHER (- 1), (sample_connection [] True)\<lparr>d_driver := ?v\<rparr>)"
    by (simp add: execute_def bound_def dead_odbc_def sample_odbc_def sample_connection_def new_DBConnection_def sample_driver_def)
  have "SQLGetDiagRecW dead_odbc SQL_HANDLE_STMT h 1 ?v = (SQL_SUCCESS, ''08S01'', 0)" for h
    by (simp add: dead_odbc_def sample_odbc_def)
  with lost_for_good [OF diag dead counts conn(1,2) run, of 0 None] show ?thesis
    by (fastforce simp: conn(3))
qed



text \<open>The connection string is complete exactly when it fits its array; a long password cuts the failover
  mode off it.\<close>

lemma connStr_complete: "connStr c = connection_text c \<longleftrightarrow> length (connection_text c) \<le> 511"
  by (simp add: connStr_def take_all_iff)

lemma failover_mode_cut:
  assumes "460 \<le> length (cstr (d_pwd c))"
  shows "connStr c = take 511 (''DRIVER={AWS ODBC ANSI Driver for MySQL};SERVER='' @ cstr (d_endpoint c) @
     '';DATABASE='' @ cstr (d_database c) @ '';UID='' @ cstr (d_uid c) @ '';PWD='' @ cstr (d_pwd c))"
proof -
  let ?p = "''DRIVER={AWS ODBC ANSI Driver for MySQL};SERVER='' @ cstr (d_endpoint c) @
     '';DATABASE='' @ cstr (d_database c) @ '';UID='' @ cstr (d_uid c) @ '';PWD='' @ cstr (d_pwd c)"
  have "connection_text c = ?p @ '';FAILOVER_MODE={strict reader}''"
    unfolding connection_text_def by (simp only: append_assoc)
  moreover have "511 \<le> length ?p" using assms by simp
  ultimately show ?thesis unfolding connStr_def by (simp only: take_append) simp
qed

end
