(* ===== verification/Server_Start.thy ===== *)
theory Server_Start
  imports Json_Roundtrip DB_Connection Sample_Run
begin

text \<open>
  The start of the server, the first half of \<open>main\<close> in \<open>GameServer/main.cpp\<close>: it connects to the database,
  tries a query (whose failure it only reports), loads the two data files and places the NPCs. It ends
  with exit code 1 when the database refuses or a table stays empty. On the repository's data files it
  comes to the initial world of an environment that has what the properties of the running server ask for.
\<close>

datatype ('d, 'o) started = Exit int | Running "'d env" "'d world" "'o DBConnection"

definition select_1 :: "u16 list" where
  "select_1 = map (\<lambda>c. word_of_nat (of_char c)) ''SELECT 1''"

definition load_tables ::
  "string option \<Rightarrow> string option \<Rightarrow> 'd \<Rightarrow> 'd env \<Rightarrow> 'o DBConnection \<Rightarrow> ('d, 'o) started result option" where
  "load_tables items quests db E c = (case LoadItems items E of
     None \<Rightarrow> None
   | Some (Inl e) \<Rightarrow> Some (Inl e)
   | Some (Inr (False, E1)) \<Rightarrow> Some (Inr (Exit 1))
   | Some (Inr (True, E1)) \<Rightarrow> (case LoadQuests quests E1 of
       None \<Rightarrow> None
     | Some (Inl e) \<Rightarrow> Some (Inl e)
     | Some (Inr (False, E2)) \<Rightarrow> Some (Inr (Exit 1))
     | Some (Inr (True, E2)) \<Rightarrow> Some (Inr (Running E2 (initial_world E2 db) c))))"

definition startup ::
  "'o odbc \<Rightarrow> string option \<Rightarrow> string option \<Rightarrow> 'd \<Rightarrow> 'd env \<Rightarrow> 'o DBConnection \<Rightarrow> ('d, 'o) started result option" where
  "startup api items quests db E c =
     (case db_Connect api ''127.0.0.1'' ''mockdb'' ''admin'' ''flfhelem1!'' c of
        None \<Rightarrow> None
      | Some (False, c1) \<Rightarrow> Some (Inr (Exit 1))
      | Some (True, c1) \<Rightarrow> (case ExecuteQuery api select_1 c1 of
          None \<Rightarrow> None
        | Some (ok, c2) \<Rightarrow> load_tables items quests db E c2))"

lemma load_data_files:
  assumes "g_items E = []" and "g_dropTable E = []" and "g_totalWeight E = 0" and "g_quests E = []"
  shows "load_tables (Some items_json) (Some quests_json) db E c =
    (let E' = E\<lparr>g_items := g_items sample_env, g_dropTable := g_dropTable sample_env, g_totalWeight := 80,
       g_quests := g_quests sample_env\<rparr> in Some (Inr (Running E' (initial_world E' db) c)))"
proof -
  have some: "g_items sample_env \<noteq> []" "g_quests sample_env \<noteq> []" "total_weight (g_dropTable sample_env) = 80"
    by (simp_all add: sample_env_def total_weight_def)
  have "LoadItems (Some items_json) E = Some (Inr (True, E\<lparr>g_items := g_items sample_env,
      g_dropTable := g_dropTable sample_env, g_totalWeight := 80\<rparr>))"
    unfolding items_json_text using load_items_file [OF sample_tables_ok(1,2), of E] assms some by simp
  moreover have "LoadQuests (Some quests_json) F = Some (Inr (True, F\<lparr>g_quests := g_quests sample_env\<rparr>))"
    if "g_quests F = []" for F :: "'a env"
    unfolding quests_json_text load_quests_file [OF sample_tables_ok(3)] using that some by simp
  ultimately show ?thesis using assms by (simp add: load_tables_def Let_def)
qed

text \<open>C18: The server starts on the repository's data: once the database is connected, whatever the test query
  gives, it comes to the initial world, with a drop table whose total is the sum of its positive
  weights, item names that fit the messages, and the items and quests of the files.\<close>

theorem server_starts:
  assumes "diagnoses api" and "db_Connect api ''127.0.0.1'' ''mockdb'' ''admin'' ''flfhelem1!'' c = Some (True, c1)"
    and "g_items E = []" and "g_dropTable E = []" and "g_totalWeight E = 0" and "g_quests E = []"
  shows "\<exists>E' c2. startup api (Some items_json) (Some quests_json) db E c = Some (Inr (Running E' (initial_world E' db) c2)) \<and>
    drop_table_ok E' \<and> short_names E' \<and> g_items E' = g_items sample_env \<and> g_quests E' = g_quests sample_env"
proof -
  obtain ok c2 where "ExecuteQuery api select_1 c1 = Some (ok, c2)"
    using ExecuteProc_returns [OF assms(1), of select_1 None None c1] by (auto simp: ExecuteQuery_def)
  then have run: "startup api (Some items_json) (Some quests_json) db E c = load_tables (Some items_json) (Some quests_json) db E c2"
    by (simp add: startup_def assms(2))
  let ?E = "E\<lparr>g_items := g_items sample_env, g_dropTable := g_dropTable sample_env, g_totalWeight := 80,
       g_quests := g_quests sample_env\<rparr>"
  have "drop_table_ok ?E" "short_names ?E"
    using sample_drops sample_short_names by (simp_all add: drop_table_ok_def short_names_def sample_env_def)
  then show ?thesis unfolding run load_data_files [OF assms(3-6)] Let_def
    by (intro exI [of _ ?E] exI [of _ c2]) simp
qed

theorem server_starts_witness:
  "\<exists>E' c2. startup sample_odbc (Some items_json) (Some quests_json) 0 no_tables (new_DBConnection (sample_driver [] False))
      = Some (Inr (Running E' (initial_world E' 0) c2)) \<and> drop_table_ok E'"
proof -
  obtain c1 where "db_Connect sample_odbc ''127.0.0.1'' ''mockdb'' ''admin'' ''flfhelem1!'' (new_DBConnection (sample_driver [] False))
      = Some (True, c1)"
    by (auto simp: db_Connect_def alloc_env_def alloc_dbc_def alloc_stmt_def driver_connect_def on_driver_def
        sample_odbc_def sample_driver_def new_DBConnection_def SQL_NULL_HANDLE_def)
  from server_starts [OF sample_diagnoses this, of no_tables 0] show ?thesis
    by (auto simp: no_tables_def sample_env_def)
qed

end
