(* ===== verification/Spec2Isabelle.thy ===== *)
theory Spec2Isabelle
  imports Client_Server Server_Start
begin

text \<open>
  A verification of the MMORPG simulator: the game server \<open>GameServer/\<close>, the client \<open>GameClient/\<close>,
  and the wire protocol \<open>Common/\<close> between them.

  The program. \<open>TcpServer\<close> accepts connections and gives each a \<open>Session\<close>, kept by
  \<open>SessionManager\<close>. A session collects the bytes of its socket in a buffer, cuts packets off
  it (\<open>Session::ProcessBuffer\<close>) and hands them to \<open>PacketHandler\<close>, which calls the handler
  \<open>main.cpp\<close> has registered for the packet's type. The handlers keep the state of the game in
  global maps from session ids (inventories, quest progress, parties, invitations), in the
  players stored in the sessions, and in five NPCs; they call the database through
  \<open>DBConnection\<close> and send messages. All of it runs on one thread, one completed operation after the
  other. The client has one thread that receives and runs the handlers of the messages, which keep
  a copy of what the server says in globals and draw it, and a loop that turns keys into requests.

  The theories, from the bottom up.
  \<open>Prelude\<close>, \<open>Decimal\<close>: machine integers, results (\<open>crash + 'a\<close>: a C++ process that ends is a
  value), the string functions of the C runtime, numbers as text. \<open>Ordered_Map\<close>: \<open>std::map\<close>; locale
  \<open>ordered_store\<close>.
  \<open>Layout\<close>, \<open>Protocol\<close>, \<open>Wire\<close>, \<open>Framing\<close>: \<open>Common/Protocol.h\<close>: the packet types, each payload
  struct as a record, its packed bytes, and the frame of a packet; locale \<open>packed\<close> (what is encoded
  decodes to itself) is interpreted for the header and the numbers and holds for every struct.
  \<open>Session_Buffer\<close>: \<open>Session::DoRead\<close> and \<open>ProcessBuffer\<close>; the loop is a partial function, so a
  loop that never returns has the value \<open>None\<close>. Locale \<open>packet_sink\<close> is what the loop relies on in
  the callback, and is interpreted on the server's dispatch in \<open>Server\<close>.
  \<open>Game_Data\<close>, \<open>Server_State\<close>: the tables of items, drops and quests, and the whole state of the
  server as one record \<open>world\<close>, with \<open>SessionManager\<close>'s operations. \<open>w_out\<close> is what was sent.
  \<open>Player\<close>, \<open>Inventory\<close>, \<open>Shop\<close>, \<open>Quest\<close>, \<open>Party\<close>, \<open>Combat\<close>, \<open>Account\<close>, \<open>Chat\<close>: the handlers of
  \<open>GameServer/main.cpp\<close> with their helpers, under the names of the source. A handler is a function
  from world to world, or to a result when it can end the process. Locale \<open>item_bag\<close> in
  \<open>Inventory\<close> is the contract of the twenty slots.
  \<open>Connections\<close>: which handlers leave the sessions and the keys of the global maps alone.
  \<open>Server\<close>: \<open>PacketHandler\<close>, the table \<open>main\<close> fills, accepting, disconnecting, the initial world,
  and the transition system \<open>server_step\<close>: a step is a new connection, one packet of any bytes, a new
  receive buffer, a lost connection, or a failed write. \<open>reached\<close> counts steps. Locale
  \<open>bounded_invariant\<close> is induction over them.
  \<open>Packet_Invariants\<close>, \<open>World_Invariant\<close>: every packet keeps the parts of the invariant
  \<open>world_inv\<close>, so do the other steps, and the locale is interpreted: \<open>server.always\<close>.
  \<open>Sample\<close>, \<open>Sample_Run\<close>: the data files of the repository, a world and a run for evaluation.
  \<open>Client\<close>, \<open>Client_Handlers\<close>, \<open>Client_Input\<close>: \<open>GameClient/main.cpp\<close>: its globals as the record
  \<open>client\<close>, the two screens as text, the handler of every message (\<open>cl_\<close> before the name of the
  source), and the keys; a loop over keys that waits for more has the value \<open>None\<close>.
  \<open>Client_Net\<close>: \<open>GameClient/TcpClient.cpp\<close>: the receive loop; locale \<open>frame_sink\<close>, interpreted on the
  table of the client's handlers.
  \<open>Server_Messages\<close>: everything the server sends is safe for the client; locale
  \<open>message_invariant\<close> and its extensions carry a property of what was sent through all handlers.
  \<open>Client_View\<close>: locale \<open>packet_view\<close>, a part of the client's state that only messages determine.
  \<open>Mirror\<close>, \<open>Npc_Mirror\<close>: the client and the server together: the inventory and the NPCs a client
  shows are the server's.
  \<open>Client_Server\<close>: from the keys of a player through the network to the server's handler and back
  to the player's screen.
  \<open>DB_Connection\<close>: \<open>DBConnection.cpp\<close> over a record of the ODBC functions.
  \<open>Json_Loader\<close>, \<open>Json_Roundtrip\<close>, \<open>Server_Start\<close>: loading \<open>items.json\<close> and \<open>quests.json\<close>, the two
  files of the repository, and the start of the server up to its event loop.

  What is shown. In this theory, of the server as a whole: packets are handled as sent however the
  stream is cut; the invariants of players, NPCs, parties and maps in every reached world; that no
  handler divides by zero; which packets cannot end the process; and that a zero length field stops
  the server for ever. In \<open>Mirror\<close>, \<open>Npc_Mirror\<close> and \<open>Client_Server\<close>, of the two programs: no reached
  server brings a client down, the client's inventory and NPCs are the server's, and a player who
  walks sees where the server has him. In the component theories, of each handler: the functional effect on every branch,
  refinement of an abstract specification (the quest state machine, parties as a partition),
  conservation (items when equipping, gold when killing, buying and selling, handles of the database),
  round trips (wire format, data files, the chat line), bounds (executions and reconnections of a
  database call), progress (enough blows kill, the server starts), and the places where the code
  does not do what it means to.

  Bounds and parameters. \<open>max_steps\<close> (4294967000) bounds the steps for which no 32-bit identifier
  has wrapped around. Integers have their width throughout. The database the handlers see is the
  parameter \<open>dbConn\<close> of \<open>env\<close>: any functions from a state to the rows the ODBC calls return; \<open>rand()\<close>
  is any stream of values, \<open>std::hash\<close> any function. Nothing is assumed of them. The hypotheses
  \<open>drop_table_ok\<close> (the total weight is the sum of positive weights) and \<open>short_names\<close> (item names below
  32 bytes) hold of the data files, as \<open>server_starts\<close> shows. Of the ODBC driver the theorems
  assume, where they name it, that the diagnostic records of a handle come to an end (\<open>diagnoses\<close>),
  what the ODBC documentation says of allocating, connecting, disconnecting and freeing handles
  (\<open>documented_handles\<close>), that a driver refuses to connect (\<open>refuses\<close>), and what is being counted
  (\<open>counter\<close>, \<open>counts_attempts\<close>).

  Library functions written out. The string routines of the Microsoft runtime (\<open>Prelude\<close>), \<open>atoi\<close>,
  \<open>atoll\<close> and \<open>std::stoi\<close> (\<open>Decimal\<close>), and \<open>WideCharToMultiByte\<close> for one UTF-16 unit (\<open>utf8\<close> in
  \<open>Client_Input\<close>) are definitions after their documentation. \<open>tolower\<close> leaves a key above 127, for
  which the language leaves its result open, as it is. Printing a char array of a packet reads it to
  its NUL (\<open>c_print\<close>); an array without one is the crash \<open>Unterminated\<close>.

  Not modelled: the rest of what is printed to the console's log, the text of the SQL statements and of
  the stored procedures, closing of the sockets and of the acceptor, waiting (\<open>Sleep\<close>), running out of
  memory, and the overlap of the client's receive thread with its main loop: the model takes their
  turns one at a time, which is less than the program can do (nothing in it keeps the two apart). The
  two \<open>send\<close> calls of \<open>TcpClient::Send\<close> are taken to send every byte: their results are not looked at,
  and on a socket that does not block a full send buffer would cut a frame short.
\<close>

section \<open>The server as a whole\<close>

text \<open>C4: In every world the server reaches in at most \<open>max_steps\<close> steps (accepts, packets of any bytes,
  disconnects, failed writes), every player stands on the map with no more than its maximum hit
  points, and every inventory has its twenty slots.\<close>

theorem reached_players_and_bags:
  assumes "reached (server_step E) (initial_world E db) n w" and "n \<le> max_steps"
  shows "on_map (GetPlayer w sid) \<and> p_hp (GetPlayer w sid) \<le> p_maxHp (GetPlayer w sid) \<and>
    length (inv_slots (get_inv w sid)) = MAX_INVENTORY"
  using server.always [OF assms]
  by (simp add: world_inv_def players_ok_def player_ok_def inventories_ok_def inv_wf_def)

theorem reached_players_and_bags_witness:
  "on_map (GetPlayer joined 1) \<and> length (inv_slots (get_inv joined 2)) = MAX_INVENTORY"
  using reached_players_and_bags [OF joined_reached, of 1] reached_players_and_bags [OF joined_reached, of 2]
  by (simp add: max_steps_def)

text \<open>C19: Whatever bytes a client sends in a reached world, no handler divides by zero: the killer's
  party always has a member to share with, and a drop table whose total weight is the sum of its
  positive weights is never divided by zero.\<close>

theorem no_division_by_zero:
  assumes "reached (server_step E) (initial_world E db) n w" and "n \<le> max_steps"
    and "drop_table_ok E"
  shows "HandlePacket E sid header payload w \<noteq> Inl DivideByZero"
proof -
  have "members_ok w" using server.always [OF assms(1,2)] by (simp add: world_inv_def)
  then show ?thesis
    using HandlePacket_handle [of E sid header payload w] handle_crash [OF _ assms(3), of w sid]
    by fastforce
qed

theorem no_division_by_zero_witness:
  "HandlePacket sample_env 1 \<lparr>ph_length = 12, ph_type = packet_code CS_ATTACK\<rparr> invite_payload joined
     \<noteq> Inl DivideByZero"
  by (rule no_division_by_zero [OF joined_reached _ sample_drops]) (simp add: max_steps_def)

text \<open>C25: In a reached world, with a drop table of positive weights and item names shorter than the
  32-byte shop message, a packet other than login, character list and character creation brings the
  process down in one case only: the handler prints a text of the packet (a chat message, the name of
  a whisper's target, the name of a player who is invited) that has no terminating NUL. Every other
  such packet is handled to the end.\<close>

theorem packets_survived:
  assumes "reached (server_step E) (initial_world E db) n w" and "n \<le> max_steps"
    and "drop_table_ok E" and "short_names E"
    and "\<nexists>x. p = C_Login x" and "p \<noteq> C_CharList" and "\<nexists>x. p = C_CharCreate x"
  shows "(handle E sid p w = Inl c \<longleftrightarrow> prints_beyond sid p w \<and> c = Unterminated) \<and>
    (\<not> prints_beyond sid p w \<longrightarrow> (\<exists>w'. handle E sid p w = Inr w'))"
proof -
  have "members_ok w" using server.always [OF assms(1,2)] by (simp add: world_inv_def)
  from handle_safe_packets [OF this assms(3-7), of sid]
  show ?thesis by (cases "handle E sid p w") auto
qed

theorem packets_survived_witness:
  "(\<exists>w'. handle sample_env 1 (C_ShopBuy \<lparr>sb_itemId = 5\<rparr>) joined = Inr w') \<and>
   handle sample_env 1 (C_Chat \<lparr>cch_channel = 0, cch_targetName = [], cch_message = replicate 128 (CHR ''a'')\<rparr>) joined =
     Inl Unterminated"
  using packets_survived [OF joined_reached _ sample_drops sample_short_names, of "C_ShopBuy \<lparr>sb_itemId = 5\<rparr>" 1]
    packets_survived [OF joined_reached _ sample_drops sample_short_names,
      of "C_Chat \<lparr>cch_channel = 0, cch_targetName = [], cch_message = replicate 128 (CHR ''a'')\<rparr>" 1 Unterminated]
  by (simp add: max_steps_def prints_beyond_def terminated_def)

text \<open>C20: In every reached world there are five NPCs, all alive with hit points between 1 and 30, on the
  map, and no two with the same id: a killed NPC is always replaced within the handler that
  killed it.\<close>

theorem reached_npcs:
  assumes "reached (server_step E) (initial_world E db) n w" and "n \<le> max_steps"
  shows "length (w_npcs w) = MAX_NPC \<and> distinct (map n_uid (w_npcs w)) \<and>
    list_all (\<lambda>npc. n_alive npc \<and> 0 < n_hp npc \<and> n_hp npc \<le> 30 \<and> in_map (n_posX npc) \<and> in_map (n_posY npc))
      (w_npcs w)"
  using server.always [OF assms] by (auto simp: world_inv_def npcs_ok_def npc_ok_def list_all_iff)

theorem reached_npcs_witness: "distinct (map n_uid (w_npcs joined))"
  using reached_npcs [OF joined_reached] by (simp add: max_steps_def)

text \<open>C5: In every reached world a session that has a party is connected and is a member of that party,
  and the party has between two and four members.\<close>

theorem reached_parties:
  assumes "reached (server_step E) (initial_world E db) n w" and "n \<le> max_steps"
    and "party_of w sid = Some p"
  shows "live w sid \<and> (\<exists>ms. party_at w p = Some ms \<and> sid \<in> set ms \<and> 2 \<le> length ms \<and> length ms \<le> MAX_PARTY)"
proof -
  have inv: "members_ok w" "sizes_ok w" "keys_live w"
    using server.always [OF assms(1,2)] by (simp_all add: world_inv_def)
  have "sid \<in> party_keys w" using assms(3) by (simp add: party_keys_of)
  with inv(3) have "live w sid" by (simp add: keys_live_def)
  moreover from members_okD [OF inv(1) assms(3)] inv(2)
  have "\<exists>ms. party_at w p = Some ms \<and> sid \<in> set ms \<and> 2 \<le> length ms \<and> length ms \<le> MAX_PARTY"
    by (auto simp: sizes_ok_def)
  ultimately show ?thesis ..
qed

theorem reached_parties_witness: "live joined 2 \<and> (\<exists>ms. party_at joined 1 = Some ms \<and> 2 \<in> set ms)"
  using reached_parties [OF joined_reached _ joined_party(1)] by (auto simp: max_steps_def)

text \<open>C6: In every reached world a session id that is not connected has no entry in any of the server's
  per-session maps (inventories, quest progress, party, pending invitation): disconnecting releases
  all of them, and no handler brings an entry of a gone session back.\<close>

theorem reached_no_leftovers:
  assumes "reached (server_step E) (initial_world E db) n w" and "n \<le> max_steps" and "\<not> live w sid"
  shows "map_of (w_inventories w) sid = None \<and> map_of (w_questProgress w) sid = None \<and>
    map_of (w_playerParty w) sid = None \<and> map_of (w_pendingInvites w) sid = None"
proof -
  have "keys_live w" using server.always [OF assms(1,2)] by (simp add: world_inv_def)
  with assms(3) show ?thesis
    by (auto simp: keys_live_def inv_keys_def quest_keys_def party_keys_def invite_keys_def map_of_eq_None_iff)
qed

theorem reached_no_leftovers_witness: "map_of (w_playerParty dropped) 2 = None"
  using reached_no_leftovers [OF dropped_reached _ dropped_gone] by (simp add: max_steps_def)

text \<open>C31: A completed read of a connected session, whatever its bytes, is a sequence of steps of the
  transition system: the packets the loop cuts off one after the other, then the new buffer. So what
  holds in every reached world holds after every read.\<close>

theorem reads_are_steps:
  assumes "reached (server_step E) (initial_world E db) n w" and "n \<le> max_steps"
    and "GetSession w sid = Some s" and "read_fits (s_recvSize s) bytes"
    and "ReadDone E sid bytes w = Some (Inr w')"
  shows "(server_step E)\<^sup>*\<^sup>* w w'"
proof (rule ReadDone_steps [OF _ assms(3-5)])
  show "sessions_inv n w" using server.always [OF assms(1,2)] by (simp add: world_inv_def)
qed

theorem reads_are_steps_witness:
  "\<exists>w'. ReadDone sample_env 1 heartbeat one_client = Some (Inr w') \<and> (server_step sample_env)\<^sup>*\<^sup>* one_client w'"
proof -
  obtain w' where w': "ReadDone sample_env 1 heartbeat one_client = Some (Inr w')" using heartbeat_read ..
  have "read_fits (s_recvSize new_session) heartbeat"
    by (simp add: read_fits_def new_session_def heartbeat_bytes MAX_RECV_BUFFER_SIZE_def)
  from reads_are_steps [OF one_client_reached _ first_client this w'] w' show ?thesis
    by (auto simp: max_steps_def)
qed

text \<open>C1: Packets are handled as they were sent, however the network cuts the byte stream: if the reads
  of a session deliver the frames of some packets followed by an incomplete frame, the server's
  state afterwards is that of handling exactly those packets in order, and the incomplete frame is
  what is left in the buffer.\<close>

theorem stream_handled_in_order:
  assumes "list_all cs_ok ps" and "incomplete tail" and "concat chunks = stream ps @ tail"
    and "length buf = MAX_RECV_BUFFER_SIZE" and "reads_fit (HandlePacket E sid) chunks (buf, 0, w)"
    and "run_packets (handle E sid) ps w = Inr w'"
  shows "\<exists>buf'. run_reads (HandlePacket E sid) chunks (buf, 0, w) = Some (Inr (buf', length tail, w')) \<and>
    take (length tail) buf' = tail"
  using server_sink.stream_delivery [OF assms(1,2) _ _ _ assms(4,5)] assms(3,6)
  by (simp add: incomplete_def HEADER_SIZE_def)

theorem stream_handled_in_order_witness:
  "\<exists>buf'. run_reads (HandlePacket sample_env 1) [[4, 0], [1, 255]] (s_recvBuffer new_session, 0, one_client)
     = Some (Inr (buf', 0, OnHeartbeat 1 one_client))"
  using stream_handled_in_order [of "[C_Heartbeat]" "[]" "[[4, 0], [1, 255]]" "s_recvBuffer new_session"
      sample_env 1 one_client] heartbeat_halves heartbeat_stream
  by (simp add: new_session_def incomplete_def HEADER_SIZE_def heartbeat_bytes)

text \<open>The table filled by \<open>main\<close> sends every packet to the handler of its type with the struct read
  out of the payload, and a packet of a type no handler is registered for changes nothing.\<close>

theorem dispatch_by_type:
  "HandlePacket E sid \<lparr>ph_length = len, ph_type = packet_code t\<rparr> payload w =
     (case cs_read t payload of None \<Rightarrow> Inr w | Some p \<Rightarrow> handle E sid p w)"
  by (rule HandlePacket_known) simp

text \<open>C27: Four bytes stop the server: a packet whose length field is zero is never removed from the
  buffer, so the loop handles it again for ever and the read never returns.\<close>

theorem zero_length_never_returns:
  assumes "GetSession w sid = Some s" and "s_recvSize s = 0" and "4 \<le> length bytes"
    and "lget PacketHeader_L bytes = \<lparr>ph_length = 0, ph_type = packet_code CS_HEARTBEAT\<rparr>"
  shows "ReadDone E sid bytes w = None"
  by (rule zero_length_hangs [OF assms])

theorem zero_length_never_returns_witness: "ReadDone sample_env 1 [0, 0, 1, 255] sample_world = None"
  by (rule zero_length_never_returns [OF sample_sessions(1)])
    (simp_all add: sample_session_def new_session_def PacketHeader_L_def viaL_def pairL_def wordL_def)

end
